theory Spec2Isabelle
  imports Main "HOL-Library.Word"
begin

unbundle bit_operations_syntax

section \<open>The YAML engine of lib-common (src/core/yaml.c)\<close>

text \<open>
  A shallow embedding of the parser and packer of \<^verbatim>\<open>src/core/yaml.c\<close>.
  Byte strings (\<^verbatim>\<open>lstr_t\<close>, \<^verbatim>\<open>sb_t\<close>, \<^verbatim>\<open>pstream_t\<close>) are \<^typ>\<open>string\<close>;
  C functions that return \<^verbatim>\<open>int\<close> and mutate an environment return the pair of the
  integer and the new environment.
\<close>

subsection \<open>Characters\<close>

abbreviation (input) NL :: char where "NL \<equiv> CHR 0x0A"
abbreviation (input) TAB :: char where "TAB \<equiv> CHR 0x09"
abbreviation (input) SPC :: char where "SPC \<equiv> CHR '' ''"

subsection \<open>The abstract syntax tree\<close>

text \<open>
  \<^verbatim>\<open>yaml__presentation_node__t\<close>: the fields the parser fills and the packer reads.
  The \<^verbatim>\<open>included\<close> descriptor is not part of the model: the development covers
  documents without \<^verbatim>\<open>!include\<close>, for which the field stays \<^verbatim>\<open>NULL\<close>.
\<close>

record yaml_presentation_node =
  prefix_comments :: "string list"
  inline_comment :: string
  empty_lines :: nat
  flow_mode :: bool
  value_with_variables :: "string option"

text \<open>
  A C \<^verbatim>\<open>double\<close>. Floating-point arithmetic is outside the model: a finite value is kept
  as the text that \<^verbatim>\<open>sprintf("%g")\<close> prints for it.
\<close>

datatype yaml_double = DBL_INFINITY | DBL_NEG_INFINITY | DBL_NAN | DBL_FINITE string

datatype yaml_scalar =
    YAML_SCALAR_STRING string
  | YAML_SCALAR_DOUBLE yaml_double
  | YAML_SCALAR_UINT "64 word"
  | YAML_SCALAR_INT "64 word"
  | YAML_SCALAR_BOOL bool
  | YAML_SCALAR_NULL

datatype yaml_data =
    YAML_DATA (dvalue: yaml_value) (tag: "string option")
              (presentation: "yaml_presentation_node option")
and yaml_value =
    YAML_DATA_SCALAR yaml_scalar
  | YAML_DATA_SEQ (datas: "yaml_data list") (pres_nodes: "yaml_presentation_node option list")
  | YAML_DATA_OBJ (fields: "yaml_key_data list")
and yaml_key_data =
    YAML_KEY_DATA (key: string) (kdata: yaml_data)
                  (key_presentation: "yaml_presentation_node option")

section \<open>Packer\<close>

subsection \<open>Packing environment\<close>

datatype yaml_pack_state =
    PACK_STATE_CLEAN
  | PACK_STATE_ON_DASH
  | PACK_STATE_ON_KEY
  | PACK_STATE_ON_NEWLINE
  | PACK_STATE_AFTER_DATA

text \<open>
  \<^verbatim>\<open>yaml_pack_writecb_f\<close>: the callback gets the private data and a buffer. The three
  callbacks of the file (\<^verbatim>\<open>sb_write\<close>, \<^verbatim>\<open>write_nothing\<close>, \<^verbatim>\<open>iop_ypack_write_file\<close>) either
  take the whole buffer and return its length, or fail with \<^verbatim>\<open>-1\<close> and an error message;
  the model keeps exactly these two outcomes: \<open>Inr\<close> the new private data, \<open>Inl\<close> the
  message. The private data is the byte string received so far.
\<close>

type_synonym yaml_pack_writecb = "string \<Rightarrow> string \<Rightarrow> string + string"

record yaml_pack_env =
  write_cb :: yaml_pack_writecb
  priv :: string
  state :: yaml_pack_state
  indent_lvl :: int
  pres :: "(string \<Rightarrow> yaml_presentation_node option) option"
  absolute_path :: string
  current_path_pos :: nat
  err :: string
  outdirpath :: string
  flags :: nat
  active_vars :: "(string \<times> yaml_data option) list"

definition YAML_STD_INDENT :: int where
  "YAML_STD_INDENT = 2"

definition sb_write :: yaml_pack_writecb where
  "sb_write b buf = Inr (b @ buf)"

definition write_nothing :: yaml_pack_writecb where
  "write_nothing b buf = Inr b"

definition t_yaml_pack_env_new :: yaml_pack_env where
  "t_yaml_pack_env_new =
     \<lparr> write_cb = write_nothing, priv = [], state = PACK_STATE_ON_NEWLINE, indent_lvl = 0,
       pres = None, absolute_path = [], current_path_pos = 0, err = [],
       outdirpath = [], flags = 0, active_vars = [] \<rparr>"

subsection \<open>Writes\<close>

text \<open>
  \<^verbatim>\<open>do_write\<close> loops until the whole buffer is written; with an empty buffer the callback
  is not called.
\<close>

definition do_write :: "yaml_pack_env \<Rightarrow> string \<Rightarrow> int \<times> yaml_pack_env" where
  "do_write env buf =
     (if buf = [] then (0, env)
      else case write_cb env (priv env) buf of
             Inl e \<Rightarrow> (- 1, env\<lparr>err := e\<rparr>)
           | Inr p \<Rightarrow> (int (length buf), env\<lparr>priv := p\<rparr>))"

text \<open>
  The loop of \<^verbatim>\<open>do_indent\<close>: \<^verbatim>\<open>todo\<close> spaces are left, written by chunks of at most
  36 (the length of the static \<^verbatim>\<open>spaces\<close> string). \<open>False\<close> is the \<^verbatim>\<open>return -1\<close>.
\<close>

function do_indent_loop :: "yaml_pack_env \<Rightarrow> int \<Rightarrow> bool \<times> yaml_pack_env" where
  "do_indent_loop env todo =
     (if todo > 0 then
        (case write_cb env (priv env) (replicate (nat (min 36 todo)) SPC) of
           Inl e \<Rightarrow> (False, env\<lparr>err := e\<rparr>)
         | Inr p \<Rightarrow> do_indent_loop (env\<lparr>priv := p\<rparr>) (todo - min 36 todo))
      else (True, env))"
  by pat_completeness auto
termination
  by (relation "measure (\<lambda>(env, todo). nat todo)") auto

declare do_indent_loop.simps [simp del]

definition do_indent :: "yaml_pack_env \<Rightarrow> int \<times> yaml_pack_env" where
  "do_indent env =
     (case do_indent_loop env (indent_lvl env) of
        (False, env') \<Rightarrow> (- 1, env')
      | (True, env') \<Rightarrow> (indent_lvl env, env'\<lparr>state := PACK_STATE_CLEAN\<rparr>))"

text \<open>
  \<^verbatim>\<open>res += RETHROW(e)\<close>: a negative result of \<open>e\<close> is returned at once, otherwise it is
  added to \<open>res\<close> and the function goes on. \<^verbatim>\<open>res += e\<close> without \<^verbatim>\<open>RETHROW\<close> adds
  whatever \<open>e\<close> returned.
\<close>

definition RETHROW_ADD ::
  "int \<Rightarrow> int \<times> yaml_pack_env \<Rightarrow> (int \<Rightarrow> yaml_pack_env \<Rightarrow> int \<times> yaml_pack_env)
     \<Rightarrow> int \<times> yaml_pack_env" where
  "RETHROW_ADD res r k = (if fst r < 0 then r else k (res + fst r) (snd r))"

definition ADD ::
  "int \<Rightarrow> int \<times> yaml_pack_env \<Rightarrow> (int \<Rightarrow> yaml_pack_env \<Rightarrow> int \<times> yaml_pack_env)
     \<Rightarrow> int \<times> yaml_pack_env" where
  "ADD res r k = k (res + fst r) (snd r)"

text \<open>The macros \<^verbatim>\<open>WRITE\<close>/\<^verbatim>\<open>PUTS\<close>/\<^verbatim>\<open>PUTLSTR\<close>, \<^verbatim>\<open>INDENT\<close> and \<^verbatim>\<open>GOTO_STATE\<close>.\<close>

definition PUTS ::
  "int \<Rightarrow> yaml_pack_env \<Rightarrow> string \<Rightarrow> (int \<Rightarrow> yaml_pack_env \<Rightarrow> int \<times> yaml_pack_env)
     \<Rightarrow> int \<times> yaml_pack_env" where
  "PUTS res env s k = RETHROW_ADD res (do_write env s) k"

definition INDENT ::
  "int \<Rightarrow> yaml_pack_env \<Rightarrow> (int \<Rightarrow> yaml_pack_env \<Rightarrow> int \<times> yaml_pack_env)
     \<Rightarrow> int \<times> yaml_pack_env" where
  "INDENT res env k = RETHROW_ADD res (do_indent env) k"

definition yaml_pack_goto_state ::
  "yaml_pack_env \<Rightarrow> yaml_pack_state \<Rightarrow> int \<times> yaml_pack_env" where
  "yaml_pack_goto_state env new_state =
     (let done = (\<lambda>res env. (res, env\<lparr>state := new_state\<rparr>)) in
      case state env of
        PACK_STATE_CLEAN \<Rightarrow>
          (case new_state of
             PACK_STATE_ON_NEWLINE \<Rightarrow> PUTS 0 env [NL] done
           | PACK_STATE_AFTER_DATA \<Rightarrow> done 0 env
           | PACK_STATE_CLEAN \<Rightarrow> done 0 env
           | PACK_STATE_ON_DASH \<Rightarrow> done 0 env
           | PACK_STATE_ON_KEY \<Rightarrow> done 0 env)
      | PACK_STATE_ON_DASH \<Rightarrow>
          (case new_state of
             PACK_STATE_CLEAN \<Rightarrow> PUTS 0 env [SPC] done
           | PACK_STATE_ON_KEY \<Rightarrow> PUTS 0 env [SPC] done
           | PACK_STATE_ON_DASH \<Rightarrow> PUTS 0 env [SPC] done
           | PACK_STATE_ON_NEWLINE \<Rightarrow> PUTS 0 env [NL] done
           | PACK_STATE_AFTER_DATA \<Rightarrow> done 0 env)
      | PACK_STATE_ON_KEY \<Rightarrow>
          (case new_state of
             PACK_STATE_CLEAN \<Rightarrow> PUTS 0 env [SPC] done
           | PACK_STATE_ON_NEWLINE \<Rightarrow> PUTS 0 env [NL] done
           | PACK_STATE_ON_DASH \<Rightarrow> PUTS 0 env [NL] (\<lambda>res env. INDENT res env done)
           | PACK_STATE_ON_KEY \<Rightarrow> PUTS 0 env [NL] (\<lambda>res env. INDENT res env done)
           | PACK_STATE_AFTER_DATA \<Rightarrow> done 0 env)
      | PACK_STATE_ON_NEWLINE \<Rightarrow>
          (case new_state of
             PACK_STATE_CLEAN \<Rightarrow> INDENT 0 env done
           | PACK_STATE_ON_DASH \<Rightarrow> INDENT 0 env done
           | PACK_STATE_ON_KEY \<Rightarrow> INDENT 0 env done
           | PACK_STATE_ON_NEWLINE \<Rightarrow> done 0 env
           | PACK_STATE_AFTER_DATA \<Rightarrow> done 0 env)
      | PACK_STATE_AFTER_DATA \<Rightarrow>
          (case new_state of
             PACK_STATE_ON_NEWLINE \<Rightarrow> PUTS 0 env [NL] done
           | PACK_STATE_CLEAN \<Rightarrow> PUTS 0 env [SPC] done
           | PACK_STATE_ON_DASH \<Rightarrow> PUTS 0 env [NL] (\<lambda>res env. INDENT res env done)
           | PACK_STATE_ON_KEY \<Rightarrow> PUTS 0 env [NL] (\<lambda>res env. INDENT res env done)
           | PACK_STATE_AFTER_DATA \<Rightarrow> done 0 env))"

definition GOTO_STATE ::
  "int \<Rightarrow> yaml_pack_env \<Rightarrow> yaml_pack_state
     \<Rightarrow> (int \<Rightarrow> yaml_pack_env \<Rightarrow> int \<times> yaml_pack_env) \<Rightarrow> int \<times> yaml_pack_env" where
  "GOTO_STATE res env st k = RETHROW_ADD res (yaml_pack_goto_state env st) k"

subsection \<open>Character classes and number formatting\<close>

text \<open>
  \<^verbatim>\<open>ctype_desc_t\<close> is a bitmap of 256 bits kept in eight 32-bit words, and
  \<^verbatim>\<open>ctype_desc_contains\<close> tests the bit of a byte (lib-common's \<^verbatim>\<open>str-ctype.h\<close>, which is
  not under src/; the tables themselves are in \<^verbatim>\<open>yaml.c\<close>).
  \<^verbatim>\<open>lstr_match_ctype\<close> holds when every byte of the string is in the class.
\<close>

type_synonym ctype_desc = "32 word list"

definition ctype_desc_contains :: "ctype_desc \<Rightarrow> char \<Rightarrow> bool" where
  "ctype_desc_contains d c = bit (d ! (of_char c div 32)) ((of_char c :: nat) mod 32)"

definition lstr_match_ctype :: "string \<Rightarrow> ctype_desc \<Rightarrow> bool" where
  "lstr_match_ctype s d = list_all (ctype_desc_contains d) s"

text \<open>\<^verbatim>\<open>ctype_isalnum\<close>: the ASCII letters and digits.\<close>

definition ctype_isalnum :: "char \<Rightarrow> bool" where
  "ctype_isalnum c =
     (let n = (of_char c :: nat) in (48 \<le> n \<and> n \<le> 57) \<or> (65 \<le> n \<and> n \<le> 90) \<or> (97 \<le> n \<and> n \<le> 122))"

text \<open>\<^verbatim>\<open>sprintf("%ju")\<close>, \<^verbatim>\<open>"%d"\<close> and \<^verbatim>\<open>"%jd"\<close>: decimal digits, with a sign for a negative number.\<close>

fun string_of_nat :: "nat \<Rightarrow> string" where
  "string_of_nat n =
     (if n < 10 then [char_of (48 + n)]
      else string_of_nat (n div 10) @ [char_of (48 + n mod 10)])"

declare string_of_nat.simps [simp del]

definition string_of_int :: "int \<Rightarrow> string" where
  "string_of_int i = (if i < 0 then CHR ''-'' # string_of_nat (nat (- i)) else string_of_nat (nat i))"

text \<open>\<^verbatim>\<open>sprintf("\\u%04x")\<close>: lower-case hexadecimal digits, padded with zeros to four.\<close>

definition hex_digit :: "nat \<Rightarrow> char" where
  "hex_digit n = (if n < 10 then char_of (48 + n) else char_of (87 + n))"

fun hex_of_nat :: "nat \<Rightarrow> string" where
  "hex_of_nat n =
     (if n < 16 then [hex_digit n] else hex_of_nat (n div 16) @ [hex_digit (n mod 16)])"

declare hex_of_nat.simps [simp del]

definition hex04 :: "nat \<Rightarrow> string" where
  "hex04 n = (let h = hex_of_nat n in replicate (4 - length h) CHR ''0'' @ h)"

text \<open>
  Modelled from the spec: \<^verbatim>\<open>ps_getuc\<close> (lib-common's \<^verbatim>\<open>str-stream.h\<close>, not under src/),
  which reads one UTF-8 code point from the stream; the specification only says that
  code points outside the safe ASCII range are written as \<^verbatim>\<open>\uNNNN\<close>. The result is the
  code point and the rest of the stream, \<open>None\<close> for a sequence that is not UTF-8 (the
  C function returns a negative number and \<^verbatim>\<open>yaml_pack_string\<close> then takes the
  byte as Latin-1).
\<close>

definition utf8_cont :: "char \<Rightarrow> bool" where
  "utf8_cont c = (128 \<le> (of_char c :: nat) \<and> (of_char c :: nat) < 192)"

fun ps_getuc :: "string \<Rightarrow> (nat \<times> string) option" where
  "ps_getuc [] = None"
| "ps_getuc (c # cs) =
     (let b = (of_char c :: nat) in
      if b < 128 then Some (b, cs)
      else if 192 \<le> b \<and> b < 224 then
        (case cs of
           c1 # r \<Rightarrow> if utf8_cont c1 then Some ((b - 192) * 64 + (of_char c1 - 128), r) else None
         | _ \<Rightarrow> None)
      else if 224 \<le> b \<and> b < 240 then
        (case cs of
           c1 # c2 # r \<Rightarrow>
             if utf8_cont c1 \<and> utf8_cont c2
             then Some ((b - 224) * 4096 + (of_char c1 - 128) * 64 + (of_char c2 - 128), r)
             else None
         | _ \<Rightarrow> None)
      else if 240 \<le> b \<and> b < 248 then
        (case cs of
           c1 # c2 # c3 # r \<Rightarrow>
             if utf8_cont c1 \<and> utf8_cont c2 \<and> utf8_cont c3
             then Some ((b - 240) * 262144 + (of_char c1 - 128) * 4096
                        + (of_char c2 - 128) * 64 + (of_char c3 - 128), r)
             else None
         | _ \<Rightarrow> None)
      else None)"

subsection \<open>Packing scalars\<close>

text \<open>The three bitmaps of \<^verbatim>\<open>yaml_string_must_be_quoted\<close> and \<^verbatim>\<open>yaml_pack_string\<close>.\<close>

definition yaml_invalid_raw_string_start :: ctype_desc where
  "yaml_invalid_raw_string_start =
     [0x00000000, 0x00006446, 0x08000000, 0x08000000,
      0x00000000, 0x00000000, 0x00000000, 0x00000000]"

definition yaml_raw_string_contains :: ctype_desc where
  "yaml_raw_string_contains =
     [0x00000000, 0xfbfffff7, 0xffffffff, 0xffffffff,
      0x00000000, 0x00000000, 0x00000000, 0x00000000]"

definition safe_chars :: ctype_desc where
  "safe_chars =
     [0x00000000, 0xfffffffb, 0xefffffff, 0xffffffff,
      0x00000000, 0x00000000, 0x00000000, 0x00000000]"

definition lstr_startswith :: "string \<Rightarrow> string \<Rightarrow> bool" where
  "lstr_startswith s p = (take (length p) s = p)"

definition lstr_endswith :: "string \<Rightarrow> string \<Rightarrow> bool" where
  "lstr_endswith s p = (length p \<le> length s \<and> drop (length s - length p) s = p)"

definition yaml_string_must_be_quoted :: "string \<Rightarrow> bool" where
  "yaml_string_must_be_quoted s =
     (if length s = 0 then True
      else if ctype_desc_contains yaml_invalid_raw_string_start (hd s) then True
      else if \<not> lstr_match_ctype s yaml_raw_string_contains then True
      else if lstr_startswith s '' '' \<or> lstr_endswith s '' '' then True
      else if s = ''~'' \<or> s = ''null'' then True
      else False)"

text \<open>
  The escape a character gets inside a quoted string: the \<^verbatim>\<open>switch\<close> of
  \<^verbatim>\<open>yaml_pack_string\<close> on the code point.
\<close>

definition yaml_escape_char :: "nat \<Rightarrow> string" where
  "yaml_escape_char c =
     (if c = 34 then [CHR 0x5C, CHR 0x22]
      else if c = 92 then [CHR 0x5C, CHR 0x5C]
      else if c = 7 then [CHR 0x5C, CHR ''a'']
      else if c = 8 then [CHR 0x5C, CHR ''b'']
      else if c = 27 then [CHR 0x5C, CHR ''e'']
      else if c = 12 then [CHR 0x5C, CHR ''f'']
      else if c = 10 then [CHR 0x5C, CHR ''n'']
      else if c = 13 then [CHR 0x5C, CHR ''r'']
      else if c = 9 then [CHR 0x5C, CHR ''t'']
      else if c = 11 then [CHR 0x5C, CHR ''v'']
      else [CHR 0x5C, CHR ''u''] @ hex04 c)"

lemma ps_getuc_shorter: "ps_getuc s = Some (c, r) \<Longrightarrow> length r < length s"
  by (cases s) (auto simp: Let_def split: if_splits list.splits)

text \<open>
  The loop of \<^verbatim>\<open>yaml_pack_string\<close> over the stream \<open>ps\<close>: the span of safe characters
  is written as it is, then one character is decoded and written escaped. \<open>k\<close> is the
  code after the loop.
\<close>

function yaml_pack_string_loop ::
  "int \<Rightarrow> yaml_pack_env \<Rightarrow> string \<Rightarrow> (int \<Rightarrow> yaml_pack_env \<Rightarrow> int \<times> yaml_pack_env)
     \<Rightarrow> int \<times> yaml_pack_env" where
  "yaml_pack_string_loop res env ps k =
     (if ps = [] then k res env
      else
        PUTS res env (takeWhile (ctype_desc_contains safe_chars) ps) (\<lambda>res env.
          if dropWhile (ctype_desc_contains safe_chars) ps = [] then k res env
          else
            PUTS res env
              (yaml_escape_char
                 (case ps_getuc (dropWhile (ctype_desc_contains safe_chars) ps) of
                    Some (c, rest) \<Rightarrow> c
                  | None \<Rightarrow> of_char (hd (dropWhile (ctype_desc_contains safe_chars) ps))))
              (\<lambda>res env.
                 yaml_pack_string_loop res env
                   (case ps_getuc (dropWhile (ctype_desc_contains safe_chars) ps) of
                      Some (c, rest) \<Rightarrow> rest
                    | None \<Rightarrow> tl (dropWhile (ctype_desc_contains safe_chars) ps))
                   k)))"
  by pat_completeness auto
termination
proof (relation "measure (\<lambda>(res, env, ps, k). length ps)")
  show "wf (measure (\<lambda>(res, env, ps, k). length ps))"
    by simp
next
  fix res :: int and env :: yaml_pack_env and ps :: string
    and k :: "int \<Rightarrow> yaml_pack_env \<Rightarrow> int \<times> yaml_pack_env"
    and x :: int and xa :: yaml_pack_env and xb :: int and xc :: yaml_pack_env
  assume ne: "dropWhile (ctype_desc_contains safe_chars) ps \<noteq> []"
  let ?d = "dropWhile (ctype_desc_contains safe_chars) ps"
  have le: "length ?d \<le> length ps"
    by (rule length_dropWhile_le)
  have "length (case ps_getuc ?d of Some (c, rest) \<Rightarrow> rest | None \<Rightarrow> tl ?d) < length ?d"
    using ne ps_getuc_shorter[of ?d] by (cases "ps_getuc ?d") auto
  with le show "((xb, xc, (case ps_getuc ?d of Some (c, rest) \<Rightarrow> rest | None \<Rightarrow> tl ?d), k),
                 (res, env, ps, k)) \<in> measure (\<lambda>(res, env, ps, k). length ps)"
    by simp
qed

declare yaml_pack_string_loop.simps [simp del]

definition yaml_pack_string :: "yaml_pack_env \<Rightarrow> string \<Rightarrow> int \<times> yaml_pack_env" where
  "yaml_pack_string env val =
     (if \<not> yaml_string_must_be_quoted val then PUTS 0 env val (\<lambda>res env. (res, env))
      else
        PUTS 0 env [CHR 0x22] (\<lambda>res env.
          yaml_pack_string_loop res env val (\<lambda>res env.
            PUTS res env [CHR 0x22] (\<lambda>res env. (res, env)))))"

text \<open>\<^verbatim>\<open>yaml_pack_scalar\<close>. The string case adds the result of \<^verbatim>\<open>yaml_pack_string\<close> without
  \<^verbatim>\<open>RETHROW\<close>; the other cases write with \<^verbatim>\<open>WRITE\<close>/\<^verbatim>\<open>PUTS\<close>.\<close>

definition yaml_pack_scalar ::
  "yaml_pack_env \<Rightarrow> yaml_scalar \<Rightarrow> string option \<Rightarrow> int \<times> yaml_pack_env" where
  "yaml_pack_scalar env scalar tg =
     (let done = (\<lambda>res env. (res, env\<lparr>state := PACK_STATE_AFTER_DATA\<rparr>)) in
      GOTO_STATE 0 env PACK_STATE_CLEAN (\<lambda>res env.
        case scalar of
          YAML_SCALAR_STRING s \<Rightarrow> ADD res (yaml_pack_string env s) done
        | YAML_SCALAR_DOUBLE d \<Rightarrow>
            (case d of
               DBL_INFINITY \<Rightarrow> PUTS res env ''.Inf'' done
             | DBL_NEG_INFINITY \<Rightarrow> PUTS res env ''-.Inf'' done
             | DBL_NAN \<Rightarrow> PUTS res env ''.NaN'' done
             | DBL_FINITE g \<Rightarrow> PUTS res env g done)
        | YAML_SCALAR_UINT u \<Rightarrow> PUTS res env (string_of_nat (unat u)) done
        | YAML_SCALAR_INT i \<Rightarrow> PUTS res env (string_of_int (sint i)) done
        | YAML_SCALAR_BOOL b \<Rightarrow> (if b then PUTS res env ''true'' done else PUTS res env ''false'' done)
        | YAML_SCALAR_NULL \<Rightarrow> PUTS res env ''~'' done))"

subsection \<open>Paths and presentation\<close>

text \<open>
  \<^verbatim>\<open>yaml_pack_env_push_path\<close> appends to the absolute path and returns its previous
  length, \<^verbatim>\<open>yaml_pack_env_pop_path\<close> clips it back; both do nothing without a
  presentation in the environment.
\<close>

definition yaml_pack_env_push_path :: "yaml_pack_env \<Rightarrow> string \<Rightarrow> nat \<times> yaml_pack_env" where
  "yaml_pack_env_push_path env s =
     (if pres env = None then (0, env)
      else (length (absolute_path env), env\<lparr>absolute_path := absolute_path env @ s\<rparr>))"

definition yaml_pack_env_pop_path :: "yaml_pack_env \<Rightarrow> nat \<Rightarrow> yaml_pack_env" where
  "yaml_pack_env_pop_path env prev_len =
     (if pres env = None then env
      else env\<lparr>absolute_path := take prev_len (absolute_path env)\<rparr>)"

definition yaml_pack_env_get_curpath :: "yaml_pack_env \<Rightarrow> string" where
  "yaml_pack_env_get_curpath env = drop (current_path_pos env) (absolute_path env)"

definition yaml_pack_env_get_pres_node :: "yaml_pack_env \<Rightarrow> yaml_presentation_node option" where
  "yaml_pack_env_get_pres_node env =
     (case pres env of None \<Rightarrow> None | Some nodes \<Rightarrow> nodes (yaml_pack_env_get_curpath env))"

fun put_empty_lines ::
  "int \<Rightarrow> yaml_pack_env \<Rightarrow> nat \<Rightarrow> (int \<Rightarrow> yaml_pack_env \<Rightarrow> int \<times> yaml_pack_env)
     \<Rightarrow> int \<times> yaml_pack_env" where
  "put_empty_lines res env 0 k = k res env"
| "put_empty_lines res env (Suc n) k = PUTS res env [NL] (\<lambda>res env. put_empty_lines res env n k)"

definition yaml_pack_empty_lines :: "yaml_pack_env \<Rightarrow> nat \<Rightarrow> int \<times> yaml_pack_env" where
  "yaml_pack_empty_lines env nb_lines =
     (if nb_lines = 0 then (0, env)
      else GOTO_STATE 0 env PACK_STATE_ON_NEWLINE (\<lambda>res env.
             put_empty_lines res env nb_lines (\<lambda>res env. (res, env))))"

text \<open>One comment line: \<^verbatim>\<open>GOTO_STATE(CLEAN)\<close>, \<^verbatim>\<open># \<close>, the comment, a newline.\<close>

definition put_comment ::
  "int \<Rightarrow> yaml_pack_env \<Rightarrow> string \<Rightarrow> (int \<Rightarrow> yaml_pack_env \<Rightarrow> int \<times> yaml_pack_env)
     \<Rightarrow> int \<times> yaml_pack_env" where
  "put_comment res env comment k =
     GOTO_STATE res env PACK_STATE_CLEAN (\<lambda>res env.
       PUTS res env ''# '' (\<lambda>res env.
         PUTS res env comment (\<lambda>res env.
           PUTS res env [NL] (\<lambda>res env.
             k res (env\<lparr>state := PACK_STATE_ON_NEWLINE\<rparr>)))))"

fun put_prefix_comments ::
  "int \<Rightarrow> yaml_pack_env \<Rightarrow> string list \<Rightarrow> (int \<Rightarrow> yaml_pack_env \<Rightarrow> int \<times> yaml_pack_env)
     \<Rightarrow> int \<times> yaml_pack_env" where
  "put_prefix_comments res env [] k = k res env"
| "put_prefix_comments res env (comment # cs) k =
     put_comment res env comment (\<lambda>res env. put_prefix_comments res env cs k)"

text \<open>
  \<^verbatim>\<open>yaml_pack_pres_node_prefix\<close>. The count of the empty lines is added without
  \<^verbatim>\<open>RETHROW\<close>, and the function returns \<^verbatim>\<open>0\<close> when the node has no prefix comment.
\<close>

definition yaml_pack_pres_node_prefix ::
  "yaml_pack_env \<Rightarrow> yaml_presentation_node option \<Rightarrow> int \<times> yaml_pack_env" where
  "yaml_pack_pres_node_prefix env node =
     (case node of
        None \<Rightarrow> (0, env)
      | Some n \<Rightarrow>
          ADD 0 (yaml_pack_empty_lines env (empty_lines n)) (\<lambda>res env.
            if length (prefix_comments n) = 0 then (0, env)
            else GOTO_STATE res env PACK_STATE_ON_NEWLINE (\<lambda>res env.
                   put_prefix_comments res env (prefix_comments n) (\<lambda>res env. (res, env)))))"

definition yaml_pack_pres_node_inline ::
  "yaml_pack_env \<Rightarrow> yaml_presentation_node option \<Rightarrow> int \<times> yaml_pack_env" where
  "yaml_pack_pres_node_inline env node =
     (case node of
        None \<Rightarrow> (0, env)
      | Some n \<Rightarrow>
          if length (inline_comment n) > 0
          then put_comment 0 env (inline_comment n) (\<lambda>res env. (res, env))
          else (0, env))"

definition yaml_pack_tag :: "yaml_pack_env \<Rightarrow> string option \<Rightarrow> int \<times> yaml_pack_env" where
  "yaml_pack_tag env tg =
     (case tg of
        None \<Rightarrow> (0, env)
      | Some t \<Rightarrow>
          GOTO_STATE 0 env PACK_STATE_CLEAN (\<lambda>res env.
            PUTS res env ''!'' (\<lambda>res env.
              PUTS res env t (\<lambda>res env.
                (res, env\<lparr>state := PACK_STATE_AFTER_DATA\<rparr>)))))"

subsection \<open>Variables deduced while packing\<close>

text \<open>
  \<^verbatim>\<open>t_apply_variable_value\<close> records the data as the value of an active variable, and
  fails when the variable is not active. \<^verbatim>\<open>t_deduce_variable_values\<close> accepts only a
  template that is exactly \<^verbatim>\<open>$name\<close>. Variables become active when an include that
  binds them is packed, so without includes the list is empty.
\<close>

definition t_apply_variable_value ::
  "yaml_pack_env \<Rightarrow> string \<Rightarrow> yaml_data \<Rightarrow> int \<times> yaml_pack_env" where
  "t_apply_variable_value env var_name data =
     (case map_of (active_vars env) var_name of
        None \<Rightarrow> (- 1, env)
      | Some v \<Rightarrow>
          (0, env\<lparr>active_vars :=
                   map (\<lambda>(n, d). if n = var_name then (n, Some data) else (n, d)) (active_vars env)\<rparr>))"

definition t_deduce_variable_values ::
  "yaml_pack_env \<Rightarrow> string \<Rightarrow> yaml_data \<Rightarrow> int \<times> yaml_pack_env" where
  "t_deduce_variable_values env var_string data =
     (case var_string of
        [] \<Rightarrow> (- 1, env)
      | c # ps \<Rightarrow>
          if c \<noteq> CHR ''$'' then (- 1, env)
          else if length (takeWhile ctype_isalnum ps) \<le> 0 \<or> dropWhile ctype_isalnum ps \<noteq> []
          then (- 1, env)
          else t_apply_variable_value env (takeWhile ctype_isalnum ps) data)"

subsection \<open>Flow packing\<close>

text \<open>
  The loops of \<^verbatim>\<open>yaml_pack_flow_seq\<close> and \<^verbatim>\<open>yaml_pack_flow_obj\<close> take the position
  \<open>pos\<close> of the next element and the code \<open>k\<close> that follows the loop.
\<close>

lemma size_kdata_less: "size (kdata kd) < size kd"
  by (cases kd) simp

lemma size_kdata_le: "size (kdata kd) \<le> size kd + n"
  using size_kdata_less[of kd] by simp

function (sequential) yaml_pack_flow_data :: "yaml_pack_env \<Rightarrow> yaml_data \<Rightarrow> bool \<Rightarrow> int \<times> yaml_pack_env"
and yaml_pack_flow_seq_loop ::
  "int \<Rightarrow> yaml_pack_env \<Rightarrow> yaml_data list \<Rightarrow> nat
     \<Rightarrow> (int \<Rightarrow> yaml_pack_env \<Rightarrow> int \<times> yaml_pack_env) \<Rightarrow> int \<times> yaml_pack_env"
and yaml_pack_flow_obj_loop ::
  "int \<Rightarrow> yaml_pack_env \<Rightarrow> yaml_key_data list \<Rightarrow> nat
     \<Rightarrow> (int \<Rightarrow> yaml_pack_env \<Rightarrow> int \<times> yaml_pack_env) \<Rightarrow> int \<times> yaml_pack_env"
where
  "yaml_pack_flow_data env (YAML_DATA v tg pr) can_omit_brackets =
     (let done = (\<lambda>res env. (res, env\<lparr>state := PACK_STATE_CLEAN\<rparr>)) in
      case v of
        YAML_DATA_SCALAR scalar \<Rightarrow> RETHROW_ADD 0 (yaml_pack_scalar env scalar None) done
      | YAML_DATA_SEQ ds ps \<Rightarrow>
          RETHROW_ADD 0
            (if length ds = 0 then PUTS 0 env ''[]'' (\<lambda>res env. (res, env))
             else PUTS 0 env ''[ '' (\<lambda>res env.
                    yaml_pack_flow_seq_loop res env ds 0 (\<lambda>res env.
                      PUTS res env '' ]'' (\<lambda>res env. (res, env)))))
            done
      | YAML_DATA_OBJ fs \<Rightarrow>
          RETHROW_ADD 0
            (if length fs = 0 then PUTS 0 env ''{}'' (\<lambda>res env. (res, env))
             else if \<not> (can_omit_brackets \<and> length fs = 1)
             then PUTS 0 env ''{ '' (\<lambda>res env.
                    yaml_pack_flow_obj_loop res env fs 0 (\<lambda>res env.
                      PUTS res env '' }'' (\<lambda>res env. (res, env))))
             else yaml_pack_flow_obj_loop 0 env fs 0 (\<lambda>res env. (res, env)))
            done)"
| "yaml_pack_flow_seq_loop res env [] pos k = k res env"
| "yaml_pack_flow_seq_loop res env (data # ds) pos k =
     (let body = (\<lambda>res env.
            RETHROW_ADD res (yaml_pack_flow_data env data True) (\<lambda>res env.
              yaml_pack_flow_seq_loop res env ds (pos + 1) k))
      in if pos > 0 then PUTS res env '', '' body else body res env)"
| "yaml_pack_flow_obj_loop res env [] pos k = k res env"
| "yaml_pack_flow_obj_loop res env (kd # fs) pos k =
     (let body = (\<lambda>res env.
            PUTS res env (key kd) (\<lambda>res env.
              PUTS res env '': '' (\<lambda>res env.
                RETHROW_ADD res (yaml_pack_flow_data env (kdata kd) False) (\<lambda>res env.
                  yaml_pack_flow_obj_loop res env fs (pos + 1) k))))
      in if pos > 0 then PUTS res env '', '' body else body res env)"
  by pat_completeness auto
termination
  by (relation "measure (\<lambda>x. case x of
         Inl (env, d, c) \<Rightarrow> size d
       | Inr (Inl (res, env, ds, pos, k)) \<Rightarrow> size_list size ds
       | Inr (Inr (res, env, fs, pos, k)) \<Rightarrow> size_list size fs)")
     (auto simp: size_kdata_le less_Suc_eq_le)

subsection \<open>Flow-mode eligibility\<close>

lemma size_kdata_mem [termination_simp]:
  "x \<in> set xs \<Longrightarrow> size (kdata x) < Suc (size_list size xs)"
proof -
  assume "x \<in> set xs"
  then have "size x \<le> size_list size xs"
    by (induction xs) auto
  then show ?thesis
    using size_kdata_less[of x] by simp
qed

fun yaml_data_contains_tags :: "yaml_data \<Rightarrow> bool" where
  "yaml_data_contains_tags (YAML_DATA v tg pr) =
     (if tg \<noteq> None then True
      else case v of
             YAML_DATA_SCALAR scalar \<Rightarrow> False
           | YAML_DATA_SEQ ds ps \<Rightarrow> list_ex yaml_data_contains_tags ds
           | YAML_DATA_OBJ fs \<Rightarrow> list_ex (\<lambda>kd. yaml_data_contains_tags (kdata kd)) fs)"

text \<open>
  \<^verbatim>\<open>yaml_env_data_can_use_flow_mode\<close>. The first test of the source,
  \<^verbatim>\<open>yaml_env_path_contains_overrides\<close>, looks at the overrides of the includes being packed;
  there is none without includes and the test is false.
\<close>

definition yaml_env_data_can_use_flow_mode :: "yaml_pack_env \<Rightarrow> yaml_data \<Rightarrow> bool" where
  "yaml_env_data_can_use_flow_mode env data = (\<not> yaml_data_contains_tags data)"

subsection \<open>Block packing\<close>

text \<open>
  The head of \<^verbatim>\<open>t_yaml_pack_data\<close>: the presentation node of the data, looked up at path
  \<^verbatim>\<open>!\<close> when the environment has a presentation and taken from the data otherwise.
\<close>

definition pack_data_get_node ::
  "yaml_pack_env \<Rightarrow> yaml_data \<Rightarrow> yaml_presentation_node option \<times> yaml_pack_env" where
  "pack_data_get_node env data =
     (if pres env \<noteq> None then
        (let pe = yaml_pack_env_push_path env ''!'' in
         (yaml_pack_env_get_pres_node (snd pe), yaml_pack_env_pop_path (snd pe) (fst pe)))
      else (presentation data, env))"

text \<open>
  Then the template of a value with variables: when the values of its variables can be
  deduced, the template is packed in place of the data, as a new string scalar.
\<close>

definition pack_data_template ::
  "yaml_pack_env \<Rightarrow> yaml_presentation_node option \<Rightarrow> yaml_data \<Rightarrow> yaml_data \<times> yaml_pack_env" where
  "pack_data_template env node data =
     (case node of
        None \<Rightarrow> (data, env)
      | Some n \<Rightarrow>
          (case value_with_variables n of
             None \<Rightarrow> (data, env)
           | Some var_string \<Rightarrow>
               (let r = t_deduce_variable_values env var_string data in
                if fst r \<ge> 0
                then (YAML_DATA (YAML_DATA_SCALAR (YAML_SCALAR_STRING var_string)) None None, snd r)
                else (data, snd r))))"

lemma pack_data_template_seq:
  "dvalue (fst (pack_data_template env node data)) = YAML_DATA_SEQ ds ps
   \<Longrightarrow> dvalue data = YAML_DATA_SEQ ds ps"
  by (auto simp: pack_data_template_def Let_def split: option.splits if_splits)

lemma pack_data_template_obj:
  "dvalue (fst (pack_data_template env node data)) = YAML_DATA_OBJ fs
   \<Longrightarrow> dvalue data = YAML_DATA_OBJ fs"
  by (auto simp: pack_data_template_def Let_def split: option.splits if_splits)

lemma size_dvalue_seq: "dvalue data = YAML_DATA_SEQ ds ps \<Longrightarrow> size_list size ds < size data"
  by (cases data) simp

lemma size_dvalue_obj: "dvalue data = YAML_DATA_OBJ fs \<Longrightarrow> size_list size fs < size data"
  by (cases data) simp

lemma size_template_seq:
  "dvalue (fst (pack_data_template env node data)) = YAML_DATA_SEQ ds ps
   \<Longrightarrow> Suc (2 * size_list size ds) < 2 * size data"
  using size_dvalue_seq[OF pack_data_template_seq] by fastforce

lemma size_template_obj:
  "dvalue (fst (pack_data_template env node data)) = YAML_DATA_OBJ fs
   \<Longrightarrow> Suc (2 * size_list size fs) < 2 * size data"
  using size_dvalue_obj[OF pack_data_template_obj] by fastforce

text \<open>
  The presentation node of element \<open>pos\<close> of a sequence, and of a key: looked up by
  path when the environment has a presentation, else the node kept in the AST
  (for a sequence only when \<^verbatim>\<open>pos < seq->pres_nodes.len\<close>). The first component is
  the path length to clip back to.
\<close>

definition pack_seq_get_node ::
  "yaml_pack_env \<Rightarrow> yaml_presentation_node option list \<Rightarrow> nat
     \<Rightarrow> nat \<times> yaml_presentation_node option \<times> yaml_pack_env" where
  "pack_seq_get_node env ps pos =
     (if pres env \<noteq> None then
        (let pe = yaml_pack_env_push_path env (''['' @ string_of_nat pos @ '']'') in
         (fst pe, yaml_pack_env_get_pres_node (snd pe), snd pe))
      else if pos < length ps then (0, ps ! pos, env)
      else (0, None, env))"

definition pack_key_get_node ::
  "yaml_pack_env \<Rightarrow> yaml_key_data \<Rightarrow> nat \<times> yaml_presentation_node option \<times> yaml_pack_env" where
  "pack_key_get_node env kd =
     (if pres env \<noteq> None then
        (let pe = yaml_pack_env_push_path env (''.'' @ key kd) in
         (fst pe, yaml_pack_env_get_pres_node (snd pe), snd pe))
      else (0, key_presentation kd, env))"

function (sequential)
    t_yaml_pack_data :: "yaml_pack_env \<Rightarrow> yaml_data \<Rightarrow> int \<times> yaml_pack_env"
and t_yaml_pack_seq ::
  "yaml_pack_env \<Rightarrow> yaml_data list \<Rightarrow> yaml_presentation_node option list \<Rightarrow> int \<times> yaml_pack_env"
and t_yaml_pack_seq_loop ::
  "int \<Rightarrow> yaml_pack_env \<Rightarrow> yaml_data list \<Rightarrow> yaml_presentation_node option list \<Rightarrow> nat
     \<Rightarrow> (int \<Rightarrow> yaml_pack_env \<Rightarrow> int \<times> yaml_pack_env) \<Rightarrow> int \<times> yaml_pack_env"
and t_yaml_pack_key_data :: "yaml_pack_env \<Rightarrow> yaml_key_data \<Rightarrow> int \<times> yaml_pack_env"
and yaml_pack_obj :: "yaml_pack_env \<Rightarrow> yaml_key_data list \<Rightarrow> int \<times> yaml_pack_env"
and yaml_pack_obj_loop ::
  "int \<Rightarrow> yaml_pack_env \<Rightarrow> yaml_key_data list
     \<Rightarrow> (int \<Rightarrow> yaml_pack_env \<Rightarrow> int \<times> yaml_pack_env) \<Rightarrow> int \<times> yaml_pack_env"
where
  "t_yaml_pack_data env0 data0 =
     (let node = fst (pack_data_get_node env0 data0);
          env1 = snd (pack_data_get_node env0 data0);
          data = fst (pack_data_template env1 node data0);
          env = snd (pack_data_template env1 node data0);
          inline = (\<lambda>res env.
            if node \<noteq> None then ADD res (yaml_pack_pres_node_inline env node) (\<lambda>res env. (res, env))
            else (res, env))
      in
      ADD 0 (yaml_pack_pres_node_prefix env node) (\<lambda>res env.
        ADD res (yaml_pack_tag env (tag data)) (\<lambda>res env.
          if node \<noteq> None \<and> flow_mode (the node) \<and> yaml_env_data_can_use_flow_mode env data
          then
            GOTO_STATE res env PACK_STATE_CLEAN (\<lambda>res env.
              ADD res (yaml_pack_flow_data env data False) (\<lambda>res env.
                inline res (env\<lparr>state := PACK_STATE_AFTER_DATA\<rparr>)))
          else
            (case dvalue data of
               YAML_DATA_SCALAR scalar \<Rightarrow>
                 RETHROW_ADD res (yaml_pack_scalar env scalar (tag data)) inline
             | YAML_DATA_SEQ ds ps \<Rightarrow> RETHROW_ADD res (t_yaml_pack_seq env ds ps) inline
             | YAML_DATA_OBJ fs \<Rightarrow> RETHROW_ADD res (yaml_pack_obj env fs) inline))))"
| "t_yaml_pack_seq env ds ps =
     (if length ds = 0 then
        GOTO_STATE 0 env PACK_STATE_CLEAN (\<lambda>res env.
          PUTS res env ''[]'' (\<lambda>res env. (res, env\<lparr>state := PACK_STATE_AFTER_DATA\<rparr>)))
      else t_yaml_pack_seq_loop 0 env ds ps 0 (\<lambda>res env. (res, env)))"
| "t_yaml_pack_seq_loop res env [] ps pos k = k res env"
| "t_yaml_pack_seq_loop res env0 (data # ds) ps pos k =
     (let path_len = fst (pack_seq_get_node env0 ps pos);
          node = fst (snd (pack_seq_get_node env0 ps pos));
          env = snd (snd (pack_seq_get_node env0 ps pos))
      in
      ADD res (yaml_pack_pres_node_prefix env node) (\<lambda>res env.
        GOTO_STATE res env PACK_STATE_ON_DASH (\<lambda>res env.
          PUTS res env ''-'' (\<lambda>res env.
            ADD res (yaml_pack_pres_node_inline
                       (env\<lparr>indent_lvl := indent_lvl env + YAML_STD_INDENT\<rparr>) node) (\<lambda>res env.
              RETHROW_ADD res (t_yaml_pack_data env data) (\<lambda>res env.
                t_yaml_pack_seq_loop res
                  (yaml_pack_env_pop_path
                     (env\<lparr>indent_lvl := indent_lvl env - YAML_STD_INDENT\<rparr>) path_len)
                  ds ps (pos + 1) k))))))"
| "t_yaml_pack_key_data env0 kd =
     (let path_len = fst (pack_key_get_node env0 kd);
          node = fst (snd (pack_key_get_node env0 kd));
          env = snd (snd (pack_key_get_node env0 kd))
      in
      ADD 0 (yaml_pack_pres_node_prefix env node) (\<lambda>res env.
        GOTO_STATE res env PACK_STATE_ON_KEY (\<lambda>res env.
          PUTS res env (key kd) (\<lambda>res env.
            PUTS res env '':'' (\<lambda>res env.
              ADD res (yaml_pack_pres_node_inline
                         (env\<lparr>indent_lvl := indent_lvl env + YAML_STD_INDENT\<rparr>) node) (\<lambda>res env.
                RETHROW_ADD res (t_yaml_pack_data env (kdata kd)) (\<lambda>res env.
                  (res, yaml_pack_env_pop_path
                          (env\<lparr>indent_lvl := indent_lvl env - YAML_STD_INDENT\<rparr>) path_len))))))))"
| "yaml_pack_obj env fs =
     (if length fs = 0 then
        GOTO_STATE 0 env PACK_STATE_CLEAN (\<lambda>res env.
          PUTS res env ''{}'' (\<lambda>res env. (res, env\<lparr>state := PACK_STATE_AFTER_DATA\<rparr>)))
      else yaml_pack_obj_loop 0 env fs (\<lambda>res env. (res, env)))"
| "yaml_pack_obj_loop res env [] k = k res env"
| "yaml_pack_obj_loop res env (pair # fs) k =
     RETHROW_ADD res (t_yaml_pack_key_data env pair) (\<lambda>res env.
       yaml_pack_obj_loop res env fs k)"
  by pat_completeness auto
termination
  by (relation "measure (\<lambda>x. case x of
         Inl (Inl (env, d)) \<Rightarrow> 2 * size d
       | Inl (Inr (Inl (env, ds, ps))) \<Rightarrow> 2 * size_list size ds + 1
       | Inl (Inr (Inr (res, env, ds, ps, pos, k))) \<Rightarrow> 2 * size_list size ds
       | Inr (Inl (env, kd)) \<Rightarrow> 2 * size kd
       | Inr (Inr (Inl (env, fs))) \<Rightarrow> 2 * size_list size fs + 1
       | Inr (Inr (Inr (res, env, fs, k))) \<Rightarrow> 2 * size_list size fs)")
     (auto simp: size_kdata_less size_template_seq size_template_obj)

declare t_yaml_pack_data.simps [simp del]
declare t_yaml_pack_seq.simps [simp del]
declare t_yaml_pack_key_data.simps [simp del]
declare yaml_pack_obj.simps [simp del]

subsection \<open>Public packing entry points\<close>

text \<open>
  \<^verbatim>\<open>t_yaml_pack\<close>: the callback and its private data are stored in the environment and
  the data is packed; a negative result copies the error of the environment into the
  caller's buffer \<open>err\<close>, when the caller gave one. The result is the integer returned,
  the environment (whose \<open>priv\<close> is what the callback received) and the caller's buffer.
\<close>

definition t_yaml_pack ::
  "yaml_pack_env \<Rightarrow> yaml_data \<Rightarrow> yaml_pack_writecb \<Rightarrow> string \<Rightarrow> string option
     \<Rightarrow> int \<times> yaml_pack_env \<times> string option" where
  "t_yaml_pack env data writecb prv out_err =
     (let r = t_yaml_pack_data (env\<lparr>write_cb := writecb, priv := prv\<rparr>) data in
      (fst r, snd r,
       if fst r < 0 \<and> out_err \<noteq> None then Some (err (snd r)) else out_err))"

definition t_yaml_pack_sb ::
  "yaml_pack_env \<Rightarrow> yaml_data \<Rightarrow> string \<Rightarrow> string option
     \<Rightarrow> int \<times> yaml_pack_env \<times> string option" where
  "t_yaml_pack_sb env data sb out_err = t_yaml_pack env data sb_write sb out_err"

text \<open>
  The file system of \<^verbatim>\<open>t_yaml_pack_file\<close>. \<^verbatim>\<open>mkdir_p\<close>, \<^verbatim>\<open>path_dirname\<close>,
  \<^verbatim>\<open>path_canonify\<close>, \<^verbatim>\<open>file_open\<close>, \<^verbatim>\<open>file_write\<close> and \<^verbatim>\<open>file_close\<close> belong to lib-common's
  \<^verbatim>\<open>unix.h\<close> and \<^verbatim>\<open>file.h\<close>, which are not under src/: they are parameters. A file is the
  byte string written to it so far (it is opened with \<^verbatim>\<open>FILE_TRUNC\<close>); a write returns
  the new contents, or \<open>None\<close> when it fails. \<open>fs_strerror\<close> is the text that the
  conversion \<^verbatim>\<open>%m\<close> of \<^verbatim>\<open>sb_setf\<close> prints (the message of \<^verbatim>\<open>errno\<close>) after the named call
  has failed.
\<close>

record yaml_file_sys =
  fs_mkdir_p :: "string \<Rightarrow> bool"
  fs_dirname :: "string \<Rightarrow> string"
  fs_canonify :: "string \<Rightarrow> string option"
  fs_open :: "string \<Rightarrow> bool"
  fs_write :: "string \<Rightarrow> string \<Rightarrow> string option"
  fs_close :: "string \<Rightarrow> bool"
  fs_strerror :: "string \<Rightarrow> string"

text \<open>
  \<^verbatim>\<open>t_yaml_pack_env_set_outdir\<close>. The first message is set with \<^verbatim>\<open>sb_sets\<close>, which copies
  its argument as it is: the conversion \<^verbatim>\<open>%m\<close> stays in the message.
\<close>

definition t_yaml_pack_env_set_outdir ::
  "yaml_file_sys \<Rightarrow> yaml_pack_env \<Rightarrow> string \<Rightarrow> string \<Rightarrow> int \<times> yaml_pack_env \<times> string" where
  "t_yaml_pack_env_set_outdir fs env dirpath out_err =
     (if \<not> fs_mkdir_p fs dirpath
      then (- 1, env, ''could not create output directory: %m'')
      else case fs_canonify fs dirpath of
             None \<Rightarrow> (- 1, env, ''cannot compute path to output directory `'' @ dirpath
                                  @ ''`: '' @ fs_strerror fs ''path_canonify'')
           | Some canonical_path \<Rightarrow> (0, env\<lparr>outdirpath := canonical_path\<rparr>, out_err))"

definition iop_ypack_write_file :: "yaml_file_sys \<Rightarrow> yaml_pack_writecb" where
  "iop_ypack_write_file fs file buf =
     (case fs_write fs file buf of
        None \<Rightarrow> Inl (''cannot write in output file: '' @ fs_strerror fs ''file_write'')
      | Some file' \<Rightarrow> Inr file')"

text \<open>
  \<^verbatim>\<open>t_yaml_pack_file\<close>. The last component of the result is the contents of the output
  file when it was opened. The result of the final \<^verbatim>\<open>file_puts\<close> is ignored by the source.
\<close>

definition t_yaml_pack_file ::
  "yaml_file_sys \<Rightarrow> yaml_pack_env \<Rightarrow> string \<Rightarrow> yaml_data \<Rightarrow> string
     \<Rightarrow> int \<times> yaml_pack_env \<times> string \<times> string option" where
  "t_yaml_pack_file fs env0 filename0 data out_err0 =
     (let filename = (if length (outdirpath env0) > 0 then outdirpath env0 @ ''/'' @ filename0
                      else filename0);
          sd = t_yaml_pack_env_set_outdir fs env0 (fs_dirname fs filename) out_err0
      in
      if fst sd < 0 then (fst sd, fst (snd sd), snd (snd sd), None)
      else
        (let env = fst (snd sd); out_err = snd (snd sd) in
         if \<not> fs_open fs filename then
           (- 1, env, ''cannot open output file `'' @ filename @ ''`: ''
                      @ fs_strerror fs ''file_open'', None)
         else
           (let r = t_yaml_pack env data (iop_ypack_write_file fs) [] (Some out_err);
                res = fst r; env' = fst (snd r); out_err' = the (snd (snd r));
                file = priv env'
            in
            if res < 0 then (res, env', out_err', Some file)
            else
              (let file' = (if state env' \<noteq> PACK_STATE_ON_NEWLINE
                            then (case fs_write fs file [NL] of None \<Rightarrow> file | Some f \<Rightarrow> f)
                            else file)
               in
               if \<not> fs_close fs file' then
                 (- 1, env', ''cannot close output file `'' @ filename @ ''`: ''
                             @ fs_strerror fs ''file_close'', Some file')
               else (0, env', out_err', Some file')))))"

subsection \<open>The transition table of the specification\<close>

text \<open>
  The table of section 4.8 of the specification, written from its words: what is
  emitted when the packer goes from one state to another.
\<close>

datatype spec_emit = EMIT_NOTHING | EMIT_SPACE | EMIT_NEWLINE | EMIT_NEWLINE_INDENT | EMIT_INDENT

fun spec_transition :: "yaml_pack_state \<Rightarrow> yaml_pack_state \<Rightarrow> spec_emit" where
  "spec_transition PACK_STATE_CLEAN PACK_STATE_ON_NEWLINE = EMIT_NEWLINE"
| "spec_transition PACK_STATE_CLEAN _ = EMIT_NOTHING"
| "spec_transition PACK_STATE_ON_DASH PACK_STATE_CLEAN = EMIT_SPACE"
| "spec_transition PACK_STATE_ON_DASH PACK_STATE_ON_DASH = EMIT_SPACE"
| "spec_transition PACK_STATE_ON_DASH PACK_STATE_ON_KEY = EMIT_SPACE"
| "spec_transition PACK_STATE_ON_DASH PACK_STATE_ON_NEWLINE = EMIT_NEWLINE"
| "spec_transition PACK_STATE_ON_DASH PACK_STATE_AFTER_DATA = EMIT_NOTHING"
| "spec_transition PACK_STATE_ON_KEY PACK_STATE_CLEAN = EMIT_SPACE"
| "spec_transition PACK_STATE_ON_KEY PACK_STATE_ON_DASH = EMIT_NEWLINE_INDENT"
| "spec_transition PACK_STATE_ON_KEY PACK_STATE_ON_KEY = EMIT_NEWLINE_INDENT"
| "spec_transition PACK_STATE_ON_KEY PACK_STATE_ON_NEWLINE = EMIT_NEWLINE"
| "spec_transition PACK_STATE_ON_KEY PACK_STATE_AFTER_DATA = EMIT_NOTHING"
| "spec_transition PACK_STATE_ON_NEWLINE PACK_STATE_CLEAN = EMIT_INDENT"
| "spec_transition PACK_STATE_ON_NEWLINE PACK_STATE_ON_DASH = EMIT_INDENT"
| "spec_transition PACK_STATE_ON_NEWLINE PACK_STATE_ON_KEY = EMIT_INDENT"
| "spec_transition PACK_STATE_ON_NEWLINE _ = EMIT_NOTHING"
| "spec_transition PACK_STATE_AFTER_DATA PACK_STATE_CLEAN = EMIT_SPACE"
| "spec_transition PACK_STATE_AFTER_DATA PACK_STATE_ON_DASH = EMIT_NEWLINE_INDENT"
| "spec_transition PACK_STATE_AFTER_DATA PACK_STATE_ON_KEY = EMIT_NEWLINE_INDENT"
| "spec_transition PACK_STATE_AFTER_DATA PACK_STATE_ON_NEWLINE = EMIT_NEWLINE"
| "spec_transition PACK_STATE_AFTER_DATA PACK_STATE_AFTER_DATA = EMIT_NOTHING"

text \<open>The bytes of an emission, at logical level \<open>lvl\<close>: the indent is \<open>lvl\<close> times 2 spaces.\<close>

fun spec_emit_bytes :: "nat \<Rightarrow> spec_emit \<Rightarrow> string" where
  "spec_emit_bytes lvl EMIT_NOTHING = []"
| "spec_emit_bytes lvl EMIT_SPACE = [SPC]"
| "spec_emit_bytes lvl EMIT_NEWLINE = [NL]"
| "spec_emit_bytes lvl EMIT_NEWLINE_INDENT = NL # replicate (lvl * 2) SPC"
| "spec_emit_bytes lvl EMIT_INDENT = replicate (lvl * 2) SPC"

subsection \<open>The quoting rule of the specification\<close>

text \<open>
  Section 4.3 of the specification, written from its words: a scalar string must be
  quoted if it is empty, starts with one of \<^verbatim>\<open>! & * - " { [ # .\<close>, contains \<^verbatim>\<open>:\<close> or
  \<^verbatim>\<open>#\<close> or a non-printable byte, starts or ends with a space, or equals \<^verbatim>\<open>~\<close> or
  \<^verbatim>\<open>null\<close>. The printable bytes are those of ASCII, \<^verbatim>\<open>0x20\<close> to \<^verbatim>\<open>0x7e\<close>.
\<close>

definition spec_printable :: "char \<Rightarrow> bool" where
  "spec_printable c = (32 \<le> (of_char c :: nat) \<and> (of_char c :: nat) \<le> 126)"

definition spec_quote_start :: "char list" where
  "spec_quote_start =
     [CHR ''!'', CHR ''&'', CHR ''*'', CHR ''-'', CHR 0x22, CHR ''{'', CHR ''['', CHR ''#'',
      CHR ''.'']"

definition spec_must_be_quoted :: "string \<Rightarrow> bool" where
  "spec_must_be_quoted s =
     (s = []
      \<or> (s \<noteq> [] \<and> hd s \<in> set spec_quote_start)
      \<or> list_ex (\<lambda>c. c = CHR '':'' \<or> c = CHR ''#'' \<or> \<not> spec_printable c) s
      \<or> (s \<noteq> [] \<and> (hd s = SPC \<or> last s = SPC))
      \<or> s = ''~'' \<or> s = ''null'')"

section \<open>The parser\<close>

text \<open>
  The parser is modelled as the tests of \<^verbatim>\<open>yaml.c\<close> run it: on a stream attached with
  \<^verbatim>\<open>yaml_parse_attach_ps\<close>, in an environment made by \<^verbatim>\<open>t_yaml_parse_new\<close> without the
  flag \<^verbatim>\<open>YAML_PARSE_GEN_PRES_DATA\<close>. Then \<^verbatim>\<open>env->pres\<close> is \<^verbatim>\<open>NULL\<close>, every presentation
  helper returns at its first test and the presentation fields of the tree stay
  \<^verbatim>\<open>NULL\<close>; the environment has no file path and is not included from another one. A
  function that returns \<^verbatim>\<open>int\<close> returns a \<open>parse_res\<close>: \<open>Failed\<close> for \<open>-1\<close>, \<open>Parsed\<close> for
  \<open>0\<close>, each with the environment it leaves; the recursive functions take a bound on the
  depth of their calls and return \<open>OutOfFuel\<close> when it is exhausted.

  An inclusion with the tag \<^verbatim>\<open>include\<close> parses the file in an environment of its own, which
  has the flag \<^verbatim>\<open>YAML_PARSE_GEN_PRES_DATA\<close>: the presentation nodes and the occurrences of the
  variables that it builds are pointers into the tree under construction, and they are
  not modelled. Where the C parser goes on with the tree of a parsed file, the model
  returns \<open>NotModelled\<close> and says nothing; everything before this point (the errors of an
  inclusion, and the whole of a raw inclusion, tag \<^verbatim>\<open>includeraw\<close>) is modelled.
\<close>

subsection \<open>Positions, spans and the environment\<close>

record yaml_pos =
  line_nb :: nat
  col_nb :: nat
  pos_s :: nat

record yaml_span =
  span_start :: yaml_pos
  span_end :: yaml_pos

text \<open>
  \<^verbatim>\<open>yaml_parse_t\<close>. The stream \<^verbatim>\<open>ps\<close> is the attached string \<open>ps_input\<close> and the offset
  \<open>ps_s\<close> of \<^verbatim>\<open>ps.s\<close> in it; \<^verbatim>\<open>pos_newline\<close> is an offset too. Of the flags only
  \<^verbatim>\<open>YAML_PARSE_ALLOW_UNBOUND_VARIABLES\<close> is kept. \<open>variables\<close> holds the names of the
  variables met (the keys of the \<^verbatim>\<open>qm\<close>); the occurrences, which are pointers into the
  tree, are only read when the variables of a parsed file are bound.
\<close>

record yaml_parse =
  ps_input :: string
  ps_s :: nat
  line_number :: nat
  pos_newline :: nat
  parse_err :: string
  allow_unbound_variables :: bool
  variables :: "string list"

datatype 'a parse_res = Failed yaml_parse | Parsed yaml_parse 'a | OutOfFuel | NotModelled

text \<open>The macro \<^verbatim>\<open>RETHROW\<close>: a negative result is returned at once.\<close>

definition RETHROW :: "'a parse_res \<Rightarrow> (yaml_parse \<Rightarrow> 'a \<Rightarrow> 'b parse_res) \<Rightarrow> 'b parse_res" where
  "RETHROW r k = (case r of Failed env \<Rightarrow> Failed env | Parsed env v \<Rightarrow> k env v
                  | OutOfFuel \<Rightarrow> OutOfFuel | NotModelled \<Rightarrow> NotModelled)"

definition t_yaml_parse_new :: "bool \<Rightarrow> yaml_parse" where
  "t_yaml_parse_new allow_unbound =
     \<lparr> ps_input = [], ps_s = 0, line_number = 0, pos_newline = 0, parse_err = [],
       allow_unbound_variables = allow_unbound, variables = [] \<rparr>"

definition yaml_parse_attach_ps :: "yaml_parse \<Rightarrow> string \<Rightarrow> yaml_parse" where
  "yaml_parse_attach_ps env ps = env\<lparr>ps_input := ps, ps_s := 0, pos_newline := 0, line_number := 1\<rparr>"

text \<open>
  The stream helpers of lib-common's \<^verbatim>\<open>str-stream.h\<close> (not under src/): \<^verbatim>\<open>ps_done\<close>,
  \<^verbatim>\<open>ps_peekc\<close> and \<^verbatim>\<open>ps_getc\<close>, which give \<^verbatim>\<open>EOF\<close> (here \<open>None\<close>) at the end of the stream,
  the second without moving.
\<close>

definition ps_rest :: "yaml_parse \<Rightarrow> string" where
  "ps_rest env = drop (ps_s env) (ps_input env)"

definition ps_done :: "yaml_parse \<Rightarrow> bool" where
  "ps_done env = (ps_rest env = [])"

definition ps_peekc :: "yaml_parse \<Rightarrow> char option" where
  "ps_peekc env = (case ps_rest env of [] \<Rightarrow> None | c # cs \<Rightarrow> Some c)"

definition ps_skip :: "yaml_parse \<Rightarrow> nat \<Rightarrow> yaml_parse" where
  "ps_skip env n = env\<lparr>ps_s := ps_s env + n\<rparr>"

definition yaml_env_skipc :: "yaml_parse \<Rightarrow> yaml_parse" where
  "yaml_env_skipc env = (if ps_done env then env else ps_skip env 1)"

definition yaml_env_get_column_nb :: "yaml_parse \<Rightarrow> nat" where
  "yaml_env_get_column_nb env = ps_s env - pos_newline env + 1"

definition yaml_env_get_pos :: "yaml_parse \<Rightarrow> yaml_pos" where
  "yaml_env_get_pos env =
     \<lparr> line_nb = line_number env, col_nb = yaml_env_get_column_nb env, pos_s = ps_s env \<rparr>"

text \<open>The classes of \<^verbatim>\<open>ctype.h\<close> in the C locale.\<close>

definition c_isspace :: "char \<Rightarrow> bool" where
  "c_isspace c = (let n = (of_char c :: nat) in n = 32 \<or> (9 \<le> n \<and> n \<le> 13))"

definition c_isalpha :: "char \<Rightarrow> bool" where
  "c_isalpha c = (let n = (of_char c :: nat) in (65 \<le> n \<and> n \<le> 90) \<or> (97 \<le> n \<and> n \<le> 122))"

subsection \<open>Errors\<close>

datatype yaml_error =
    YAML_ERR_BAD_KEY
  | YAML_ERR_BAD_STRING
  | YAML_ERR_MISSING_DATA
  | YAML_ERR_WRONG_DATA
  | YAML_ERR_WRONG_INDENT
  | YAML_ERR_WRONG_OBJECT
  | YAML_ERR_TAB_CHARACTER
  | YAML_ERR_INVALID_TAG
  | YAML_ERR_EXTRA_DATA
  | YAML_ERR_INVALID_INCLUDE
  | YAML_ERR_INVALID_OVERRIDE

fun yaml_error_prefix :: "yaml_error \<Rightarrow> string" where
  "yaml_error_prefix YAML_ERR_BAD_KEY = ''invalid key, ''"
| "yaml_error_prefix YAML_ERR_BAD_STRING = ''expected string, ''"
| "yaml_error_prefix YAML_ERR_MISSING_DATA = ''missing data, ''"
| "yaml_error_prefix YAML_ERR_WRONG_DATA = ''wrong type of data, ''"
| "yaml_error_prefix YAML_ERR_WRONG_INDENT = ''wrong indentation, ''"
| "yaml_error_prefix YAML_ERR_WRONG_OBJECT = ''wrong object, ''"
| "yaml_error_prefix YAML_ERR_TAB_CHARACTER = ''tab character detected, ''"
| "yaml_error_prefix YAML_ERR_INVALID_TAG = ''invalid tag, ''"
| "yaml_error_prefix YAML_ERR_EXTRA_DATA = ''extra characters after data, ''"
| "yaml_error_prefix YAML_ERR_INVALID_INCLUDE = ''invalid include, ''"
| "yaml_error_prefix YAML_ERR_INVALID_OVERRIDE = ''cannot change types of data in override, ''"

text \<open>
  \<^verbatim>\<open>yaml_parse_pretty_print_err\<close>, for a span of a stream that is not included from a
  file: the position and the message, the line of the span and a cursor under it. The
  macro \<^verbatim>\<open>YAML_POS_FMT\<close> belongs to \<^verbatim>\<open>yaml.h\<close>, which is not under src/; it prints
  \<^verbatim>\<open>line:col\<close>, as the expected messages of the tests show.
\<close>

definition yaml_parse_pretty_print_err :: "string \<Rightarrow> yaml_span \<Rightarrow> string \<Rightarrow> string \<Rightarrow> string" where
  "yaml_parse_pretty_print_err inp span error_msg out =
     (let start = span_start span;
          out1 = out @ ''<string>:'' @ string_of_nat (line_nb start) @ '':''
                   @ string_of_nat (col_nb start) @ '': '' @ error_msg;
          one_liner = (line_nb (span_end span) = line_nb start);
          b = pos_s start - (col_nb start - 1);
          e0 = (if one_liner then pos_s (span_end span) - 1 else b);
          e = e0 + length (takeWhile (\<lambda>c. c \<noteq> NL) (drop e0 inp))
      in if e \<le> b then out1
         else out1 @ [NL] @ take (e - b) (drop b inp) @ [NL]
              @ (if col_nb start > 1 then replicate (col_nb start - 1) SPC else [])
              @ (if one_liner then replicate (col_nb (span_end span) - col_nb start) CHR ''^''
                 else ''^ starting here''))"

text \<open>
  \<^verbatim>\<open>yaml_env_set_err_at\<close> and \<^verbatim>\<open>yaml_env_set_err\<close> print the error into the buffer of the
  environment and return \<open>-1\<close>; \<open>yaml_env_err_at\<close> and \<open>yaml_env_err\<close> are the
  environments they leave. The span of \<^verbatim>\<open>yaml_env_set_err\<close> is the character at the current
  position.
\<close>

definition yaml_env_err_at :: "yaml_parse \<Rightarrow> yaml_span \<Rightarrow> yaml_error \<Rightarrow> string \<Rightarrow> yaml_parse" where
  "yaml_env_err_at env span type msg =
     env\<lparr>parse_err := yaml_parse_pretty_print_err (ps_input env) span
                         (yaml_error_prefix type @ msg) (parse_err env)\<rparr>"

definition yaml_env_err :: "yaml_parse \<Rightarrow> yaml_error \<Rightarrow> string \<Rightarrow> yaml_parse" where
  "yaml_env_err env type msg =
     (let start = yaml_env_get_pos env;
          end_pos = start\<lparr>col_nb := col_nb start + 1, pos_s := pos_s start + 1\<rparr>
      in yaml_env_err_at env \<lparr>span_start = start, span_end = end_pos\<rparr> type msg)"

definition yaml_env_set_err_at ::
  "yaml_parse \<Rightarrow> yaml_span \<Rightarrow> yaml_error \<Rightarrow> string \<Rightarrow> 'a parse_res" where
  "yaml_env_set_err_at env span type msg = Failed (yaml_env_err_at env span type msg)"

definition yaml_env_set_err :: "yaml_parse \<Rightarrow> yaml_error \<Rightarrow> string \<Rightarrow> 'a parse_res" where
  "yaml_env_set_err env type msg = Failed (yaml_env_err env type msg)"

subsection \<open>White space, keys and scalars\<close>

text \<open>
  \<^verbatim>\<open>yaml_env_ltrim\<close>: the loop over the white space and the comments. The first argument
  of the loop is the rest of the stream; the comments themselves are only kept for the
  presentation.
\<close>

fun yaml_env_ltrim_loop :: "string \<Rightarrow> bool \<Rightarrow> yaml_parse \<Rightarrow> unit parse_res" where
  "yaml_env_ltrim_loop [] in_comment env = Parsed env ()"
| "yaml_env_ltrim_loop (c # cs) in_comment env =
     (if c = CHR ''#'' then yaml_env_ltrim_loop cs True (yaml_env_skipc env)
      else if c = NL then
        yaml_env_ltrim_loop cs False
          (yaml_env_skipc (env\<lparr>line_number := line_number env + 1,
                               pos_newline := ps_s env + 1\<rparr>))
      else if c = TAB then
        yaml_env_set_err env YAML_ERR_TAB_CHARACTER
          ''cannot use tab characters for indentation''
      else if \<not> c_isspace c \<and> \<not> in_comment then Parsed env ()
      else yaml_env_ltrim_loop cs in_comment (yaml_env_skipc env))"

definition yaml_env_ltrim :: "yaml_parse \<Rightarrow> unit parse_res" where
  "yaml_env_ltrim env = yaml_env_ltrim_loop (ps_rest env) False env"

definition ps_startswith_yaml_seq_prefix :: "string \<Rightarrow> bool" where
  "ps_startswith_yaml_seq_prefix ps =
     (case ps of c1 # c2 # cs \<Rightarrow> c1 = CHR ''-'' \<and> c_isspace c2 | _ \<Rightarrow> False)"

definition ps_startswith_yaml_key :: "string \<Rightarrow> bool \<Rightarrow> bool" where
  "ps_startswith_yaml_key ps0 must_be_variable =
     (let is_var = (case ps0 of c # cs \<Rightarrow> c = CHR ''$'' | [] \<Rightarrow> False);
          ps = (if is_var then tl ps0 else ps0);
          key = takeWhile ctype_isalnum ps;
          ps' = drop (length key) ps
      in if \<not> is_var \<and> must_be_variable then False
         else if length key = 0 \<or> length ps' = 0 then False
         else hd ps' = CHR '':'' \<and> (length ps' = 1 \<or> c_isspace (ps' ! 1)))"

text \<open>
  \<^verbatim>\<open>yaml_env_parse_key\<close>, without its presentation node. \<^verbatim>\<open>ps_getc\<close> moves past the
  character it reads, so that the error of a missing colon is one column further,
  unless the stream is at its end.
\<close>

definition yaml_env_parse_key :: "yaml_parse \<Rightarrow> (string \<times> yaml_span) parse_res" where
  "yaml_env_parse_key env0 =
     (let key_pos_start = yaml_env_get_pos env0 in
      RETHROW (yaml_env_ltrim env0) (\<lambda>env u.
        let rest = ps_rest env;
            env1 = (if ps_peekc env = Some CHR ''$'' then ps_skip env 1 else env);
            env2 = ps_skip env1 (length (takeWhile ctype_isalnum (ps_rest env1)));
            ps_key = take (ps_s env2 - ps_s env) rest;
            key_span = \<lparr>span_start = key_pos_start, span_end = yaml_env_get_pos env2\<rparr>
        in if length ps_key = 0 then
             yaml_env_set_err env2 YAML_ERR_BAD_KEY ''only alpha-numeric characters allowed''
           else if ps_peekc env2 \<noteq> Some CHR '':'' then
             yaml_env_set_err (yaml_env_skipc env2) YAML_ERR_BAD_KEY ''missing colon''
           else Parsed (yaml_env_skipc env2) (ps_key, key_span)))"

text \<open>
  The tables of \<^verbatim>\<open>yaml_env_get_scalar_ps\<close>: a raw scalar ends at a newline or a \<^verbatim>\<open>#\<close>, and
  in a flow context also at one of \<^verbatim>\<open>{ [ } ] ,\<close>; it is then trimmed on the right.
\<close>

definition ctype_scalarend :: ctype_desc where
  "ctype_scalarend = [0x00000400, 0x00000008, 0x00000000, 0x00000000,
                      0x00000000, 0x00000000, 0x00000000, 0x00000000]"

definition ctype_scalarflowend :: ctype_desc where
  "ctype_scalarflowend = [0x00000400, 0x00001008, 0x28000000, 0x28000000,
                          0x00000000, 0x00000000, 0x00000000, 0x00000000]"

definition ps_rtrim :: "string \<Rightarrow> string" where
  "ps_rtrim ps = rev (dropWhile c_isspace (rev ps))"

definition yaml_env_get_scalar_ps :: "yaml_parse \<Rightarrow> bool \<Rightarrow> string \<times> yaml_parse" where
  "yaml_env_get_scalar_ps env in_flow =
     (let ctype = (if in_flow then ctype_scalarflowend else ctype_scalarend);
          scalar = ps_rtrim (takeWhile (\<lambda>c. \<not> ctype_desc_contains ctype c) (ps_rest env))
      in (scalar, ps_skip env (length scalar)))"

text \<open>
  What \<^verbatim>\<open>yaml.c\<close> takes from the rest of lib-common, which is not under src/, as
  parameters of the parser: \<^verbatim>\<open>parse_quoted_string\<close>, which reads a string up to its
  closing quote (the text, and the number of bytes read), the three number parsers
  \<^verbatim>\<open>lstr_to_int64\<close>, \<^verbatim>\<open>lstr_to_uint64\<close> and \<^verbatim>\<open>lstr_to_double\<close>, the path functions
  \<^verbatim>\<open>path_dirname\<close>, \<^verbatim>\<open>path_extend\<close> (of a directory and a file), \<^verbatim>\<open>path_simplify\<close> and
  \<^verbatim>\<open>path_relative_to\<close>, \<^verbatim>\<open>lstr_init_from_file\<close>, which gives the contents of a file or fails,
  and the text that the conversion \<^verbatim>\<open>%m\<close> prints after it has failed.
\<close>

datatype parse_str_res = PARSE_STR_OK string nat | PARSE_STR_ERR_UNCLOSED | PARSE_STR_ERR_EXP_SMTH

record yaml_lib =
  parse_quoted_string :: "string \<Rightarrow> parse_str_res"
  lstr_to_int64 :: "string \<Rightarrow> 64 word option"
  lstr_to_uint64 :: "string \<Rightarrow> 64 word option"
  lstr_to_double :: "string \<Rightarrow> yaml_double option"
  path_dirname :: "string \<Rightarrow> string"
  path_extend :: "string \<Rightarrow> string \<Rightarrow> string"
  path_simplify :: "string \<Rightarrow> string"
  path_relative_to :: "string \<Rightarrow> string \<Rightarrow> string"
  lstr_init_from_file :: "string \<Rightarrow> string option"
  file_strerror :: "string \<Rightarrow> string"

text \<open>
  \<^verbatim>\<open>t_yaml_env_add_variables\<close>: the names that follow a \<^verbatim>\<open>$\<close> in a string are added to the
  variables of the environment.
\<close>

function variables_found :: "string \<Rightarrow> string list" where
  "variables_found ps =
     (case dropWhile (\<lambda>c. c \<noteq> CHR ''$'') ps of
        [] \<Rightarrow> []
      | c # rest \<Rightarrow>
          (let name = takeWhile ctype_isalnum rest in
           (if length name > 0 then [name] else [])
           @ variables_found (drop (length name) rest)))"
  by pat_completeness auto
termination
proof (relation "measure length")
  show "wf (measure length)"
    by simp
next
  fix ps :: string and c rest name
  assume "dropWhile (\<lambda>c. c \<noteq> CHR ''$'') ps = c # rest"
  then have "length rest < length ps"
    using length_dropWhile_le[of "\<lambda>c. c \<noteq> CHR ''$''" ps] by simp
  then show "(drop (length name) rest, ps) \<in> measure length"
    by simp
qed

declare variables_found.simps [simp del]

definition t_yaml_env_add_variables :: "yaml_parse \<Rightarrow> string \<Rightarrow> yaml_parse" where
  "t_yaml_env_add_variables env val =
     env\<lparr>variables := variables env
           @ filter (\<lambda>name. name \<notin> set (variables env)) (remdups (variables_found val))\<rparr>"

text \<open>
  \<^verbatim>\<open>lstr_ascii_iequal\<close> (lib-common's \<^verbatim>\<open>str-l.h\<close>): equality of strings up to the case of
  the ASCII letters.
\<close>

definition ascii_tolower :: "char \<Rightarrow> char" where
  "ascii_tolower c =
     (if 65 \<le> (of_char c :: nat) \<and> (of_char c :: nat) \<le> 90 then char_of ((of_char c :: nat) + 32)
      else c)"

definition lstr_ascii_iequal :: "string \<Rightarrow> string \<Rightarrow> bool" where
  "lstr_ascii_iequal a b = (map ascii_tolower a = map ascii_tolower b)"

definition yaml_parse_special_scalar :: "string \<Rightarrow> yaml_scalar option" where
  "yaml_parse_special_scalar line =
     (if line = ''~'' \<or> lstr_ascii_iequal line ''null'' then Some YAML_SCALAR_NULL
      else if lstr_ascii_iequal line ''true'' then Some (YAML_SCALAR_BOOL True)
      else if lstr_ascii_iequal line ''false'' then Some (YAML_SCALAR_BOOL False)
      else if lstr_ascii_iequal line ''-.inf'' then Some (YAML_SCALAR_DOUBLE DBL_NEG_INFINITY)
      else if lstr_ascii_iequal line ''.inf'' then Some (YAML_SCALAR_DOUBLE DBL_INFINITY)
      else if lstr_ascii_iequal line ''.nan'' then Some (YAML_SCALAR_DOUBLE DBL_NAN)
      else None)"

text \<open>
  \<^verbatim>\<open>yaml_parse_numeric_scalar\<close> reads \<^verbatim>\<open>line.s[0]\<close>: it is called on a line that is not
  empty.
\<close>

definition yaml_parse_numeric_scalar :: "yaml_lib \<Rightarrow> string \<Rightarrow> yaml_scalar option" where
  "yaml_parse_numeric_scalar lib line =
     (let as_double = (case lstr_to_double lib line of
                         Some d \<Rightarrow> Some (YAML_SCALAR_DOUBLE d)
                       | None \<Rightarrow> None)
      in if hd line = CHR ''-'' then
           (case lstr_to_int64 lib line of
              Some i \<Rightarrow> if 0 \<le> sint i then Some (YAML_SCALAR_UINT i)
                        else Some (YAML_SCALAR_INT i)
            | None \<Rightarrow> as_double)
         else
           (case lstr_to_uint64 lib line of
              Some u \<Rightarrow> Some (YAML_SCALAR_UINT u)
            | None \<Rightarrow> as_double))"

definition yaml_scalar_data :: "yaml_scalar \<Rightarrow> yaml_data" where
  "yaml_scalar_data sc = YAML_DATA (YAML_DATA_SCALAR sc) None None"

definition t_yaml_env_parse_quoted_string ::
  "yaml_lib \<Rightarrow> yaml_parse \<Rightarrow> yaml_pos \<Rightarrow> (yaml_data \<times> yaml_span) parse_res" where
  "t_yaml_env_parse_quoted_string lib env0 pos_start =
     (let env = yaml_env_skipc env0 in
      case parse_quoted_string lib (ps_rest env) of
        PARSE_STR_ERR_UNCLOSED \<Rightarrow>
          yaml_env_set_err env YAML_ERR_BAD_STRING (''missing closing '' @ [CHR 0x27, CHR 0x22, CHR 0x27])
      | PARSE_STR_ERR_EXP_SMTH \<Rightarrow> yaml_env_set_err env YAML_ERR_BAD_STRING ''invalid backslash''
      | PARSE_STR_OK buf n \<Rightarrow>
          (let env' = ps_skip env n in
           Parsed env' (yaml_scalar_data (YAML_SCALAR_STRING buf),
                        \<lparr>span_start = pos_start, span_end = yaml_env_get_pos env'\<rparr>)))"

definition t_yaml_env_parse_scalar ::
  "yaml_lib \<Rightarrow> yaml_parse \<Rightarrow> bool \<Rightarrow> (yaml_data \<times> yaml_span) parse_res" where
  "t_yaml_env_parse_scalar lib env0 in_flow =
     (let pos_start = yaml_env_get_pos env0 in
      if ps_peekc env0 = Some (CHR 0x22) then
        RETHROW (t_yaml_env_parse_quoted_string lib env0 pos_start) (\<lambda>env out.
          case dvalue (fst out) of
            YAML_DATA_SCALAR (YAML_SCALAR_STRING val) \<Rightarrow>
              Parsed (t_yaml_env_add_variables env val) out
          | _ \<Rightarrow> Parsed env out)
      else
        (let line = fst (yaml_env_get_scalar_ps env0 in_flow);
             env = snd (yaml_env_get_scalar_ps env0 in_flow);
             span = \<lparr>span_start = pos_start, span_end = yaml_env_get_pos env\<rparr>
         in if length line = 0 then
              yaml_env_set_err env YAML_ERR_MISSING_DATA ''unexpected character''
            else case yaml_parse_special_scalar line of
                   Some sc \<Rightarrow> Parsed env (yaml_scalar_data sc, span)
                 | None \<Rightarrow>
                     (case yaml_parse_numeric_scalar lib line of
                        Some sc \<Rightarrow> Parsed env (yaml_scalar_data sc, span)
                      | None \<Rightarrow>
                          Parsed (t_yaml_env_add_variables env line)
                                 (yaml_scalar_data (YAML_SCALAR_STRING line), span))))"

subsection \<open>Flow sequences and objects\<close>

text \<open>
  The functions of the parser call each other. In the model a function takes the
  functions it calls back as parameters: \<open>kd\<close> stands for
  \<^verbatim>\<open>t_yaml_env_parse_flow_key_data\<close> and \<open>pd\<close> for \<^verbatim>\<open>t_yaml_env_parse_data\<close>, both already
  given their bound, and a loop \<^verbatim>\<open>for (;;)\<close> takes a bound on its iterations. The two
  functions themselves are then defined by recursion on the bound.

  What \<^verbatim>\<open>t_yaml_env_parse_flow_key_data\<close> returns is a \<^verbatim>\<open>yaml_key_data_t\<close> whose key is \<^verbatim>\<open>NULL\<close>
  when a data alone was parsed. The spans, which the C structures carry, come with it.
\<close>

datatype flow_key_data =
  FLOW_KEY_DATA (fk_key: "string option") (fk_key_span: yaml_span) (fk_data: yaml_data)
                (fk_span: yaml_span)

definition zero_pos :: yaml_pos where
  "zero_pos = \<lparr> line_nb = 0, col_nb = 0, pos_s = 0 \<rparr>"

text \<open>
  \<^verbatim>\<open>t_yaml_env_build_implicit_obj\<close>: the object of the one pair \<^verbatim>\<open>a: b\<close> met in a flow
  sequence.
\<close>

definition t_yaml_env_build_implicit_obj :: "flow_key_data \<Rightarrow> yaml_data" where
  "t_yaml_env_build_implicit_obj kd =
     YAML_DATA (YAML_DATA_OBJ [YAML_KEY_DATA (the (fk_key kd)) (fk_data kd) None]) None None"

text \<open>A flow sequence leaves \<^verbatim>\<open>pres_nodes\<close> as \<^verbatim>\<open>t_new\<close> made it: empty.\<close>

primrec parse_flow_seq_loop ::
  "(yaml_parse \<Rightarrow> flow_key_data parse_res) \<Rightarrow> nat \<Rightarrow> yaml_parse \<Rightarrow> yaml_pos \<Rightarrow> yaml_data list
     \<Rightarrow> (yaml_data \<times> yaml_span) parse_res" where
  "parse_flow_seq_loop kd 0 env0 pos_start elems = OutOfFuel"
| "parse_flow_seq_loop kd (Suc m) env0 pos_start elems =
     (let finish = (\<lambda>env elems.
            Parsed env (YAML_DATA (YAML_DATA_SEQ elems []) None None,
                        \<lparr>span_start = pos_start, span_end = yaml_env_get_pos env\<rparr>))
      in
      RETHROW (yaml_env_ltrim env0) (\<lambda>env u.
        if ps_peekc env = Some CHR '']'' then finish (yaml_env_skipc env) elems
        else
          RETHROW (kd env) (\<lambda>env d.
            let elems' = elems @ [if fk_key d \<noteq> None then t_yaml_env_build_implicit_obj d
                                  else fk_data d]
            in
            RETHROW (yaml_env_ltrim env) (\<lambda>env u.
              if ps_peekc env = Some CHR '']'' then finish (yaml_env_skipc env) elems'
              else if ps_peekc env = Some CHR '','' then
                parse_flow_seq_loop kd m (yaml_env_skipc env) pos_start elems'
              else yaml_env_set_err env YAML_ERR_WRONG_DATA
                     ''expected another element of sequence''))))"

definition t_yaml_env_parse_flow_seq ::
  "(yaml_parse \<Rightarrow> flow_key_data parse_res) \<Rightarrow> nat \<Rightarrow> yaml_parse
     \<Rightarrow> (yaml_data \<times> yaml_span) parse_res" where
  "t_yaml_env_parse_flow_seq kd m env0 =
     parse_flow_seq_loop kd m (yaml_env_skipc env0) (yaml_env_get_pos env0) []"

primrec parse_flow_obj_loop ::
  "(yaml_parse \<Rightarrow> flow_key_data parse_res) \<Rightarrow> nat \<Rightarrow> yaml_parse \<Rightarrow> yaml_pos
     \<Rightarrow> yaml_key_data list \<Rightarrow> (yaml_data \<times> yaml_span) parse_res" where
  "parse_flow_obj_loop kd 0 env0 pos_start pairs = OutOfFuel"
| "parse_flow_obj_loop kd (Suc m) env0 pos_start pairs =
     (let finish = (\<lambda>env pairs.
            Parsed env (YAML_DATA (YAML_DATA_OBJ pairs) None None,
                        \<lparr>span_start = pos_start, span_end = yaml_env_get_pos env\<rparr>))
      in
      RETHROW (yaml_env_ltrim env0) (\<lambda>env u.
        if ps_peekc env = Some CHR ''}'' then finish (yaml_env_skipc env) pairs
        else
          RETHROW (kd env) (\<lambda>env d.
            if fk_key d = None then
              yaml_env_set_err_at env (fk_span d) YAML_ERR_WRONG_DATA
                ''only key-value mappings are allowed inside an object''
            else if the (fk_key d) \<in> set (map key pairs) then
              yaml_env_set_err_at env (fk_key_span d) YAML_ERR_BAD_KEY
                ''key is already declared in the object''
            else
              (let pairs' = pairs @ [YAML_KEY_DATA (the (fk_key d)) (fk_data d) None] in
               RETHROW (yaml_env_ltrim env) (\<lambda>env u.
                 if ps_peekc env = Some CHR ''}'' then finish (yaml_env_skipc env) pairs'
                 else if ps_peekc env = Some CHR '','' then
                   parse_flow_obj_loop kd m (yaml_env_skipc env) pos_start pairs'
                 else yaml_env_set_err env YAML_ERR_WRONG_DATA
                        ''expected another element of object'')))))"

definition t_yaml_env_parse_flow_obj ::
  "(yaml_parse \<Rightarrow> flow_key_data parse_res) \<Rightarrow> nat \<Rightarrow> yaml_parse
     \<Rightarrow> (yaml_data \<times> yaml_span) parse_res" where
  "t_yaml_env_parse_flow_obj kd m env0 =
     parse_flow_obj_loop kd m (yaml_env_skipc env0) (yaml_env_get_pos env0) []"

definition t_yaml_env_parse_flow_key_val ::
  "(yaml_parse \<Rightarrow> flow_key_data parse_res) \<Rightarrow> yaml_parse \<Rightarrow> flow_key_data parse_res" where
  "t_yaml_env_parse_flow_key_val kd env0 =
     RETHROW (yaml_env_parse_key env0) (\<lambda>env k.
       if lstr_startswith (fst k) ''$'' then
         yaml_env_set_err_at env (snd k) YAML_ERR_BAD_KEY
           ''cannot specify a variable value in this context''
       else
         RETHROW (yaml_env_ltrim env) (\<lambda>env u.
           RETHROW (kd env) (\<lambda>env d.
             if fk_key d \<noteq> None then
               (let e = span_end (fk_key_span d);
                    span = \<lparr>span_start = e,
                            span_end = e\<lparr>col_nb := col_nb e + 1, pos_s := pos_s e + 1\<rparr>\<rparr>
                in yaml_env_set_err_at env span YAML_ERR_WRONG_DATA ''unexpected colon'')
             else Parsed env (FLOW_KEY_DATA (Some (fst k)) (snd k) (fk_data d) (fk_span d)))))"

primrec t_yaml_env_parse_flow_key_data ::
  "nat \<Rightarrow> yaml_lib \<Rightarrow> yaml_parse \<Rightarrow> flow_key_data parse_res" where
  "t_yaml_env_parse_flow_key_data 0 lib env0 = OutOfFuel"
| "t_yaml_env_parse_flow_key_data (Suc n) lib env0 =
     (let kd = t_yaml_env_parse_flow_key_data n lib;
          no_key = (\<lambda>env out.
            Parsed env (FLOW_KEY_DATA None \<lparr>span_start = zero_pos, span_end = zero_pos\<rparr>
                          (fst out) (snd out)))
      in
      RETHROW (yaml_env_ltrim env0) (\<lambda>env u.
        if ps_done env then
          yaml_env_set_err env YAML_ERR_MISSING_DATA ''unexpected end of line''
        else if ps_startswith_yaml_key (ps_rest env) False then
          t_yaml_env_parse_flow_key_val kd env
        else if ps_peekc env = Some CHR ''['' then
          RETHROW (t_yaml_env_parse_flow_seq kd n env) no_key
        else if ps_peekc env = Some CHR ''{'' then
          RETHROW (t_yaml_env_parse_flow_obj kd n env) no_key
        else RETHROW (t_yaml_env_parse_scalar lib env True) no_key))"

subsection \<open>Merging an override\<close>

text \<open>
  \<^verbatim>\<open>yaml_presentation_override_t\<close>: the nodes recorded for an override, each a path and
  the original data when there is one, and the current path from the root of the
  override. \<^verbatim>\<open>t_yaml_data_to_iop\<close> keeps the tag and the value of the original data.
\<close>

record yaml_presentation_override =
  po_nodes :: "(string \<times> yaml_data option) list"
  po_path :: string

definition t_yaml_data_to_iop :: "yaml_data \<Rightarrow> yaml_data" where
  "t_yaml_data_to_iop data = YAML_DATA (dvalue data) (tag data) None"

definition yaml_pres_override_add_node ::
  "string \<Rightarrow> yaml_data option \<Rightarrow> (string \<times> yaml_data option) list
     \<Rightarrow> (string \<times> yaml_data option) list" where
  "yaml_pres_override_add_node path data nodes =
     nodes @ [(path, map_option t_yaml_data_to_iop data)]"

definition yaml_data_get_data_type :: "yaml_data \<Rightarrow> string" where
  "yaml_data_get_data_type data =
     (case dvalue data of
        YAML_DATA_OBJ fs \<Rightarrow> ''an object''
      | YAML_DATA_SEQ ds ps \<Rightarrow> ''a sequence''
      | YAML_DATA_SCALAR scalar \<Rightarrow> ''a scalar'')"

text \<open>The effects on the path of the override: \<^verbatim>\<open>sb_adds\<close>/\<^verbatim>\<open>sb_addf\<close> and \<^verbatim>\<open>sb_clip\<close>.\<close>

definition po_push :: "yaml_presentation_override option \<Rightarrow> string
                         \<Rightarrow> yaml_presentation_override option" where
  "po_push opres suffix = map_option (\<lambda>p. p\<lparr>po_path := po_path p @ suffix\<rparr>) opres"

definition po_clip :: "yaml_presentation_override option \<Rightarrow> nat
                         \<Rightarrow> yaml_presentation_override option" where
  "po_clip opres prev_len = map_option (\<lambda>p. p\<lparr>po_path := take prev_len (po_path p)\<rparr>) opres"

definition po_prev_len :: "yaml_presentation_override option \<Rightarrow> nat" where
  "po_prev_len opres = (case opres of None \<Rightarrow> 0 | Some p \<Rightarrow> length (po_path p))"

definition po_add :: "yaml_presentation_override option \<Rightarrow> string \<Rightarrow> yaml_data option
                        \<Rightarrow> yaml_presentation_override option" where
  "po_add opres suffix data =
     map_option (\<lambda>p. p\<lparr>po_nodes := yaml_pres_override_add_node (po_path p @ suffix) data
                                       (po_nodes p)\<rparr>) opres"

text \<open>
  \<^verbatim>\<open>yaml_env_merge_seq\<close>: one node for each appended position, then the elements and
  the presentation slots of the override are appended.
\<close>

definition yaml_env_merge_seq ::
  "yaml_data list \<Rightarrow> yaml_presentation_node option list \<Rightarrow> yaml_presentation_override option
     \<Rightarrow> yaml_data list \<Rightarrow> yaml_presentation_node option list
     \<Rightarrow> yaml_presentation_override option \<times> yaml_data list \<times> yaml_presentation_node option list" where
  "yaml_env_merge_seq override_datas override_pres opres ds ps =
     (foldl (\<lambda>opres i. po_add opres (''['' @ string_of_nat (length ds + i) @ '']'') None)
            opres [0 ..< length override_datas],
      ds @ override_datas, ps @ override_pres)"

definition t_yaml_merge_scalar ::
  "yaml_data \<Rightarrow> yaml_presentation_override option \<Rightarrow> yaml_data
     \<Rightarrow> yaml_presentation_override option \<times> yaml_data" where
  "t_yaml_merge_scalar override opres out = (po_add opres [] (Some out), override)"

text \<open>
  \<^verbatim>\<open>t_yaml_env_merge_data\<close>, \<^verbatim>\<open>t_yaml_env_merge_obj\<close> and \<^verbatim>\<open>t_yaml_env_merge_key_data\<close>. The data
  is modified in place by the C functions and returned here. A failure is the type of
  error and the message that \<^verbatim>\<open>yaml_env_set_err_at\<close> is called with, on the span of the
  override (the spans are not kept in the tree). The loop of
  \<^verbatim>\<open>t_yaml_env_merge_key_data\<close> over the fields of the object takes the fields it has
  passed and those it has still to see.
\<close>

function (sequential)
    t_yaml_env_merge_data ::
      "yaml_data \<Rightarrow> yaml_presentation_override option \<Rightarrow> yaml_data
         \<Rightarrow> yaml_error \<times> string + yaml_presentation_override option \<times> yaml_data"
and t_yaml_env_merge_obj ::
      "yaml_key_data list \<Rightarrow> yaml_presentation_override option \<Rightarrow> yaml_key_data list
         \<Rightarrow> yaml_error \<times> string + yaml_presentation_override option \<times> yaml_key_data list"
and t_yaml_env_merge_key_data ::
      "yaml_key_data \<Rightarrow> yaml_presentation_override option \<Rightarrow> yaml_key_data list
         \<Rightarrow> yaml_key_data list
         \<Rightarrow> yaml_error \<times> string + yaml_presentation_override option \<times> yaml_key_data list"
where
  "t_yaml_env_merge_data (YAML_DATA ov otg opr) opres data =
     (case (dvalue data, ov) of
        (YAML_DATA_SCALAR s, YAML_DATA_SCALAR so) \<Rightarrow>
          (let prev_len = po_prev_len opres;
               r = t_yaml_merge_scalar (YAML_DATA ov otg opr) (po_push opres ''!'') data
           in Inr (po_clip (fst r) prev_len, snd r))
      | (YAML_DATA_SEQ ds ps, YAML_DATA_SEQ ods ops) \<Rightarrow>
          (let r = yaml_env_merge_seq ods ops opres ds ps in
           Inr (fst r, YAML_DATA (YAML_DATA_SEQ (fst (snd r)) (snd (snd r))) (tag data)
                         (presentation data)))
      | (YAML_DATA_OBJ fs, YAML_DATA_OBJ ofs) \<Rightarrow>
          (case t_yaml_env_merge_obj ofs opres fs of
             Inl e \<Rightarrow> Inl e
           | Inr r \<Rightarrow> Inr (fst r, YAML_DATA (YAML_DATA_OBJ (snd r)) (tag data)
                                    (presentation data)))
      | _ \<Rightarrow>
          Inl (YAML_ERR_INVALID_OVERRIDE,
               ''overridden data is '' @ yaml_data_get_data_type data @ '' and not ''
               @ yaml_data_get_data_type (YAML_DATA ov otg opr)))"
| "t_yaml_env_merge_obj [] opres fs = Inr (opres, fs)"
| "t_yaml_env_merge_obj (pair # rest) opres fs =
     (if \<not> lstr_startswith (key pair) ''$'' then
        (case t_yaml_env_merge_key_data pair opres [] fs of
           Inl e \<Rightarrow> Inl e
         | Inr r \<Rightarrow> t_yaml_env_merge_obj rest (fst r) (snd r))
      else t_yaml_env_merge_obj rest opres fs)"
| "t_yaml_env_merge_key_data (YAML_KEY_DATA ok od opr) opres seen [] =
     Inr (po_add opres (''.'' @ ok) None, seen @ [YAML_KEY_DATA ok od opr])"
| "t_yaml_env_merge_key_data (YAML_KEY_DATA ok od opr) opres seen (data_pair # rest) =
     (if key data_pair = ok then
        (let prev_len = po_prev_len opres in
         case t_yaml_env_merge_data od (po_push opres (''.'' @ key data_pair)) (kdata data_pair) of
           Inl e \<Rightarrow> Inl e
         | Inr r \<Rightarrow>
             Inr (po_clip (fst r) prev_len,
                  seen @ [YAML_KEY_DATA (key data_pair) (snd r) (key_presentation data_pair)]
                  @ rest))
      else t_yaml_env_merge_key_data (YAML_KEY_DATA ok od opr) opres (seen @ [data_pair]) rest)"
  by pat_completeness auto
termination
  by (relation "inv_image (less_than <*lex*> less_than) (\<lambda>x. case x of
         Inl (override, opres, data) \<Rightarrow> (2 * size override, 0)
       | Inr (Inl (ofs, opres, fs)) \<Rightarrow> (2 * size_list size ofs + 1, 0)
       | Inr (Inr (override, opres, seen, fs)) \<Rightarrow> (2 * size override + 1, length fs))")
     auto

text \<open>The second override state has the path of the first, and its nodes first.\<close>

definition po_ext ::
  "yaml_presentation_override option \<Rightarrow> yaml_presentation_override option \<Rightarrow> bool" where
  "po_ext a b =
     (case a of
        None \<Rightarrow> b = None
      | Some p \<Rightarrow>
          (case b of
             None \<Rightarrow> False
           | Some p' \<Rightarrow> po_path p' = po_path p
                         \<and> take (length (po_nodes p)) (po_nodes p') = po_nodes p))"

subsection \<open>Tags, block sequences and objects\<close>

text \<open>\<^verbatim>\<open>ctype_tag\<close>: the letters, the digits and the dot.\<close>

definition ctype_tag :: ctype_desc where
  "ctype_tag = [0x00000000, 0x03ff4000, 0x07fffffe, 0x07fffffe,
                0x00000000, 0x00000000, 0x00000000, 0x00000000]"

text \<open>
  \<^verbatim>\<open>t_yaml_env_parse_tag\<close>: the data that follows the tag must not carry a tag itself.
\<close>

definition t_yaml_env_parse_tag ::
  "(yaml_parse \<Rightarrow> nat \<Rightarrow> (yaml_data \<times> yaml_span) parse_res) \<Rightarrow> yaml_parse \<Rightarrow> nat
     \<Rightarrow> (yaml_data \<times> yaml_span) parse_res" where
  "t_yaml_env_parse_tag pd env0 min_indent =
     (let tag_pos_start = yaml_env_get_pos env0;
          env1 = yaml_env_skipc env0
      in
      if \<not> (case ps_peekc env1 of Some c \<Rightarrow> c_isalpha c | None \<Rightarrow> False) then
        yaml_env_set_err env1 YAML_ERR_INVALID_TAG ''must start with a letter''
      else
        (let tg = takeWhile (ctype_desc_contains ctype_tag) (ps_rest env1);
             env2 = ps_skip env1 (length tg)
         in
         if \<not> (case ps_peekc env2 of Some c \<Rightarrow> c_isspace c | None \<Rightarrow> False) then
           yaml_env_set_err env2 YAML_ERR_INVALID_TAG
             ''must only contain alphanumeric characters''
         else
           RETHROW (pd env2 min_indent) (\<lambda>env out.
             if tag (fst out) \<noteq> None then
               yaml_env_set_err env YAML_ERR_WRONG_OBJECT ''two tags have been declared''
             else
               Parsed env (YAML_DATA (dvalue (fst out)) (Some tg) (presentation (fst out)),
                           (snd out)\<lparr>span_start := tag_pos_start\<rparr>))))"

text \<open>
  \<^verbatim>\<open>t_yaml_env_parse_seq\<close> appends one presentation slot for each element it parses,
  \<^verbatim>\<open>NULL\<close> without presentation.
\<close>

primrec parse_seq_loop ::
  "(yaml_parse \<Rightarrow> nat \<Rightarrow> (yaml_data \<times> yaml_span) parse_res) \<Rightarrow> nat \<Rightarrow> yaml_parse \<Rightarrow> nat
     \<Rightarrow> yaml_pos \<Rightarrow> yaml_data list \<Rightarrow> yaml_presentation_node option list
     \<Rightarrow> (yaml_data \<times> yaml_span) parse_res" where
  "parse_seq_loop pd 0 env0 min_indent pos_start elems slots = OutOfFuel"
| "parse_seq_loop pd (Suc m) env0 min_indent pos_start elems slots =
     RETHROW (yaml_env_ltrim env0) (\<lambda>env u.
       RETHROW (pd (yaml_env_skipc env) (min_indent + 1)) (\<lambda>env elem.
         RETHROW (yaml_env_ltrim env) (\<lambda>env u.
           let elems' = elems @ [fst elem];
               slots' = slots @ [None];
               out = (YAML_DATA (YAML_DATA_SEQ elems' slots') None None,
                      \<lparr>span_start = pos_start, span_end = span_end (snd elem)\<rparr>);
               last_indent = yaml_env_get_column_nb env
           in
           if ps_done env then Parsed env out
           else if last_indent < min_indent then Parsed env out
           else if last_indent > min_indent then
             yaml_env_set_err env YAML_ERR_WRONG_INDENT
               ''line not aligned with current sequence''
           else if \<not> ps_startswith_yaml_seq_prefix (ps_rest env) then
             yaml_env_set_err env YAML_ERR_WRONG_DATA ''expected another element of sequence''
           else parse_seq_loop pd m env min_indent pos_start elems' slots')))"

definition t_yaml_env_parse_seq ::
  "(yaml_parse \<Rightarrow> nat \<Rightarrow> (yaml_data \<times> yaml_span) parse_res) \<Rightarrow> nat \<Rightarrow> yaml_parse \<Rightarrow> nat
     \<Rightarrow> (yaml_data \<times> yaml_span) parse_res" where
  "t_yaml_env_parse_seq pd m env0 min_indent =
     parse_seq_loop pd m env0 min_indent (yaml_env_get_pos env0) [] []"

text \<open>
  In \<^verbatim>\<open>t_yaml_env_parse_obj\<close> the set \<^verbatim>\<open>keys_hash\<close> holds the keys of the fields parsed so
  far.
\<close>

primrec parse_obj_loop ::
  "(yaml_parse \<Rightarrow> nat \<Rightarrow> (yaml_data \<times> yaml_span) parse_res) \<Rightarrow> nat \<Rightarrow> yaml_parse \<Rightarrow> nat
     \<Rightarrow> bool \<Rightarrow> yaml_pos \<Rightarrow> yaml_key_data list \<Rightarrow> yaml_pos
     \<Rightarrow> (yaml_data \<times> yaml_span) parse_res" where
  "parse_obj_loop pd 0 env0 min_indent only_variables pos_start pairs pos_end = OutOfFuel"
| "parse_obj_loop pd (Suc m) env0 min_indent only_variables pos_start pairs pos_end =
     (let finish = (\<lambda>env pairs pos_end.
            Parsed env (YAML_DATA (YAML_DATA_OBJ pairs) None None,
                        \<lparr>span_start = pos_start, span_end = pos_end\<rparr>));
          body = (\<lambda>env1.
            RETHROW (yaml_env_parse_key env1) (\<lambda>env k.
              if \<not> only_variables \<and> lstr_startswith (fst k) ''$'' then
                yaml_env_set_err_at env (snd k) YAML_ERR_BAD_KEY
                  ''cannot specify a variable value in this context''
              else if fst k \<in> set (map key pairs) then
                yaml_env_set_err_at env (snd k) YAML_ERR_BAD_KEY
                  ''key is already declared in the object''
              else
                RETHROW (yaml_env_ltrim env) (\<lambda>env u.
                  RETHROW (pd env (if ps_startswith_yaml_seq_prefix (ps_rest env) then min_indent
                                   else min_indent + 1)) (\<lambda>env d.
                    let pairs' = pairs @ [YAML_KEY_DATA (fst k) (fst d) None];
                        pos_end' = span_end (snd d)
                    in
                    RETHROW (yaml_env_ltrim env) (\<lambda>env u.
                      let last_indent = yaml_env_get_column_nb env in
                      if ps_done env then finish env pairs' pos_end'
                      else if last_indent < min_indent then finish env pairs' pos_end'
                      else if last_indent > min_indent then
                        yaml_env_set_err env YAML_ERR_WRONG_INDENT
                          ''line not aligned with current object''
                      else parse_obj_loop pd m env min_indent only_variables pos_start
                             pairs' pos_end')))))
      in
      if only_variables then
        RETHROW (yaml_env_ltrim env0) (\<lambda>env u.
          if ps_peekc env \<noteq> Some CHR ''$'' then finish env pairs pos_end else body env)
      else body env0)"

definition t_yaml_env_parse_obj ::
  "(yaml_parse \<Rightarrow> nat \<Rightarrow> (yaml_data \<times> yaml_span) parse_res) \<Rightarrow> nat \<Rightarrow> yaml_parse \<Rightarrow> nat
     \<Rightarrow> bool \<Rightarrow> (yaml_data \<times> yaml_span) parse_res" where
  "t_yaml_env_parse_obj pd m env0 min_indent only_variables =
     parse_obj_loop pd m env0 min_indent only_variables (yaml_env_get_pos env0) [] zero_pos"

subsection \<open>Inclusions\<close>

text \<open>
  \<^verbatim>\<open>t_yaml_parse_attach_file\<close>, for the environment of an included file: the error message,
  or the full path and the contents of the file, which become \<^verbatim>\<open>fullpath\<close>,
  \<^verbatim>\<open>file_contents\<close> and the stream of that environment.
\<close>

definition t_yaml_parse_attach_file ::
  "yaml_lib \<Rightarrow> string \<Rightarrow> string option \<Rightarrow> string + string \<times> string" where
  "t_yaml_parse_attach_file lib filepath dirpath =
     (let fullpath = path_simplify lib
                       (path_extend lib (case dirpath of None \<Rightarrow> [] | Some d \<Rightarrow> d) filepath)
      in
      if (case dirpath of
            None \<Rightarrow> False
          | Some d \<Rightarrow> lstr_startswith (path_relative_to lib (d @ ''/'') fullpath) ''..'')
      then Inl (''cannot include subfile `'' @ filepath @ ''`: only includes contained in ''
                @ ''the directory of the including file are allowed'')
      else
        (case lstr_init_from_file lib fullpath of
           None \<Rightarrow> Inl (''cannot read file '' @ filepath @ '': '' @ file_strerror lib fullpath)
         | Some file_contents \<Rightarrow> Inr (fullpath, file_contents)))"

text \<open>\<^verbatim>\<open>yaml_data_set_string\<close> clears the data: it has no tag, no presentation and no span.\<close>

definition yaml_data_set_string :: "string \<Rightarrow> yaml_data \<times> yaml_span" where
  "yaml_data_set_string str =
     (YAML_DATA (YAML_DATA_SCALAR (YAML_SCALAR_STRING str)) None None,
      \<lparr>span_start = zero_pos, span_end = zero_pos\<rparr>)"

text \<open>
  \<^verbatim>\<open>t_yaml_env_do_include\<close>: the data that replaces the inclusion and the variables of the
  included file. The environment of the model has no full path (the directory is the one
  of the empty path) and no parent, so that \<^verbatim>\<open>has_inclusion_loop\<close> compares the new full
  path with \<^verbatim>\<open>LSTR_NULL\<close>; \<^verbatim>\<open>lstr_equal\<close> is not under src/, and the model leaves out an empty
  full path. A raw inclusion gives the contents of the file as a string, and no variable.
  As \<^verbatim>\<open>env->pres\<close> is \<^verbatim>\<open>NULL\<close>, the data gets no inclusion descriptor.
\<close>

definition t_yaml_env_do_include ::
  "yaml_lib \<Rightarrow> yaml_parse \<Rightarrow> bool \<Rightarrow> yaml_data \<times> yaml_span
     \<Rightarrow> ((yaml_data \<times> yaml_span) \<times> string list) parse_res" where
  "t_yaml_env_do_include lib env0 raw out =
     RETHROW (yaml_env_ltrim env0) (\<lambda>env u.
       case dvalue (fst out) of
         YAML_DATA_SCALAR (YAML_SCALAR_STRING path) \<Rightarrow>
           (let dirpath = path_dirname lib [] in
            case t_yaml_parse_attach_file lib path (Some dirpath) of
              Inl msg \<Rightarrow> yaml_env_set_err_at env (snd out) YAML_ERR_INVALID_INCLUDE msg
            | Inr subfile \<Rightarrow>
                if fst subfile = [] then NotModelled
                else if raw then Parsed env (yaml_data_set_string (snd subfile), [])
                else NotModelled)
       | _ \<Rightarrow>
           yaml_env_set_err_at env (snd out) YAML_ERR_INVALID_INCLUDE
             (''!'' @ the (tag (fst out)) @ '' can only be used with strings''))"

text \<open>
  \<^verbatim>\<open>t_yaml_env_replace_variables\<close>, for the object of the variable settings, without
  presentation. The name of the first pair is looked up in the variables of the included
  file (their names): when it is not among them, the error is set at the span of the key,
  which the caller gives, as the spans of the keys are not kept in the tree. Replacing
  an occurrence goes through the pointers of the variables and is not modelled.
\<close>

definition t_yaml_env_replace_variables ::
  "yaml_parse \<Rightarrow> yaml_span \<Rightarrow> yaml_data \<Rightarrow> string list \<Rightarrow> string list parse_res" where
  "t_yaml_env_replace_variables env key_span override vars =
     (case dvalue override of
        YAML_DATA_OBJ [] \<Rightarrow> Parsed env vars
      | YAML_DATA_OBJ (pair # rest) \<Rightarrow>
          if \<not> lstr_startswith (key pair) ''$'' then NotModelled
          else if drop 1 (key pair) \<in> set vars then NotModelled
          else yaml_env_set_err_at env key_span YAML_ERR_BAD_KEY ''unknown variable''
      | _ \<Rightarrow> NotModelled)"

text \<open>
  \<^verbatim>\<open>t_yaml_env_handle_variables\<close>: the variable settings are an object whose keys start
  with \<^verbatim>\<open>$\<close>, at an indentation that is at least \<open>min_indent\<close>. The span of its first key
  is the one that \<^verbatim>\<open>yaml_env_parse_key\<close> gives at the start of the object.
\<close>

definition t_yaml_env_handle_variables ::
  "(yaml_parse \<Rightarrow> nat \<Rightarrow> (yaml_data \<times> yaml_span) parse_res) \<Rightarrow> nat \<Rightarrow> yaml_parse \<Rightarrow> nat
     \<Rightarrow> string list \<Rightarrow> string list parse_res" where
  "t_yaml_env_handle_variables pd m env0 min_indent vars =
     RETHROW (yaml_env_ltrim env0) (\<lambda>env u.
       if ps_done env then Parsed env vars
       else
         (let cur_indent = yaml_env_get_column_nb env in
          if cur_indent < min_indent then Parsed env vars
          else if \<not> ps_startswith_yaml_key (ps_rest env) True then Parsed env vars
          else
            (let key_span = (case yaml_env_parse_key env of
                               Parsed env1 k \<Rightarrow> snd k
                             | _ \<Rightarrow> \<lparr>span_start = zero_pos, span_end = zero_pos\<rparr>)
             in
             RETHROW (t_yaml_env_parse_obj pd m env cur_indent True) (\<lambda>env data.
               t_yaml_env_replace_variables env key_span (fst data) vars))))"

text \<open>
  \<^verbatim>\<open>t_yaml_env_handle_override\<close>: an object at an indentation that is at least
  \<open>min_indent\<close> is parsed and merged into the data. Without the flag
  \<^verbatim>\<open>YAML_PARSE_GEN_PRES_DATA\<close> there is no presentation of the override. The error of a
  merge is set at the span of the override that fails: the one of the whole override when
  its type differs from the one of the data, a span that the tree does not keep
  otherwise.
\<close>

definition t_yaml_env_handle_override ::
  "(yaml_parse \<Rightarrow> nat \<Rightarrow> (yaml_data \<times> yaml_span) parse_res) \<Rightarrow> nat \<Rightarrow> yaml_parse \<Rightarrow> nat
     \<Rightarrow> yaml_data \<times> yaml_span \<Rightarrow> (yaml_data \<times> yaml_span) parse_res" where
  "t_yaml_env_handle_override pd m env0 min_indent out =
     RETHROW (yaml_env_ltrim env0) (\<lambda>env u.
       if ps_done env then Parsed env out
       else
         (let cur_indent = yaml_env_get_column_nb env in
          if cur_indent < min_indent then Parsed env out
          else if \<not> ps_startswith_yaml_key (ps_rest env) False then Parsed env out
          else
            RETHROW (t_yaml_env_parse_obj pd m env cur_indent False) (\<lambda>env override.
              case t_yaml_env_merge_data (fst override) None (fst out) of
                Inl e \<Rightarrow>
                  if yaml_data_get_data_type (fst out) \<noteq> yaml_data_get_data_type (fst override)
                  then yaml_env_set_err_at env (snd override) (fst e) (snd e)
                  else NotModelled
              | Inr r \<Rightarrow> Parsed env (snd r, snd out))))"

text \<open>
  \<^verbatim>\<open>yaml_env_merge_variables\<close> adds the variables that are left to those of the document.
\<close>

definition yaml_env_merge_variables :: "yaml_parse \<Rightarrow> string list \<Rightarrow> yaml_parse" where
  "yaml_env_merge_variables env vars =
     env\<lparr>variables := variables env @ filter (\<lambda>name. name \<notin> set (variables env)) vars\<rparr>"

definition t_yaml_env_handle_include ::
  "(yaml_parse \<Rightarrow> nat \<Rightarrow> (yaml_data \<times> yaml_span) parse_res) \<Rightarrow> nat \<Rightarrow> yaml_lib \<Rightarrow> yaml_parse
     \<Rightarrow> nat \<Rightarrow> yaml_data \<times> yaml_span \<Rightarrow> (yaml_data \<times> yaml_span) parse_res" where
  "t_yaml_env_handle_include pd m lib env0 min_indent out =
     (if tag (fst out) \<noteq> Some ''include'' \<and> tag (fst out) \<noteq> Some ''includeraw'' then
        Parsed env0 out
      else
        (let raw = (tag (fst out) = Some ''includeraw'') in
         RETHROW (t_yaml_env_do_include lib env0 raw out) (\<lambda>env inc.
           RETHROW (t_yaml_env_handle_variables pd m env min_indent (snd inc)) (\<lambda>env vars.
             RETHROW (t_yaml_env_handle_override pd m env min_indent (fst inc)) (\<lambda>env data.
               Parsed (yaml_env_merge_variables env vars) data)))))"

subsection \<open>Data\<close>

primrec t_yaml_env_parse_data ::
  "nat \<Rightarrow> yaml_lib \<Rightarrow> yaml_parse \<Rightarrow> nat \<Rightarrow> (yaml_data \<times> yaml_span) parse_res" where
  "t_yaml_env_parse_data 0 lib env0 min_indent = OutOfFuel"
| "t_yaml_env_parse_data (Suc n) lib env0 min_indent =
     (let pd = t_yaml_env_parse_data n lib;
          kd = t_yaml_env_parse_flow_key_data n lib
      in
      RETHROW (yaml_env_ltrim env0) (\<lambda>env u.
        if ps_done env then
          yaml_env_set_err env YAML_ERR_MISSING_DATA ''unexpected end of line''
        else
          (let cur_indent = yaml_env_get_column_nb env in
           if cur_indent < min_indent then
             yaml_env_set_err env YAML_ERR_WRONG_INDENT ''missing element''
           else if ps_peekc env = Some CHR ''!'' then
             RETHROW (t_yaml_env_parse_tag pd env min_indent) (\<lambda>env out.
               t_yaml_env_handle_include pd n lib env (min_indent + 1) out)
           else if ps_startswith_yaml_seq_prefix (ps_rest env) then
             t_yaml_env_parse_seq pd n env cur_indent
           else if ps_peekc env = Some CHR ''['' then t_yaml_env_parse_flow_seq kd n env
           else if ps_peekc env = Some CHR ''{'' then t_yaml_env_parse_flow_obj kd n env
           else if ps_startswith_yaml_key (ps_rest env) False then
             t_yaml_env_parse_obj pd n env cur_indent False
           else t_yaml_env_parse_scalar lib env False)))"

subsection \<open>The entry point of the parser\<close>

definition set_unbound_variables_err :: "yaml_parse \<Rightarrow> yaml_parse" where
  "set_unbound_variables_err env =
     env\<lparr>parse_err := ''the document is invalid: there are unbound variables: ''
            @ foldr (\<lambda>name buf. if buf = [] then name else name @ '', '' @ buf)
                    (variables env) []\<rparr>"

text \<open>
  \<^verbatim>\<open>t_yaml_parse\<close>: the integer returned, the environment, the data \<^verbatim>\<open>out\<close> when it has
  been filled, and the buffer \<^verbatim>\<open>out_err\<close> of the caller. The label \<^verbatim>\<open>end\<close> copies the error
  of the environment into \<^verbatim>\<open>out_err\<close> and puts the stream back; the failure of the
  \<^verbatim>\<open>yaml_env_ltrim\<close> that follows the data returns through \<^verbatim>\<open>RETHROW\<close> and does neither.
  The result is \<open>None\<close> when the bound on the depth of the calls is too small, and when
  the document includes a file that is parsed.
\<close>

definition t_yaml_parse ::
  "nat \<Rightarrow> yaml_lib \<Rightarrow> yaml_parse \<Rightarrow> string
     \<Rightarrow> (int \<times> yaml_parse \<times> yaml_data option \<times> string) option" where
  "t_yaml_parse fuel lib env0 out_err =
     (let saved_ps = ps_s env0;
          at_end = (\<lambda>res env out.
            Some (res, env\<lparr>ps_s := saved_ps\<rparr>, out,
                  if res < 0 then parse_err env else out_err))
      in
      case t_yaml_env_parse_data fuel lib env0 0 of
        OutOfFuel \<Rightarrow> None
      | NotModelled \<Rightarrow> None
      | Failed env \<Rightarrow> at_end (- 1) env None
      | Parsed env1 out \<Rightarrow>
          (case yaml_env_ltrim env1 of
             OutOfFuel \<Rightarrow> None
           | NotModelled \<Rightarrow> None
           | Failed env \<Rightarrow> Some (- 1, env, Some (fst out), out_err)
           | Parsed env u \<Rightarrow>
               if \<not> ps_done env then
                 at_end (- 1) (yaml_env_err env YAML_ERR_EXTRA_DATA ''expected end of document'')
                   (Some (fst out))
               else if length (variables env) > 0 \<and> \<not> allow_unbound_variables env then
                 at_end (- 1) (set_unbound_variables_err env) (Some (fst out))
               else at_end 0 env (Some (fst out))))"

text \<open>The tests parse a string in a new environment without flags.\<close>

definition yaml_parse_string ::
  "nat \<Rightarrow> yaml_lib \<Rightarrow> string \<Rightarrow> (int \<times> yaml_parse \<times> yaml_data option \<times> string) option" where
  "yaml_parse_string fuel lib yaml =
     t_yaml_parse fuel lib (yaml_parse_attach_ps (t_yaml_parse_new False) yaml) []"

subsection \<open>The typing of scalars in the specification\<close>

text \<open>
  The order of the specification, written from its words: after trimming, a scalar is
  classified in this order: exact matches for \<^verbatim>\<open>~\<close>, case-insensitive
  \<^verbatim>\<open>null/true/false/.inf/-.inf/.nan\<close>; signed integer if parseable, for negative values
  only (a parseable token that starts with \<^verbatim>\<open>-\<close> and is not negative, such as \<^verbatim>\<open>-0\<close>, is
  unsigned); unsigned integer; double; otherwise string.
\<close>

definition spec_special_scalar :: "string \<Rightarrow> yaml_scalar option" where
  "spec_special_scalar line =
     (if line = ''~'' then Some YAML_SCALAR_NULL
      else if map ascii_tolower line = ''null'' then Some YAML_SCALAR_NULL
      else if map ascii_tolower line = ''true'' then Some (YAML_SCALAR_BOOL True)
      else if map ascii_tolower line = ''false'' then Some (YAML_SCALAR_BOOL False)
      else if map ascii_tolower line = ''.inf'' then Some (YAML_SCALAR_DOUBLE DBL_INFINITY)
      else if map ascii_tolower line = ''-.inf'' then Some (YAML_SCALAR_DOUBLE DBL_NEG_INFINITY)
      else if map ascii_tolower line = ''.nan'' then Some (YAML_SCALAR_DOUBLE DBL_NAN)
      else None)"

definition spec_scalar_classify :: "yaml_lib \<Rightarrow> string \<Rightarrow> yaml_scalar" where
  "spec_scalar_classify lib line =
     (case spec_special_scalar line of
        Some sc \<Rightarrow> sc
      | None \<Rightarrow>
          (case lstr_to_int64 lib line of
             Some i \<Rightarrow>
               if sint i < 0 then YAML_SCALAR_INT i
               else if hd line = CHR ''-'' then YAML_SCALAR_UINT i
               else (case lstr_to_uint64 lib line of
                       Some u \<Rightarrow> YAML_SCALAR_UINT u
                     | None \<Rightarrow>
                         (case lstr_to_double lib line of
                            Some d \<Rightarrow> YAML_SCALAR_DOUBLE d
                          | None \<Rightarrow> YAML_SCALAR_STRING line))
           | None \<Rightarrow>
               (case lstr_to_uint64 lib line of
                  Some u \<Rightarrow> YAML_SCALAR_UINT u
                | None \<Rightarrow>
                    (case lstr_to_double lib line of
                       Some d \<Rightarrow> YAML_SCALAR_DOUBLE d
                     | None \<Rightarrow> YAML_SCALAR_STRING line))))"

text \<open>
  An instance of the library, for the examples: the integers of one decimal digit, with
  or without a sign, no double, strings without escape up to the closing quote, and a
  directory \<^verbatim>\<open>.\<close> that holds one file, \<^verbatim>\<open>inc.yml\<close>.
\<close>

definition digit_value :: "char \<Rightarrow> 64 word option" where
  "digit_value =
     map_of [(CHR ''0'', 0), (CHR ''1'', 1), (CHR ''2'', 2), (CHR ''3'', 3), (CHR ''4'', 4),
             (CHR ''5'', 5), (CHR ''6'', 6), (CHR ''7'', 7), (CHR ''8'', 8), (CHR ''9'', 9)]"

definition yaml_lib_example :: yaml_lib where
  "yaml_lib_example =
     \<lparr> parse_quoted_string =
         (\<lambda>ps. let buf = takeWhile (\<lambda>c. c \<noteq> CHR 0x22 \<and> c \<noteq> CHR 0x5C) ps in
               case drop (length buf) ps of
                 [] \<Rightarrow> PARSE_STR_ERR_UNCLOSED
               | c # cs \<Rightarrow> if c = CHR 0x22 then PARSE_STR_OK buf (length buf + 1)
                            else PARSE_STR_ERR_EXP_SMTH),
       lstr_to_int64 =
         (\<lambda>s. case s of
                 [c] \<Rightarrow> digit_value c
               | [c, d] \<Rightarrow> if c = CHR ''-'' then map_option uminus (digit_value d) else None
               | _ \<Rightarrow> None),
       lstr_to_uint64 = (\<lambda>s. case s of [c] \<Rightarrow> digit_value c | _ \<Rightarrow> None),
       lstr_to_double = (\<lambda>s. None),
       path_dirname = (\<lambda>path. ''.''),
       path_extend = (\<lambda>dirpath filepath. dirpath @ ''/'' @ filepath),
       path_simplify = (\<lambda>path. path),
       path_relative_to = (\<lambda>dirpath path. drop (length dirpath) path),
       lstr_init_from_file = (\<lambda>path. if path = ''./inc.yml'' then Some ''a: 1'' else None),
       file_strerror = (\<lambda>path. ''No such file or directory'') \<rparr>"

section \<open>Auxiliary notions for the properties\<close>

subsection \<open>Bytes and effects of the packer\<close>

text \<open>The bytes of a transition when the indent level is \<open>n\<close> spaces.\<close>

definition goto_bytes :: "yaml_pack_state \<Rightarrow> yaml_pack_state \<Rightarrow> int \<Rightarrow> string" where
  "goto_bytes st st' n =
     (case spec_transition st st' of
        EMIT_NOTHING \<Rightarrow> []
      | EMIT_SPACE \<Rightarrow> [SPC]
      | EMIT_NEWLINE \<Rightarrow> [NL]
      | EMIT_NEWLINE_INDENT \<Rightarrow> NL # replicate (nat n) SPC
      | EMIT_INDENT \<Rightarrow> replicate (nat n) SPC)"

text \<open>
  The effect of a packing function on the environment: bytes \<open>w\<close> are appended to the
  output, the state becomes \<open>st\<close>; the path and the active variables may change.
\<close>

definition upd ::
  "yaml_pack_env \<Rightarrow> string \<Rightarrow> yaml_pack_state \<Rightarrow> (string \<times> yaml_data option) list \<Rightarrow> string
     \<Rightarrow> yaml_pack_env" where
  "upd env w st av ap =
     env\<lparr>priv := priv env @ w, state := st, active_vars := av, absolute_path := ap\<rparr>"

text \<open>An environment that writes to a buffer, with a sound indent level.\<close>

definition sb_env :: "yaml_pack_env \<Rightarrow> bool" where
  "sb_env env \<longleftrightarrow> write_cb env = sb_write \<and> 0 \<le> indent_lvl env"

text \<open>
  \<open>ext env env'\<close>: \<open>env'\<close> is \<open>env\<close> after some packing: the output has grown and the
  configuration is the same.
\<close>

definition ext :: "yaml_pack_env \<Rightarrow> yaml_pack_env \<Rightarrow> bool" where
  "ext env env' \<longleftrightarrow>
     write_cb env' = write_cb env \<and> indent_lvl env' = indent_lvl env \<and> pres env' = pres env
     \<and> current_path_pos env' = current_path_pos env \<and> err env' = err env
     \<and> outdirpath env' = outdirpath env \<and> flags env' = flags env
     \<and> (\<exists>w. priv env' = priv env @ w)"

definition packs_to :: "yaml_pack_env \<Rightarrow> int \<times> yaml_pack_env \<Rightarrow> bool" where
  "packs_to env r \<longleftrightarrow> 0 \<le> fst r \<and> (\<exists>w st av ap. snd r = upd env w st av ap)"

text \<open>An output that ends with exactly one newline.\<close>

definition ends_one_nl :: "string \<Rightarrow> bool" where
  "ends_one_nl out \<longleftrightarrow> (\<exists>w c. out = w @ [c, NL] \<and> c \<noteq> NL)"

text \<open>
  Where the packer stands after a data: after its last token, which does not end a
  line, or on the new line that follows its inline comment.
\<close>

definition after_data :: "yaml_pack_env \<Rightarrow> bool" where
  "after_data env \<longleftrightarrow>
     (state env = PACK_STATE_AFTER_DATA \<and> priv env \<noteq> [] \<and> last (priv env) \<noteq> NL)
     \<or> (state env = PACK_STATE_ON_NEWLINE \<and> ends_one_nl (priv env))"

subsection \<open>Well-formed data\<close>

text \<open>
  The text of a finite double is what \<^verbatim>\<open>sprintf("%g")\<close> printed: it is not empty and has no
  newline. A comment is the text of one line: it has no newline.
\<close>

fun wf_scalar :: "yaml_scalar \<Rightarrow> bool" where
  "wf_scalar (YAML_SCALAR_DOUBLE (DBL_FINITE g)) = (g \<noteq> [] \<and> NL \<notin> set g)"
| "wf_scalar _ = True"

definition wf_node :: "yaml_presentation_node option \<Rightarrow> bool" where
  "wf_node node = (case node of None \<Rightarrow> True | Some n \<Rightarrow> NL \<notin> set (inline_comment n))"

fun wf_data :: "yaml_data \<Rightarrow> bool" where
  "wf_data (YAML_DATA v tg pr) =
     (wf_node pr \<and>
      (case v of
         YAML_DATA_SCALAR scalar \<Rightarrow> wf_scalar scalar
       | YAML_DATA_SEQ ds ps \<Rightarrow> list_all wf_data ds \<and> list_all wf_node ps
       | YAML_DATA_OBJ fs \<Rightarrow>
           list_all (\<lambda>kd. wf_data (kdata kd) \<and> wf_node (key_presentation kd)) fs))"

definition wf_pres :: "(string \<Rightarrow> yaml_presentation_node option) option \<Rightarrow> bool" where
  "wf_pres p = (case p of None \<Rightarrow> True | Some nodes \<Rightarrow> (\<forall>path. wf_node (nodes path)))"

subsection \<open>Invariants of a parsed tree\<close>

text \<open>
  \<open>distinct_keys\<close>: no object of the tree has two fields with the same key.
  \<open>seq_slots_ok\<close>: every sequence of the tree has one presentation slot for each of its
  elements, or no slot at all.
\<close>

fun distinct_keys :: "yaml_data \<Rightarrow> bool" where
  "distinct_keys (YAML_DATA v tg pr) =
     (case v of
        YAML_DATA_SCALAR scalar \<Rightarrow> True
      | YAML_DATA_SEQ ds ps \<Rightarrow> list_all distinct_keys ds
      | YAML_DATA_OBJ fs \<Rightarrow>
          distinct (map key fs) \<and> list_all (\<lambda>kd. distinct_keys (kdata kd)) fs)"

fun seq_slots_ok :: "yaml_data \<Rightarrow> bool" where
  "seq_slots_ok (YAML_DATA v tg pr) =
     (case v of
        YAML_DATA_SCALAR scalar \<Rightarrow> True
      | YAML_DATA_SEQ ds ps \<Rightarrow>
          (ps = [] \<or> length ps = length ds) \<and> list_all seq_slots_ok ds
      | YAML_DATA_OBJ fs \<Rightarrow> list_all (\<lambda>kd. seq_slots_ok (kdata kd)) fs)"

definition ast_inv :: "yaml_data \<Rightarrow> bool" where
  "ast_inv d \<longleftrightarrow> distinct_keys d \<and> seq_slots_ok d"

text \<open>
  \<open>res_inv P r\<close>: a value returned satisfies \<open>P\<close>, and a failure has left a message in the
  error buffer of the environment.
\<close>

definition res_inv :: "('a \<Rightarrow> bool) \<Rightarrow> 'a parse_res \<Rightarrow> bool" where
  "res_inv P r =
     (case r of Parsed env v \<Rightarrow> P v | Failed env \<Rightarrow> parse_err env \<noteq> [] | OutOfFuel \<Rightarrow> True
      | NotModelled \<Rightarrow> True)"


text \<open>\<open>res_val P r\<close>: a value returned satisfies \<open>P\<close>.\<close>

definition res_val :: "('a \<Rightarrow> bool) \<Rightarrow> 'a parse_res \<Rightarrow> bool" where
  "res_val P r = (case r of Parsed env v \<Rightarrow> P v | _ \<Rightarrow> True)"

text \<open>No key of the pairs starts with \<^verbatim>\<open>$\<close>.\<close>

definition no_variable_key :: "yaml_key_data list \<Rightarrow> bool" where
  "no_variable_key fs = list_all (\<lambda>pair. \<not> lstr_startswith (key pair) ''$'') fs"

text \<open>
  \<open>obj_extends pairs only_variables d\<close>: the data is an object whose pairs are \<open>pairs\<close>
  followed by others; its keys are distinct and, outside of the variable settings, none
  of the keys that follow starts with \<^verbatim>\<open>$\<close>.
\<close>

definition obj_extends :: "yaml_key_data list \<Rightarrow> bool \<Rightarrow> yaml_data \<Rightarrow> bool" where
  "obj_extends pairs only_variables d =
     (case dvalue d of
        YAML_DATA_OBJ fs \<Rightarrow>
          take (length pairs) fs = pairs \<and> distinct (map key fs)
          \<and> (only_variables \<or> no_variable_key (drop (length pairs) fs))
      | _ \<Rightarrow> False)"
section \<open>Properties of the packer\<close>

subsection \<open>Writes to an in-memory buffer\<close>

lemma do_write_sb:
  "write_cb env = sb_write \<Longrightarrow>
   do_write env buf = (int (length buf), env\<lparr>priv := priv env @ buf\<rparr>)"
  by (simp add: do_write_def sb_write_def)

lemma do_indent_loop_sb:
  "write_cb env = sb_write \<Longrightarrow>
   do_indent_loop env todo = (True, env\<lparr>priv := priv env @ replicate (nat todo) SPC\<rparr>)"
proof (induction env todo rule: do_indent_loop.induct)
  case (1 env todo)
  show ?case
  proof (cases "todo > 0")
    case False
    then show ?thesis by (subst do_indent_loop.simps) simp
  next
    case True
    have step: "write_cb env (priv env) (replicate (nat (min 36 todo)) SPC)
                  = Inr (priv env @ replicate (nat (min 36 todo)) SPC)"
      using "1.prems" by (simp add: sb_write_def)
    have ih: "do_indent_loop (env\<lparr>priv := priv env @ replicate (nat (min 36 todo)) SPC\<rparr>)
                 (todo - min 36 todo)
              = (True, env\<lparr>priv := (priv env @ replicate (nat (min 36 todo)) SPC)
                                       @ replicate (nat (todo - min 36 todo)) SPC\<rparr>)"
      using "1.IH"[OF True step] "1.prems" by simp
    have "nat (min 36 todo) + nat (todo - min 36 todo) = nat todo"
      using True by auto
    then have "replicate (nat (min 36 todo)) SPC @ replicate (nat (todo - min 36 todo)) SPC
               = replicate (nat todo) SPC"
      by (simp add: replicate_add [symmetric])
    then show ?thesis
      using True step ih by (subst do_indent_loop.simps) simp
  qed
qed

lemma do_indent_sb:
  "write_cb env = sb_write \<Longrightarrow>
   do_indent env = (indent_lvl env,
                    env\<lparr>priv := priv env @ replicate (nat (indent_lvl env)) SPC,
                        state := PACK_STATE_CLEAN\<rparr>)"
  by (simp add: do_indent_def do_indent_loop_sb)

subsection \<open>The state machine\<close>

text \<open>
  C8. A new environment is in state \<^verbatim>\<open>ON_NEWLINE\<close>. From any state, at logical level
  \<open>lvl\<close> (an indent level of \<open>lvl\<close> times \<^verbatim>\<open>YAML_STD_INDENT\<close> spaces) and writing to a buffer,
  going to a state appends exactly the bytes of the specification's table, returns their
  number and leaves the packer in the new state. In particular from \<^verbatim>\<open>ON_KEY\<close> a space
  is written on the way to \<^verbatim>\<open>CLEAN\<close>, a newline and the indent on the way to
  \<^verbatim>\<open>ON_DASH\<close> or \<^verbatim>\<open>ON_KEY\<close>, and the indent is \<open>lvl\<close> times 2 spaces.
\<close>

theorem yaml_pack_goto_state_table:
  "state t_yaml_pack_env_new = PACK_STATE_ON_NEWLINE
   \<and> (let env' = env\<lparr>write_cb := sb_write, indent_lvl := int lvl * YAML_STD_INDENT\<rparr>;
          bytes = spec_emit_bytes lvl (spec_transition (state env) new_state)
      in yaml_pack_goto_state env' new_state
           = (int (length bytes), env'\<lparr>priv := priv env @ bytes, state := new_state\<rparr>))
   \<and> spec_emit_bytes lvl (spec_transition PACK_STATE_ON_KEY PACK_STATE_CLEAN) = [SPC]
   \<and> spec_emit_bytes lvl (spec_transition PACK_STATE_ON_KEY PACK_STATE_ON_DASH)
       = NL # replicate (lvl * 2) SPC
   \<and> spec_emit_bytes lvl (spec_transition PACK_STATE_ON_KEY PACK_STATE_ON_KEY)
       = NL # replicate (lvl * 2) SPC"
proof -
  have new: "state t_yaml_pack_env_new = PACK_STATE_ON_NEWLINE"
    by (simp add: t_yaml_pack_env_new_def)
  have n: "nat (int lvl * 2) = lvl * 2"
    by (simp add: nat_mult_distrib)
  have tr: "yaml_pack_goto_state
              (env\<lparr>write_cb := sb_write, indent_lvl := int lvl * YAML_STD_INDENT\<rparr>) new_state
            = (int (length (spec_emit_bytes lvl (spec_transition (state env) new_state))),
               env\<lparr>write_cb := sb_write, indent_lvl := int lvl * YAML_STD_INDENT,
                   priv := priv env @ spec_emit_bytes lvl (spec_transition (state env) new_state),
                   state := new_state\<rparr>)"
    by (cases "state env"; cases new_state)
       (simp_all add: yaml_pack_goto_state_def PUTS_def INDENT_def RETHROW_ADD_def
          do_write_sb do_indent_sb YAML_STD_INDENT_def n)
  show ?thesis
    using new tr by (simp add: Let_def)
qed

subsection \<open>Quoting of strings\<close>

lemma invalid_start_iff:
  "ctype_desc_contains yaml_invalid_raw_string_start c
   \<longleftrightarrow> c \<in> {CHR ''!'', CHR 0x22, CHR ''&'', CHR ''*'', CHR ''-'', CHR ''.'', CHR ''['', CHR ''{''}"
proof (cases c)
  case (Char x1 x2 x3 x4 x5 x6 x7 x8)
  show ?thesis
    unfolding Char
    by (cases x1; cases x2; cases x3; cases x4; cases x5; cases x6; cases x7; cases x8)
       (simp_all add: ctype_desc_contains_def yaml_invalid_raw_string_start_def bit_numeral_simps)
qed

lemma raw_contains_iff:
  "ctype_desc_contains yaml_raw_string_contains c
   \<longleftrightarrow> (32 \<le> (of_char c :: nat) \<and> (of_char c :: nat) \<le> 127
        \<and> c \<noteq> CHR '':'' \<and> c \<noteq> CHR ''#'')"
proof (cases c)
  case (Char x1 x2 x3 x4 x5 x6 x7 x8)
  show ?thesis
    unfolding Char
    by (cases x1; cases x2; cases x3; cases x4; cases x5; cases x6; cases x7; cases x8)
       (simp_all add: ctype_desc_contains_def yaml_raw_string_contains_def bit_numeral_simps)
qed

lemma printable_iff:
  "spec_printable c \<longleftrightarrow> (32 \<le> (of_char c :: nat) \<and> (of_char c :: nat) \<le> 127 \<and> c \<noteq> CHR 0x7F)"
proof (cases c)
  case (Char x1 x2 x3 x4 x5 x6 x7 x8)
  show ?thesis
    unfolding Char
    by (cases x1; cases x2; cases x3; cases x4; cases x5; cases x6; cases x7; cases x8)
       (simp_all add: spec_printable_def)
qed

text \<open>
  What \<^verbatim>\<open>yaml_string_must_be_quoted\<close> decides: the rule of the specification, with the
  bytes \<^verbatim>\<open>0x20\<close> to \<^verbatim>\<open>0x7f\<close> in the place of the printable ones.
\<close>

lemma yaml_string_must_be_quoted_iff:
  "yaml_string_must_be_quoted s \<longleftrightarrow>
     (s = []
      \<or> hd s \<in> {CHR ''!'', CHR 0x22, CHR ''&'', CHR ''*'', CHR ''-'', CHR ''.'', CHR ''['', CHR ''{''}
      \<or> list_ex (\<lambda>c. c = CHR '':'' \<or> c = CHR ''#''
                      \<or> \<not> (32 \<le> (of_char c :: nat) \<and> (of_char c :: nat) \<le> 127)) s
      \<or> hd s = SPC \<or> last s = SPC \<or> s = ''~'' \<or> s = ''null'')"
proof (cases s)
  case Nil
  then show ?thesis by (simp add: yaml_string_must_be_quoted_def)
next
  case (Cons a as)
  have m: "lstr_match_ctype s yaml_raw_string_contains
           \<longleftrightarrow> \<not> list_ex (\<lambda>c. c = CHR '':'' \<or> c = CHR ''#''
                      \<or> \<not> (32 \<le> (of_char c :: nat) \<and> (of_char c :: nat) \<le> 127)) s"
    by (auto simp: lstr_match_ctype_def list_all_iff list_ex_iff raw_contains_iff)
  have st: "lstr_startswith s '' '' \<longleftrightarrow> hd s = SPC"
    using Cons by (simp add: lstr_startswith_def)
  have en: "lstr_endswith s '' '' \<longleftrightarrow> last s = SPC"
  proof -
    have "drop (length s - 1) s = [last s]"
      using Cons by (metis append_butlast_last_id append_eq_conv_conj length_butlast list.distinct(1))
    then show ?thesis
      using Cons by (simp add: lstr_endswith_def)
  qed
  show ?thesis
    unfolding yaml_string_must_be_quoted_def m st en invalid_start_iff
    using Cons by auto
qed

text \<open>The byte \<^verbatim>\<open>0x7f\<close> (DEL) is the only one on which the code and the rule differ.\<close>

lemma yaml_string_must_be_quoted_spec:
  "CHR 0x7F \<notin> set s \<Longrightarrow> yaml_string_must_be_quoted s = spec_must_be_quoted s"
proof -
  assume del: "CHR 0x7F \<notin> set s"
  have ex: "list_ex (\<lambda>c. c = CHR '':'' \<or> c = CHR ''#'' \<or> \<not> spec_printable c) s
            = list_ex (\<lambda>c. c = CHR '':'' \<or> c = CHR ''#''
                      \<or> \<not> (32 \<le> (of_char c :: nat) \<and> (of_char c :: nat) \<le> 127)) s"
    using del by (auto simp: list_ex_iff printable_iff)
  have hash: "s \<noteq> [] \<Longrightarrow> hd s = CHR ''#''
              \<Longrightarrow> list_ex (\<lambda>c. c = CHR '':'' \<or> c = CHR ''#''
                      \<or> \<not> (32 \<le> (of_char c :: nat) \<and> (of_char c :: nat) \<le> 127)) s"
    by (cases s) (auto simp: list_ex_iff)
  show ?thesis
    unfolding yaml_string_must_be_quoted_iff spec_must_be_quoted_def ex spec_quote_start_def
    using hash by (cases "s = []") auto
qed

subsection \<open>Packing into a buffer: the macros\<close>

lemma PUTS_sb:
  "write_cb env = sb_write \<Longrightarrow>
   PUTS res env s k = k (res + int (length s)) (env\<lparr>priv := priv env @ s\<rparr>)"
  by (simp add: PUTS_def RETHROW_ADD_def do_write_sb)

lemma yaml_pack_goto_state_sb:
  "write_cb env = sb_write \<Longrightarrow> 0 \<le> indent_lvl env \<Longrightarrow>
   yaml_pack_goto_state env st
     = (int (length (goto_bytes (state env) st (indent_lvl env))),
        env\<lparr>priv := priv env @ goto_bytes (state env) st (indent_lvl env), state := st\<rparr>)"
  by (cases "state env"; cases st)
     (simp_all add: yaml_pack_goto_state_def PUTS_def INDENT_def RETHROW_ADD_def
        do_write_sb do_indent_sb goto_bytes_def)

lemma GOTO_STATE_sb:
  "write_cb env = sb_write \<Longrightarrow> 0 \<le> indent_lvl env \<Longrightarrow>
   GOTO_STATE res env st k
     = k (res + int (length (goto_bytes (state env) st (indent_lvl env))))
         (env\<lparr>priv := priv env @ goto_bytes (state env) st (indent_lvl env), state := st\<rparr>)"
  by (simp add: GOTO_STATE_def RETHROW_ADD_def yaml_pack_goto_state_sb)

lemma upd_simps [simp]:
  "write_cb (upd env w st av ap) = write_cb env"
  "indent_lvl (upd env w st av ap) = indent_lvl env"
  "pres (upd env w st av ap) = pres env"
  "priv (upd env w st av ap) = priv env @ w"
  "state (upd env w st av ap) = st"
  "current_path_pos (upd env w st av ap) = current_path_pos env"
  "err (upd env w st av ap) = err env"
  "outdirpath (upd env w st av ap) = outdirpath env"
  "flags (upd env w st av ap) = flags env"
  "active_vars (upd env w st av ap) = av"
  "absolute_path (upd env w st av ap) = ap"
  by (simp_all add: upd_def)

lemma upd_upd [simp]:
  "upd (upd env w st av ap) w' st' av' ap' = upd env (w @ w') st' av' ap'"
  by (simp add: upd_def)

lemma upd_indent [simp]:
  "upd (env\<lparr>indent_lvl := i\<rparr>) w st av ap = (upd env w st av ap)\<lparr>indent_lvl := i\<rparr>"
  by (simp add: upd_def)

lemma upd_indent_upd [simp]:
  "upd ((upd env w st av ap)\<lparr>indent_lvl := i\<rparr>) w' st' av' ap'
     = (upd env (w @ w') st' av' ap')\<lparr>indent_lvl := i\<rparr>"
  by (simp add: upd_def)

lemma upd_intro:
  "env\<lparr>priv := priv env @ w, state := st\<rparr> = upd env w st (active_vars env) (absolute_path env)"
  "env\<lparr>priv := priv env @ w\<rparr> = upd env w (state env) (active_vars env) (absolute_path env)"
  "env\<lparr>state := st\<rparr> = upd env [] st (active_vars env) (absolute_path env)"
  "env = upd env [] (state env) (active_vars env) (absolute_path env)"
  by (simp_all add: upd_def)

lemma packs_toI: "0 \<le> n \<Longrightarrow> packs_to env (n, upd env w st av ap)"
  by (auto simp: packs_to_def)

lemma packs_toE:
  assumes "packs_to env r"
  obtains n w st av ap where "r = (n, upd env w st av ap)" and "0 \<le> n"
  using assms by (cases r) (auto simp: packs_to_def)

lemma ends_one_nl_append:
  "c \<noteq> NL \<Longrightarrow> ends_one_nl (p @ w @ [c, NL])"
  unfolding ends_one_nl_def by (metis append.assoc)

lemma packs_to_fields:
  "packs_to env r \<longleftrightarrow>
     0 \<le> fst r \<and> write_cb (snd r) = write_cb env \<and> indent_lvl (snd r) = indent_lvl env
     \<and> pres (snd r) = pres env \<and> current_path_pos (snd r) = current_path_pos env
     \<and> err (snd r) = err env \<and> outdirpath (snd r) = outdirpath env
     \<and> flags (snd r) = flags env \<and> (\<exists>w. priv (snd r) = priv env @ w)"
proof
  assume "packs_to env r"
  then show "0 \<le> fst r \<and> write_cb (snd r) = write_cb env \<and> indent_lvl (snd r) = indent_lvl env
     \<and> pres (snd r) = pres env \<and> current_path_pos (snd r) = current_path_pos env
     \<and> err (snd r) = err env \<and> outdirpath (snd r) = outdirpath env
     \<and> flags (snd r) = flags env \<and> (\<exists>w. priv (snd r) = priv env @ w)"
    by (auto simp: packs_to_def upd_def)
next
  assume a: "0 \<le> fst r \<and> write_cb (snd r) = write_cb env \<and> indent_lvl (snd r) = indent_lvl env
     \<and> pres (snd r) = pres env \<and> current_path_pos (snd r) = current_path_pos env
     \<and> err (snd r) = err env \<and> outdirpath (snd r) = outdirpath env
     \<and> flags (snd r) = flags env \<and> (\<exists>w. priv (snd r) = priv env @ w)"
  then obtain w where w: "priv (snd r) = priv env @ w"
    by blast
  have "snd r = upd env w (state (snd r)) (active_vars (snd r)) (absolute_path (snd r))"
    using a w by (intro yaml_pack_env.equality) (simp_all add: upd_def)
  then show "packs_to env r"
    using a unfolding packs_to_def by blast
qed

lemma put_empty_lines_sb:
  "write_cb env = sb_write \<Longrightarrow>
   put_empty_lines res env n k = k (res + int n) (env\<lparr>priv := priv env @ replicate n NL\<rparr>)"
proof (induction n arbitrary: res env)
  case 0
  then show ?case by simp
next
  case (Suc n)
  have "replicate n NL @ [NL] = NL # replicate n NL"
    by (simp add: replicate_append_same)
  then show ?case
    using Suc.prems by (simp add: PUTS_sb Suc.IH algebra_simps)
qed

lemma yaml_pack_empty_lines_sb:
  "write_cb env = sb_write \<Longrightarrow> 0 \<le> indent_lvl env \<Longrightarrow>
   packs_to env (yaml_pack_empty_lines env n)"
  by (simp add: yaml_pack_empty_lines_def GOTO_STATE_sb put_empty_lines_sb packs_to_fields)

lemma put_comment_sb:
  "write_cb env = sb_write \<Longrightarrow> 0 \<le> indent_lvl env \<Longrightarrow>
   put_comment res env c k
     = k (res + int (length (goto_bytes (state env) PACK_STATE_CLEAN (indent_lvl env) @ ''# '' @ c @ [NL])))
         (upd env (goto_bytes (state env) PACK_STATE_CLEAN (indent_lvl env) @ ''# '' @ c @ [NL])
            PACK_STATE_ON_NEWLINE (active_vars env) (absolute_path env))"
  by (simp add: put_comment_def GOTO_STATE_sb PUTS_sb upd_def algebra_simps)

lemma put_prefix_comments_sb:
  "write_cb env = sb_write \<Longrightarrow> 0 \<le> indent_lvl env \<Longrightarrow>
   \<exists>w st. put_prefix_comments res env cs k
       = k (res + int (length w)) (upd env w st (active_vars env) (absolute_path env))"
proof (induction cs arbitrary: res env)
  case Nil
  show ?case
    by (rule exI[of _ "[]"], rule exI[of _ "state env"]) (simp add: upd_def)
next
  case (Cons c cs)
  let ?w = "goto_bytes (state env) PACK_STATE_CLEAN (indent_lvl env) @ ''# '' @ c @ [NL]"
  let ?e = "upd env ?w PACK_STATE_ON_NEWLINE (active_vars env) (absolute_path env)"
  have e: "write_cb ?e = sb_write" "0 \<le> indent_lvl ?e"
    using Cons.prems by simp_all
  obtain w st where
    "put_prefix_comments (res + int (length ?w)) ?e cs k
       = k (res + int (length ?w) + int (length w)) (upd ?e w st (active_vars ?e) (absolute_path ?e))"
    using Cons.IH[OF e] by blast
  then show ?case
    using Cons.prems 
    apply (simp add: put_comment_sb del: upd_upd)
    apply (rule exI[of _ "?w @ w"], rule exI[of _ st])
    apply (simp add: upd_def algebra_simps)
    done
qed

lemma yaml_pack_pres_node_prefix_sb:
  "write_cb env = sb_write \<Longrightarrow> 0 \<le> indent_lvl env \<Longrightarrow>
   packs_to env (yaml_pack_pres_node_prefix env node)"
proof (cases node)
  case None
  then show ?thesis
    by (simp add: yaml_pack_pres_node_prefix_def packs_to_fields)
next
  case (Some n)
  assume a: "write_cb env = sb_write" "0 \<le> indent_lvl env"
  obtain m w st av ap where el: "yaml_pack_empty_lines env (empty_lines n) = (m, upd env w st av ap)" "0 \<le> m"
    using yaml_pack_empty_lines_sb[OF a] by (rule packs_toE)
  let ?e = "upd env w st av ap"
  have e: "write_cb ?e = sb_write" "0 \<le> indent_lvl ?e"
    using a by simp_all
  show ?thesis
  proof (cases "prefix_comments n = []")
    case True
    then show ?thesis
      using Some el by (simp add: yaml_pack_pres_node_prefix_def ADD_def packs_to_fields)
  next
    case False
    let ?e2 = "?e\<lparr>priv := priv ?e @ goto_bytes (state ?e) PACK_STATE_ON_NEWLINE (indent_lvl ?e),
                           state := PACK_STATE_ON_NEWLINE\<rparr>"
    have e2: "write_cb ?e2 = sb_write" "0 \<le> indent_lvl ?e2"
      using a by simp_all
    obtain w2 st2 where
      "put_prefix_comments (m + int (length (goto_bytes (state ?e) PACK_STATE_ON_NEWLINE (indent_lvl ?e)))) ?e2
           (prefix_comments n) (\<lambda>res env. (res, env))
       = (m + int (length (goto_bytes (state ?e) PACK_STATE_ON_NEWLINE (indent_lvl ?e))) + int (length w2),
           upd ?e2 w2 st2 (active_vars ?e2) (absolute_path ?e2))"
      using put_prefix_comments_sb[OF e2] by blast
    then show ?thesis
      using Some el False e
      by (simp add: yaml_pack_pres_node_prefix_def ADD_def GOTO_STATE_sb packs_to_fields)
  qed
qed

lemma no_nl_last: "w \<noteq> [] \<Longrightarrow> NL \<notin> set w \<Longrightarrow> last w \<noteq> NL"
  using last_in_set by metis

lemma yaml_pack_pres_node_inline_sb:
  assumes "write_cb env = sb_write" "0 \<le> indent_lvl env" "wf_node node"
  shows "packs_to env (yaml_pack_pres_node_inline env node)
         \<and> (yaml_pack_pres_node_inline env node = (0, env)
            \<or> (state (snd (yaml_pack_pres_node_inline env node)) = PACK_STATE_ON_NEWLINE
                \<and> ends_one_nl (priv (snd (yaml_pack_pres_node_inline env node)))))"
proof (cases node)
  case None
  then show ?thesis
    by (simp add: yaml_pack_pres_node_inline_def packs_to_fields)
next
  case (Some n)
  show ?thesis
  proof (cases "inline_comment n = []")
    case True
    then show ?thesis
      using Some by (simp add: yaml_pack_pres_node_inline_def packs_to_fields)
  next
    case False
    then have c: "last (inline_comment n) \<noteq> NL"
      using assms(3) Some no_nl_last[of "inline_comment n"] by (simp add: wf_node_def)
    let ?g = "goto_bytes (state env) PACK_STATE_CLEAN (indent_lvl env)"
    have "priv env @ ?g @ ''# '' @ inline_comment n @ [NL]
          = (priv env @ ?g @ ''# '' @ butlast (inline_comment n)) @ [last (inline_comment n), NL]"
      using False by simp
    then have "ends_one_nl (priv env @ ?g @ ''# '' @ inline_comment n @ [NL])"
      using c unfolding ends_one_nl_def by blast
    then show ?thesis
      using Some False assms(1,2)
      by (simp add: yaml_pack_pres_node_inline_def put_comment_sb packs_to_fields)
  qed
qed

lemma yaml_pack_tag_sb:
  "write_cb env = sb_write \<Longrightarrow> 0 \<le> indent_lvl env \<Longrightarrow> packs_to env (yaml_pack_tag env tg)"
  by (cases tg) (simp_all add: yaml_pack_tag_def GOTO_STATE_sb PUTS_sb packs_to_fields)

lemma string_of_nat_digits: "string_of_nat n \<noteq> [] \<and> NL \<notin> set (string_of_nat n)"
proof (induction n rule: string_of_nat.induct)
  case (1 n)
  have d: "m < 10 \<Longrightarrow> char_of (48 + m) \<noteq> NL" for m :: nat
  proof
    assume m: "m < 10" and "char_of (48 + m) = NL"
    then have "(of_char (char_of (48 + m) :: char) :: nat) = of_char NL"
      by simp
    then show False
      using m by (simp add: of_char_of)
  qed
  show ?case
  proof (cases "n < 10")
    case True
    then show ?thesis
      using d[of n] by (subst string_of_nat.simps, subst (2) string_of_nat.simps) simp
  next
    case False
    then show ?thesis
      using 1 d[of "n mod 10"]
      by (subst string_of_nat.simps, subst (2) string_of_nat.simps) simp
  qed
qed

lemma string_of_int_digits: "string_of_int i \<noteq> [] \<and> NL \<notin> set (string_of_int i)"
  using string_of_nat_digits by (simp add: string_of_int_def)

lemma yaml_pack_string_loop_sb:
  "\<exists>body. \<forall>res env k. write_cb env = sb_write \<longrightarrow>
      yaml_pack_string_loop res env ps k
        = k (res + int (length body)) (env\<lparr>priv := priv env @ body\<rparr>)"
proof (induction "length ps" arbitrary: ps rule: less_induct)
  case less
  let ?span = "takeWhile (ctype_desc_contains safe_chars) ps"
  let ?d = "dropWhile (ctype_desc_contains safe_chars) ps"
  let ?c = "case ps_getuc ?d of Some (c, rest) \<Rightarrow> c | None \<Rightarrow> of_char (hd ?d)"
  let ?rest = "case ps_getuc ?d of Some (c, rest) \<Rightarrow> rest | None \<Rightarrow> tl ?d"
  show ?case
  proof (cases "ps = []")
    case True
    show ?thesis
      by (rule exI[of _ "[]"]) (simp add: True yaml_pack_string_loop.simps)
  next
    case ne: False
    show ?thesis
    proof (cases "?d = []")
      case True
      show ?thesis
        by (rule exI[of _ ?span])
           (subst yaml_pack_string_loop.simps, simp add: ne True PUTS_sb del: dropWhile_eq_Nil_conv)
    next
      case False
      have "length ?rest < length ?d"
        using False ps_getuc_shorter[of ?d] by (cases "ps_getuc ?d") auto
      moreover have "length ?d \<le> length ps"
        by (rule length_dropWhile_le)
      ultimately have "length ?rest < length ps"
        by simp
      from less[OF this] obtain body where
        b: "\<And>res env k. write_cb env = sb_write \<Longrightarrow>
              yaml_pack_string_loop res env ?rest k
                = k (res + int (length body)) (env\<lparr>priv := priv env @ body\<rparr>)"
        by blast
      show ?thesis
        by (rule exI[of _ "?span @ yaml_escape_char ?c @ body"])
           (subst yaml_pack_string_loop.simps,
            simp add: ne False PUTS_sb b algebra_simps del: dropWhile_eq_Nil_conv)
    qed
  qed
qed

lemma yaml_pack_string_sb:
  "write_cb env = sb_write \<Longrightarrow>
   \<exists>w. yaml_pack_string env s = (int (length w), env\<lparr>priv := priv env @ w\<rparr>)
       \<and> w \<noteq> [] \<and> last w \<noteq> NL
       \<and> (if yaml_string_must_be_quoted s
           then hd w = CHR 0x22 \<and> last w = CHR 0x22 \<and> 2 \<le> length w
           else w = s)"
proof (cases "yaml_string_must_be_quoted s")
  case False
  assume sb: "write_cb env = sb_write"
  have ne: "s \<noteq> []"
    using False by (auto simp: yaml_string_must_be_quoted_iff)
  have "\<not> list_ex (\<lambda>c. c = CHR '':'' \<or> c = CHR ''#''
                      \<or> \<not> (32 \<le> (of_char c :: nat) \<and> (of_char c :: nat) \<le> 127)) s"
    using False by (simp add: yaml_string_must_be_quoted_iff)
  then have "32 \<le> (of_char (last s) :: nat)"
    using ne last_in_set[OF ne] by (auto simp: list_ex_iff)
  then have "last s \<noteq> NL"
    by auto
  then show ?thesis
    using False sb ne
    by (intro exI[of _ s]) (simp add: yaml_pack_string_def PUTS_sb)
next
  case True
  assume sb: "write_cb env = sb_write"
  obtain body where
    b: "\<And>res env k. write_cb env = sb_write \<Longrightarrow>
          yaml_pack_string_loop res env s k
            = k (res + int (length body)) (env\<lparr>priv := priv env @ body\<rparr>)"
    using yaml_pack_string_loop_sb[of s] by blast
  show ?thesis
    using True sb
    by (intro exI[of _ "CHR 0x22 # body @ [CHR 0x22]"])
       (simp add: yaml_pack_string_def PUTS_sb b)
qed

lemma scalar_token_sb:
  assumes "write_cb env = sb_write" "0 \<le> indent_lvl env" "t \<noteq> []" "last t \<noteq> NL"
  shows "\<exists>w. GOTO_STATE 0 env PACK_STATE_CLEAN (\<lambda>res env.
                  PUTS res env t (\<lambda>res env. (res, env\<lparr>state := PACK_STATE_AFTER_DATA\<rparr>)))
                 = (int (length w),
                    upd env w PACK_STATE_AFTER_DATA (active_vars env) (absolute_path env))
               \<and> w \<noteq> [] \<and> last w \<noteq> NL"
  using assms
  by (intro exI[of _ "goto_bytes (state env) PACK_STATE_CLEAN (indent_lvl env) @ t"])
     (simp add: GOTO_STATE_sb PUTS_sb upd_def)

lemma yaml_pack_scalar_sb:
  assumes "write_cb env = sb_write" "0 \<le> indent_lvl env" "wf_scalar scalar"
  shows "\<exists>w. yaml_pack_scalar env scalar tg
                 = (int (length w),
                    upd env w PACK_STATE_AFTER_DATA (active_vars env) (absolute_path env))
               \<and> w \<noteq> [] \<and> last w \<noteq> NL"
proof (cases scalar)
  case (YAML_SCALAR_STRING s)
  let ?g = "goto_bytes (state env) PACK_STATE_CLEAN (indent_lvl env)"
  let ?e = "env\<lparr>priv := priv env @ ?g, state := PACK_STATE_CLEAN\<rparr>"
  have e: "write_cb ?e = sb_write"
    using assms by simp
  obtain w where w: "yaml_pack_string ?e s = (int (length w), ?e\<lparr>priv := priv ?e @ w\<rparr>)"
    "w \<noteq> []" "last w \<noteq> NL"
    using yaml_pack_string_sb[OF e] by blast
  show ?thesis
    using assms(1,2) YAML_SCALAR_STRING w
    by (intro exI[of _ "?g @ w"])
       (simp add: yaml_pack_scalar_def GOTO_STATE_sb ADD_def upd_def)
next
  case (YAML_SCALAR_DOUBLE d)
  show ?thesis
  proof (cases d)
    case DBL_INFINITY
    have "yaml_pack_scalar env scalar tg = GOTO_STATE 0 env PACK_STATE_CLEAN (\<lambda>res env.
            PUTS res env ''.Inf'' (\<lambda>res env. (res, env\<lparr>state := PACK_STATE_AFTER_DATA\<rparr>)))"
      by (simp add: yaml_pack_scalar_def YAML_SCALAR_DOUBLE DBL_INFINITY)
    then show ?thesis
      using scalar_token_sb[OF assms(1,2), of "''.Inf''"] by simp
  next
    case DBL_NEG_INFINITY
    have "yaml_pack_scalar env scalar tg = GOTO_STATE 0 env PACK_STATE_CLEAN (\<lambda>res env.
            PUTS res env ''-.Inf'' (\<lambda>res env. (res, env\<lparr>state := PACK_STATE_AFTER_DATA\<rparr>)))"
      by (simp add: yaml_pack_scalar_def YAML_SCALAR_DOUBLE DBL_NEG_INFINITY)
    then show ?thesis
      using scalar_token_sb[OF assms(1,2), of "''-.Inf''"] by simp
  next
    case DBL_NAN
    have "yaml_pack_scalar env scalar tg = GOTO_STATE 0 env PACK_STATE_CLEAN (\<lambda>res env.
            PUTS res env ''.NaN'' (\<lambda>res env. (res, env\<lparr>state := PACK_STATE_AFTER_DATA\<rparr>)))"
      by (simp add: yaml_pack_scalar_def YAML_SCALAR_DOUBLE DBL_NAN)
    then show ?thesis
      using scalar_token_sb[OF assms(1,2), of "''.NaN''"] by simp
  next
    case (DBL_FINITE g)
    then have g: "g \<noteq> []" "last g \<noteq> NL"
      using assms(3) YAML_SCALAR_DOUBLE no_nl_last[of g] by auto
    have "yaml_pack_scalar env scalar tg = GOTO_STATE 0 env PACK_STATE_CLEAN (\<lambda>res env.
            PUTS res env g (\<lambda>res env. (res, env\<lparr>state := PACK_STATE_AFTER_DATA\<rparr>)))"
      by (simp add: yaml_pack_scalar_def YAML_SCALAR_DOUBLE DBL_FINITE)
    then show ?thesis
      using scalar_token_sb[OF assms(1,2) g] by simp
  qed
next
  case (YAML_SCALAR_UINT u)
  have g: "string_of_nat (unat u) \<noteq> []" "last (string_of_nat (unat u)) \<noteq> NL"
    using string_of_nat_digits[of "unat u"] no_nl_last by auto
  have "yaml_pack_scalar env scalar tg = GOTO_STATE 0 env PACK_STATE_CLEAN (\<lambda>res env.
          PUTS res env (string_of_nat (unat u))
            (\<lambda>res env. (res, env\<lparr>state := PACK_STATE_AFTER_DATA\<rparr>)))"
    by (simp add: yaml_pack_scalar_def YAML_SCALAR_UINT)
  then show ?thesis
    using scalar_token_sb[OF assms(1,2) g] by simp
next
  case (YAML_SCALAR_INT i)
  have g: "string_of_int (sint i) \<noteq> []" "last (string_of_int (sint i)) \<noteq> NL"
    using string_of_int_digits[of "sint i"] no_nl_last by auto
  have "yaml_pack_scalar env scalar tg = GOTO_STATE 0 env PACK_STATE_CLEAN (\<lambda>res env.
          PUTS res env (string_of_int (sint i))
            (\<lambda>res env. (res, env\<lparr>state := PACK_STATE_AFTER_DATA\<rparr>)))"
    by (simp add: yaml_pack_scalar_def YAML_SCALAR_INT)
  then show ?thesis
    using scalar_token_sb[OF assms(1,2) g] by simp
next
  case (YAML_SCALAR_BOOL b)
  have "yaml_pack_scalar env scalar tg = GOTO_STATE 0 env PACK_STATE_CLEAN (\<lambda>res env.
          PUTS res env (if b then ''true'' else ''false'')
            (\<lambda>res env. (res, env\<lparr>state := PACK_STATE_AFTER_DATA\<rparr>)))"
    by (simp add: yaml_pack_scalar_def YAML_SCALAR_BOOL)
  then show ?thesis
    using scalar_token_sb[OF assms(1,2), of "if b then ''true'' else ''false''"] by simp
next
  case YAML_SCALAR_NULL
  have "yaml_pack_scalar env scalar tg = GOTO_STATE 0 env PACK_STATE_CLEAN (\<lambda>res env.
          PUTS res env ''~'' (\<lambda>res env. (res, env\<lparr>state := PACK_STATE_AFTER_DATA\<rparr>)))"
    by (simp add: yaml_pack_scalar_def YAML_SCALAR_NULL)
  then show ?thesis
    using scalar_token_sb[OF assms(1,2), of "''~''"] by simp
qed

lemma sb_envD: "sb_env env \<Longrightarrow> write_cb env = sb_write" "sb_env env \<Longrightarrow> 0 \<le> indent_lvl env"
  by (simp_all add: sb_env_def)

lemma sb_env_simps [simp]:
  "sb_env (upd env w st av ap) = sb_env env"
  "sb_env (env\<lparr>priv := p\<rparr>) = sb_env env"
  "sb_env (env\<lparr>state := s\<rparr>) = sb_env env"
  "sb_env (env\<lparr>active_vars := a\<rparr>) = sb_env env"
  "sb_env (env\<lparr>absolute_path := b\<rparr>) = sb_env env"
  by (simp_all add: sb_env_def)

subsection \<open>Packing into a buffer: flow data\<close>

lemma yaml_pack_flow_sb:
  "sb_env env \<longrightarrow> wf_data d \<longrightarrow>
     (\<exists>w. yaml_pack_flow_data env d c
               = (int (length w), upd env w PACK_STATE_CLEAN (active_vars env) (absolute_path env))
             \<and> w \<noteq> [] \<and> last w \<noteq> NL)"
  "sb_env env2 \<longrightarrow> list_all wf_data ds \<longrightarrow>
     (\<exists>w st. yaml_pack_flow_seq_loop res2 env2 ds pos2 k2
               = k2 (res2 + int (length w)) (upd env2 w st (active_vars env2) (absolute_path env2))
             \<and> (ds = [] \<longrightarrow> w = [] \<and> st = state env2)
             \<and> (ds \<noteq> [] \<longrightarrow> w \<noteq> [] \<and> last w \<noteq> NL))"
  "sb_env env3 \<longrightarrow> list_all (\<lambda>kd. wf_data (kdata kd) \<and> wf_node (key_presentation kd)) fs \<longrightarrow>
     (\<exists>w st. yaml_pack_flow_obj_loop res3 env3 fs pos3 k3
               = k3 (res3 + int (length w)) (upd env3 w st (active_vars env3) (absolute_path env3))
             \<and> (fs = [] \<longrightarrow> w = [] \<and> st = state env3)
             \<and> (fs \<noteq> [] \<longrightarrow> w \<noteq> [] \<and> last w \<noteq> NL))"
proof (induction env d c and res2 env2 ds pos2 k2 and res3 env3 fs pos3 k3
       rule: yaml_pack_flow_data_yaml_pack_flow_seq_loop_yaml_pack_flow_obj_loop.induct)
  case (1 env v tg pr can_omit_brackets)
  show ?case
  proof (intro impI)
    assume sb: "sb_env env" and wf: "wf_data (YAML_DATA v tg pr)"
    note sbw = sb_envD[OF sb]
    show "\<exists>w. yaml_pack_flow_data env (YAML_DATA v tg pr) can_omit_brackets
               = (int (length w), upd env w PACK_STATE_CLEAN (active_vars env) (absolute_path env))
             \<and> w \<noteq> [] \<and> last w \<noteq> NL"
    proof (cases v)
      case (YAML_DATA_SCALAR scalar)
      then have "wf_scalar scalar"
        using wf by simp
      from yaml_pack_scalar_sb[OF sbw this, of None]
      obtain w where
        "yaml_pack_scalar env scalar None
           = (int (length w), upd env w PACK_STATE_AFTER_DATA (active_vars env) (absolute_path env))"
        "w \<noteq> []" "last w \<noteq> NL"
        by blast
      then show ?thesis
        using YAML_DATA_SCALAR
        by (intro exI[of _ w]) (simp add: RETHROW_ADD_def upd_def)
    next
      case (YAML_DATA_SEQ ds ps)
      show ?thesis
      proof (cases "ds = []")
        case True
        show ?thesis
          using YAML_DATA_SEQ True sbw
          by (intro exI[of _ "''[]''"]) (simp add: RETHROW_ADD_def PUTS_sb upd_def)
      next
        case False
        let ?e = "env\<lparr>priv := priv env @ ''[ ''\<rparr>"
        have "sb_env ?e" "list_all wf_data ds"
          using sb wf YAML_DATA_SEQ by simp_all
        with "1.IH"(1)[OF refl YAML_DATA_SEQ, where xa=2 and xb="?e"] False
        obtain w st where
          l: "yaml_pack_flow_seq_loop 2 ?e ds 0 (\<lambda>res env. PUTS res env '' ]'' Pair)
              = PUTS (2 + int (length w)) (upd ?e w st (active_vars ?e) (absolute_path ?e)) '' ]'' Pair"
          by auto
        show ?thesis
          using YAML_DATA_SEQ False sbw l
          by (intro exI[of _ "''[ '' @ w @ '' ]''"])
             (simp add: RETHROW_ADD_def PUTS_sb upd_def)
      qed
    next
      case (YAML_DATA_OBJ fs)
      have wfs: "list_all (\<lambda>kd. wf_data (kdata kd) \<and> wf_node (key_presentation kd)) fs"
        using wf YAML_DATA_OBJ by simp
      show ?thesis
      proof (cases "fs = []")
        case True
        show ?thesis
          using YAML_DATA_OBJ True sbw
          by (intro exI[of _ "''{}''"]) (simp add: RETHROW_ADD_def PUTS_sb upd_def)
      next
        case False
        show ?thesis
        proof (cases "can_omit_brackets \<and> length fs = 1")
          case omit: True
          from "1.IH"(3)[OF refl YAML_DATA_OBJ] False omit sb wfs
          obtain w st where
            l: "yaml_pack_flow_obj_loop 0 env fs 0 Pair
                = (0 + int (length w), upd env w st (active_vars env) (absolute_path env))"
            "w \<noteq> []" "last w \<noteq> NL"
            by auto
          show ?thesis
            using YAML_DATA_OBJ False omit l
            by (intro exI[of _ w]) (simp add: RETHROW_ADD_def upd_def)
        next
          case noomit: False
          let ?e = "env\<lparr>priv := priv env @ ''{ ''\<rparr>"
          have "sb_env ?e"
            using sb by simp
          with "1.IH"(2)[OF refl YAML_DATA_OBJ _ noomit, where xa=2 and xb="?e"] False wfs
          obtain w st where
            l: "yaml_pack_flow_obj_loop 2 ?e fs 0 (\<lambda>res env. PUTS res env '' }'' Pair)
                = PUTS (2 + int (length w)) (upd ?e w st (active_vars ?e) (absolute_path ?e)) '' }'' Pair"
            by auto
          show ?thesis
            using YAML_DATA_OBJ False noomit sbw l
            by (intro exI[of _ "''{ '' @ w @ '' }''"])
               (simp add: RETHROW_ADD_def PUTS_sb upd_def)
        qed
      qed
    qed
  qed
next
  case (2 res env pos k)
  show ?case
    by (intro impI exI[of _ "[]"] exI[of _ "state env"]) (simp add: upd_def)
next
  case (3 res env data ds pos k)
  show ?case
  proof (intro impI)
    assume sb: "sb_env env" and wf: "list_all wf_data (data # ds)"
    note sbw = sb_envD[OF sb]
    let ?sep = "if pos > 0 then '', '' else []"
    let ?e = "env\<lparr>priv := priv env @ ?sep\<rparr>"
    have e: "sb_env ?e" by (simp add: sb)
    from "3.IH"(1)[where xa="?e"] e wf
    obtain w where
      d: "yaml_pack_flow_data ?e data True
            = (int (length w), upd ?e w PACK_STATE_CLEAN (active_vars ?e) (absolute_path ?e))"
        "w \<noteq> []" "last w \<noteq> NL"
      by auto
    let ?e2 = "upd ?e w PACK_STATE_CLEAN (active_vars ?e) (absolute_path ?e)"
    have "sb_env ?e2" "list_all wf_data ds"
      using sb wf by simp_all
    with "3.IH"(2)[where xb="res + int (length ?sep) + int (length w)" and xc="?e2"]
    obtain w2 st2 where
      l: "yaml_pack_flow_seq_loop (res + int (length ?sep) + int (length w)) ?e2 ds (pos + 1) k
           = k (res + int (length ?sep) + int (length w) + int (length w2))
               (upd ?e2 w2 st2 (active_vars ?e2) (absolute_path ?e2))"
         "ds = [] \<longrightarrow> w2 = [] \<and> st2 = state ?e2"
         "ds \<noteq> [] \<longrightarrow> w2 \<noteq> [] \<and> last w2 \<noteq> NL"
      by auto
    show "\<exists>w st. yaml_pack_flow_seq_loop res env (data # ds) pos k
               = k (res + int (length w)) (upd env w st (active_vars env) (absolute_path env))
             \<and> (data # ds = [] \<longrightarrow> w = [] \<and> st = state env)
             \<and> (data # ds \<noteq> [] \<longrightarrow> w \<noteq> [] \<and> last w \<noteq> NL)"
    proof (intro exI[of _ "?sep @ w @ w2"] exI[of _ st2] conjI impI)
      have "yaml_pack_flow_seq_loop res env (data # ds) pos k
            = yaml_pack_flow_seq_loop (res + int (length ?sep) + int (length w)) ?e2 ds (pos + 1) k"
        using sbw d by (cases "pos > 0") (simp_all add: PUTS_sb RETHROW_ADD_def)
      also note l(1)
      finally show "yaml_pack_flow_seq_loop res env (data # ds) pos k
            = k (res + int (length (?sep @ w @ w2)))
                (upd env (?sep @ w @ w2) st2 (active_vars env) (absolute_path env))"
        by (simp add: upd_def algebra_simps)
    next
      show "?sep @ w @ w2 \<noteq> []"
        using d(2) by simp
    next
      show "last (?sep @ w @ w2) \<noteq> NL"
        using d(2,3) l(2,3) by (cases "ds = []") simp_all
    qed simp_all
  qed
next
  case (4 res env pos k)
  show ?case
    by (intro impI exI[of _ "[]"] exI[of _ "state env"]) (simp add: upd_def)
next
  case (5 res env kd fs pos k)
  show ?case
  proof (intro impI)
    assume sb: "sb_env env"
      and wf: "list_all (\<lambda>kd. wf_data (kdata kd) \<and> wf_node (key_presentation kd)) (kd # fs)"
    note sbw = sb_envD[OF sb]
    let ?sep = "(if pos > 0 then '', '' else []) @ key kd @ '': ''"
    let ?e = "env\<lparr>priv := priv env @ ?sep\<rparr>"
    have e: "sb_env ?e" by (simp add: sb)
    from "5.IH"(1)[where xe="?e"] e wf
    obtain w where
      d: "yaml_pack_flow_data ?e (kdata kd) False
            = (int (length w), upd ?e w PACK_STATE_CLEAN (active_vars ?e) (absolute_path ?e))"
        "w \<noteq> []" "last w \<noteq> NL"
      by auto
    let ?e2 = "upd ?e w PACK_STATE_CLEAN (active_vars ?e) (absolute_path ?e)"
    have "sb_env ?e2" "list_all (\<lambda>kd. wf_data (kdata kd) \<and> wf_node (key_presentation kd)) fs"
      using sb wf by simp_all
    with "5.IH"(2)[where xf="res + int (length ?sep) + int (length w)" and xg="?e2"]
    obtain w2 st2 where
      l: "yaml_pack_flow_obj_loop (res + int (length ?sep) + int (length w)) ?e2 fs (pos + 1) k
           = k (res + int (length ?sep) + int (length w) + int (length w2))
               (upd ?e2 w2 st2 (active_vars ?e2) (absolute_path ?e2))"
         "fs = [] \<longrightarrow> w2 = [] \<and> st2 = state ?e2"
         "fs \<noteq> [] \<longrightarrow> w2 \<noteq> [] \<and> last w2 \<noteq> NL"
      by auto
    show "\<exists>w st. yaml_pack_flow_obj_loop res env (kd # fs) pos k
               = k (res + int (length w)) (upd env w st (active_vars env) (absolute_path env))
             \<and> (kd # fs = [] \<longrightarrow> w = [] \<and> st = state env)
             \<and> (kd # fs \<noteq> [] \<longrightarrow> w \<noteq> [] \<and> last w \<noteq> NL)"
    proof (intro exI[of _ "?sep @ w @ w2"] exI[of _ st2] conjI impI)
      have "yaml_pack_flow_obj_loop res env (kd # fs) pos k
            = yaml_pack_flow_obj_loop (res + int (length ?sep) + int (length w)) ?e2 fs (pos + 1) k"
        using sbw d by (cases "pos > 0") (simp_all add: PUTS_sb RETHROW_ADD_def algebra_simps)
      also note l(1)
      finally show "yaml_pack_flow_obj_loop res env (kd # fs) pos k
            = k (res + int (length (?sep @ w @ w2)))
                (upd env (?sep @ w @ w2) st2 (active_vars env) (absolute_path env))"
        by (simp add: upd_def algebra_simps)
    next
      show "?sep @ w @ w2 \<noteq> []"
        using d(2) by simp
    next
      show "last (?sep @ w @ w2) \<noteq> NL"
        using d(2,3) l(2,3) by (cases "fs = []") simp_all
    qed simp_all
  qed
qed

subsection \<open>Packing into a buffer: block data\<close>

lemma packs_to_ext: "packs_to env r \<longleftrightarrow> 0 \<le> fst r \<and> ext env (snd r)"
  by (simp add: packs_to_fields ext_def)

lemma ext_refl [simp]: "ext env env"
  by (simp add: ext_def)

lemma ext_trans: "ext a b \<Longrightarrow> ext b c \<Longrightarrow> ext a c"
  by (auto simp: ext_def)

lemma ext_simps [simp]:
  "ext env (upd env w st av ap)"
  "ext env (env\<lparr>priv := priv env @ w\<rparr>)"
  "ext env (env\<lparr>priv := priv env @ w, state := st\<rparr>)"
  "ext env (env\<lparr>state := st\<rparr>)"
  by (simp_all add: ext_def)

lemma ext_state [simp]:
  "ext env (e\<lparr>state := st\<rparr>) = ext env e"
  "ext env (e\<lparr>active_vars := av\<rparr>) = ext env e"
  "ext env (e\<lparr>absolute_path := ap\<rparr>) = ext env e"
  by (simp_all add: ext_def)

lemma ext_sb_env: "ext env env' \<Longrightarrow> sb_env env \<Longrightarrow> sb_env env'"
  by (simp add: ext_def sb_env_def)

lemma ext_wf_pres: "ext env env' \<Longrightarrow> wf_pres (pres env) \<Longrightarrow> wf_pres (pres env')"
  by (simp add: ext_def)

lemma after_data_cong:
  "state e' = state e \<Longrightarrow> priv e' = priv e \<Longrightarrow> after_data e' = after_data e"
  by (simp add: after_data_def)

lemma after_data_token:
  "w \<noteq> [] \<Longrightarrow> last w \<noteq> NL \<Longrightarrow> state e = PACK_STATE_AFTER_DATA \<Longrightarrow> priv e = p @ w
   \<Longrightarrow> after_data e"
  by (simp add: after_data_def)

lemma inline_after_data:
  assumes "sb_env env" "wf_node node" "after_data env"
  shows "after_data (snd (yaml_pack_pres_node_inline env node))"
  using yaml_pack_pres_node_inline_sb[OF sb_envD[OF assms(1)] assms(2)] assms(3)
  by (auto simp: after_data_def)

lemma inline_packs:
  assumes "sb_env env" "wf_node node"
  shows "0 \<le> fst (yaml_pack_pres_node_inline env node)"
        "ext env (snd (yaml_pack_pres_node_inline env node))"
  using yaml_pack_pres_node_inline_sb[OF sb_envD[OF assms(1)] assms(2)]
  by (simp_all add: packs_to_ext)

lemma prefix_packs:
  assumes "sb_env env"
  shows "0 \<le> fst (yaml_pack_pres_node_prefix env node)"
        "ext env (snd (yaml_pack_pres_node_prefix env node))"
  using yaml_pack_pres_node_prefix_sb[OF sb_envD[OF assms(1)]]
  by (simp_all add: packs_to_ext)

lemma tag_packs:
  assumes "sb_env env"
  shows "0 \<le> fst (yaml_pack_tag env tg)" "ext env (snd (yaml_pack_tag env tg))"
  using yaml_pack_tag_sb[OF sb_envD[OF assms(1)]]
  by (simp_all add: packs_to_ext)

lemma wf_pres_node:
  "wf_pres (pres env) \<Longrightarrow> wf_node (yaml_pack_env_get_pres_node env)"
  by (auto simp: wf_pres_def yaml_pack_env_get_pres_node_def wf_node_def split: option.splits)

lemma wf_pres_path [simp]: "pres (snd (yaml_pack_env_push_path env s)) = pres env"
  by (simp add: yaml_pack_env_push_path_def)

lemma ext_push_path [simp]: "ext env (snd (yaml_pack_env_push_path env s))"
  by (simp add: yaml_pack_env_push_path_def ext_def)

lemma state_push_path [simp]:
  "state (snd (yaml_pack_env_push_path env s)) = state env"
  "priv (snd (yaml_pack_env_push_path env s)) = priv env"
  by (simp_all add: yaml_pack_env_push_path_def)

lemma pop_path_simps [simp]:
  "ext env (yaml_pack_env_pop_path e n) = ext env e"
  "state (yaml_pack_env_pop_path e n) = state e"
  "priv (yaml_pack_env_pop_path e n) = priv e"
  by (simp_all add: yaml_pack_env_pop_path_def ext_def)

lemma pack_data_get_node_sb:
  assumes "wf_pres (pres env)" "wf_data d"
  shows "wf_node (fst (pack_data_get_node env d))"
        "ext env (snd (pack_data_get_node env d))"
        "state (snd (pack_data_get_node env d)) = state env"
        "priv (snd (pack_data_get_node env d)) = priv env"
proof -
  have p: "wf_node (presentation d)"
    using assms(2) by (cases d) simp
  have "wf_pres (pres (snd (yaml_pack_env_push_path env ''!'')))"
    using assms(1) by simp
  from wf_pres_node[OF this] p
  show "wf_node (fst (pack_data_get_node env d))"
    by (simp add: pack_data_get_node_def Let_def)
  show "ext env (snd (pack_data_get_node env d))"
       "state (snd (pack_data_get_node env d)) = state env"
       "priv (snd (pack_data_get_node env d)) = priv env"
    by (simp_all add: pack_data_get_node_def Let_def)
qed

lemma pack_seq_get_node_sb:
  assumes "wf_pres (pres env)" "list_all wf_node ps"
  shows "wf_node (fst (snd (pack_seq_get_node env ps pos)))"
        "ext env (snd (snd (pack_seq_get_node env ps pos)))"
        "state (snd (snd (pack_seq_get_node env ps pos))) = state env"
        "priv (snd (snd (pack_seq_get_node env ps pos))) = priv env"
proof -
  have "wf_pres (pres (snd (yaml_pack_env_push_path env (''['' @ string_of_nat pos @ '']''))))"
    using assms(1) by simp
  from wf_pres_node[OF this] assms(2)
  show "wf_node (fst (snd (pack_seq_get_node env ps pos)))"
    by (auto simp: pack_seq_get_node_def Let_def list_all_length wf_node_def)
  show "ext env (snd (snd (pack_seq_get_node env ps pos)))"
       "state (snd (snd (pack_seq_get_node env ps pos))) = state env"
       "priv (snd (snd (pack_seq_get_node env ps pos))) = priv env"
    by (simp_all add: pack_seq_get_node_def Let_def)
qed

lemma pack_key_get_node_sb:
  assumes "wf_pres (pres env)" "wf_node (key_presentation kd)"
  shows "wf_node (fst (snd (pack_key_get_node env kd)))"
        "ext env (snd (snd (pack_key_get_node env kd)))"
        "state (snd (snd (pack_key_get_node env kd))) = state env"
        "priv (snd (snd (pack_key_get_node env kd))) = priv env"
proof -
  have "wf_pres (pres (snd (yaml_pack_env_push_path env (''.'' @ key kd))))"
    using assms(1) by simp
  from wf_pres_node[OF this] assms(2)
  show "wf_node (fst (snd (pack_key_get_node env kd)))"
    by (simp add: pack_key_get_node_def Let_def)
  show "ext env (snd (snd (pack_key_get_node env kd)))"
       "state (snd (snd (pack_key_get_node env kd))) = state env"
       "priv (snd (snd (pack_key_get_node env kd))) = priv env"
    by (simp_all add: pack_key_get_node_def Let_def)
qed

lemma pack_data_template_sb:
  assumes "wf_data d"
  shows "wf_data (fst (pack_data_template env node d))"
        "ext env (snd (pack_data_template env node d))"
        "state (snd (pack_data_template env node d)) = state env"
        "priv (snd (pack_data_template env node d)) = priv env"
  using assms
  by (auto simp: pack_data_template_def Let_def t_deduce_variable_values_def
        t_apply_variable_value_def wf_node_def ext_def
      split: option.splits list.splits if_splits)

subsection \<open>The block packer on a buffer\<close>

lemma scalar_after:
  assumes "sb_env env" "wf_scalar scalar"
  shows "0 \<le> fst (yaml_pack_scalar env scalar tg)"
        "ext env (snd (yaml_pack_scalar env scalar tg))"
        "after_data (snd (yaml_pack_scalar env scalar tg))"
proof -
  obtain w where w: "yaml_pack_scalar env scalar tg
      = (int (length w), upd env w PACK_STATE_AFTER_DATA (active_vars env) (absolute_path env))"
    "w \<noteq> []" "last w \<noteq> NL"
    using yaml_pack_scalar_sb[OF sb_envD[OF assms(1)] assms(2)] by blast
  show "0 \<le> fst (yaml_pack_scalar env scalar tg)"
       "ext env (snd (yaml_pack_scalar env scalar tg))"
    using w by simp_all
  show "after_data (snd (yaml_pack_scalar env scalar tg))"
    using w by (simp add: after_data_def)
qed

lemma flow_after:
  assumes "sb_env env" "wf_data d"
  shows "0 \<le> fst (yaml_pack_flow_data env d c)"
        "ext env (snd (yaml_pack_flow_data env d c))"
        "after_data ((snd (yaml_pack_flow_data env d c))\<lparr>state := PACK_STATE_AFTER_DATA\<rparr>)"
proof -
  obtain w where w: "yaml_pack_flow_data env d c
      = (int (length w), upd env w PACK_STATE_CLEAN (active_vars env) (absolute_path env))"
    "w \<noteq> []" "last w \<noteq> NL"
    using yaml_pack_flow_sb(1)[of env d c] assms by blast
  show "0 \<le> fst (yaml_pack_flow_data env d c)"
       "ext env (snd (yaml_pack_flow_data env d c))"
    using w by simp_all
  show "after_data ((snd (yaml_pack_flow_data env d c))\<lparr>state := PACK_STATE_AFTER_DATA\<rparr>)"
    using w by (simp add: after_data_def)
qed

lemma goto_ext:
  assumes "sb_env env"
  shows "GOTO_STATE res env st k
         = k (res + int (length (goto_bytes (state env) st (indent_lvl env))))
             (env\<lparr>priv := priv env @ goto_bytes (state env) st (indent_lvl env), state := st\<rparr>)"
  using GOTO_STATE_sb[OF sb_envD[OF assms]] .

lemma puts_ext:
  assumes "sb_env env"
  shows "PUTS res env s k = k (res + int (length s)) (env\<lparr>priv := priv env @ s\<rparr>)"
  using PUTS_sb[OF sb_envD(1)[OF assms]] .

text \<open>The tail of \<^verbatim>\<open>t_yaml_pack_data\<close>: the inline comment of the node.\<close>

lemma inline_tail:
  assumes "sb_env e" "wf_node node" "after_data e" "0 \<le> res" "ext env e"
  shows "packs_to env (if node \<noteq> None
                       then ADD res (yaml_pack_pres_node_inline e node) Pair else (res, e))
         \<and> after_data (snd (if node \<noteq> None
                       then ADD res (yaml_pack_pres_node_inline e node) Pair else (res, e)))"
  using inline_packs[OF assms(1,2)] inline_after_data[OF assms(1,2,3)] assms(3,4,5)
  by (auto simp: ADD_def packs_to_ext intro: ext_trans)


lemma ext_indent:
  "ext (e\<lparr>indent_lvl := indent_lvl e + n\<rparr>) e'
   \<Longrightarrow> ext e (e'\<lparr>indent_lvl := indent_lvl e' - n\<rparr>)"
  by (simp add: ext_def)

lemma sb_env_indent: "sb_env e \<Longrightarrow> sb_env (e\<lparr>indent_lvl := indent_lvl e + YAML_STD_INDENT\<rparr>)"
  by (simp add: sb_env_def YAML_STD_INDENT_def)

lemma wf_pres_indent_ext:
  "ext (e\<lparr>indent_lvl := n\<rparr>) e' \<Longrightarrow> pres e' = pres e"
  by (simp add: ext_def)

lemma after_data_indent_pop:
  "after_data (yaml_pack_env_pop_path (e\<lparr>indent_lvl := n\<rparr>) l) = after_data e"
  by (rule after_data_cong) simp_all

lemma empty_container_sb:
  assumes "sb_env env" "w \<noteq> []" "last w \<noteq> NL"
  shows "packs_to env (GOTO_STATE 0 env PACK_STATE_CLEAN (\<lambda>res env.
            PUTS res env w (\<lambda>res env. (res, env\<lparr>state := PACK_STATE_AFTER_DATA\<rparr>))))
         \<and> after_data (snd (GOTO_STATE 0 env PACK_STATE_CLEAN (\<lambda>res env.
            PUTS res env w (\<lambda>res env. (res, env\<lparr>state := PACK_STATE_AFTER_DATA\<rparr>)))))"
proof -
  let ?e = "env\<lparr>priv := priv env @ goto_bytes (state env) PACK_STATE_CLEAN (indent_lvl env),
                  state := PACK_STATE_CLEAN\<rparr>"
  have sb: "sb_env ?e"
    using assms(1) by simp
  have l: "last (goto_bytes (state env) PACK_STATE_CLEAN (indent_lvl env) @ w) \<noteq> NL"
    using assms(2,3) by simp
  show ?thesis
    using assms(2) l
    by (simp add: goto_ext[OF assms(1)] puts_ext[OF sb] packs_to_ext ext_def after_data_def)
qed


lemma t_yaml_pack_block_sb:
  "sb_env env1 \<longrightarrow> wf_pres (pres env1) \<longrightarrow> wf_data d \<longrightarrow>
     packs_to env1 (t_yaml_pack_data env1 d) \<and> after_data (snd (t_yaml_pack_data env1 d))"
  "sb_env env2 \<longrightarrow> wf_pres (pres env2) \<longrightarrow> list_all wf_data ds \<longrightarrow> list_all wf_node ps \<longrightarrow>
     packs_to env2 (t_yaml_pack_seq env2 ds ps) \<and> after_data (snd (t_yaml_pack_seq env2 ds ps))"
  "sb_env env3 \<longrightarrow> wf_pres (pres env3) \<longrightarrow> list_all wf_data ds3 \<longrightarrow> list_all wf_node ps3
     \<longrightarrow> 0 \<le> res3 \<longrightarrow>
     (\<exists>res' env'. t_yaml_pack_seq_loop res3 env3 ds3 ps3 pos3 k3 = k3 res' env'
        \<and> packs_to env3 (res', env')
        \<and> (ds3 \<noteq> [] \<longrightarrow> after_data env') \<and> (ds3 = [] \<longrightarrow> env' = env3))"
  "sb_env env4 \<longrightarrow> wf_pres (pres env4) \<longrightarrow> wf_data (kdata kd) \<longrightarrow> wf_node (key_presentation kd)
     \<longrightarrow> packs_to env4 (t_yaml_pack_key_data env4 kd)
         \<and> after_data (snd (t_yaml_pack_key_data env4 kd))"
  "sb_env env5 \<longrightarrow> wf_pres (pres env5)
     \<longrightarrow> list_all (\<lambda>kd. wf_data (kdata kd) \<and> wf_node (key_presentation kd)) fs
     \<longrightarrow> packs_to env5 (yaml_pack_obj env5 fs) \<and> after_data (snd (yaml_pack_obj env5 fs))"
  "sb_env env6 \<longrightarrow> wf_pres (pres env6)
     \<longrightarrow> list_all (\<lambda>kd. wf_data (kdata kd) \<and> wf_node (key_presentation kd)) fs6
     \<longrightarrow> 0 \<le> res6 \<longrightarrow>
     (\<exists>res' env'. yaml_pack_obj_loop res6 env6 fs6 k6 = k6 res' env'
        \<and> packs_to env6 (res', env')
        \<and> (fs6 \<noteq> [] \<longrightarrow> after_data env') \<and> (fs6 = [] \<longrightarrow> env' = env6))"
proof (induction env1 d and env2 ds ps and res3 env3 ds3 ps3 pos3 k3 and env4 kd and env5 fs
         and res6 env6 fs6 k6
       rule: t_yaml_pack_data_t_yaml_pack_seq_t_yaml_pack_seq_loop_t_yaml_pack_key_data_yaml_pack_obj_yaml_pack_obj_loop.induct)
  case (1 env0 data0)
  show ?case
  proof (intro impI)
    assume sb: "sb_env env0" and wp: "wf_pres (pres env0)" and wf: "wf_data data0"
    define node where "node = fst (pack_data_get_node env0 data0)"
    define e1 where "e1 = snd (pack_data_get_node env0 data0)"
    define data where "data = fst (pack_data_template e1 node data0)"
    define e2 where "e2 = snd (pack_data_template e1 node data0)"
    define inline where "inline = (\<lambda>res env.
            if node \<noteq> None then ADD res (yaml_pack_pres_node_inline env node) Pair
            else (res, env))"
    define r3 where "r3 = yaml_pack_pres_node_prefix e2 node"
    define r4 where "r4 = yaml_pack_tag (snd r3) (tag data)"
    define e4 where "e4 = snd r4"
    define n4 where "n4 = 0 + fst r3 + fst r4"
    have wn: "wf_node node"
      and x1: "ext env0 e1"
      using pack_data_get_node_sb[OF wp wf] by (simp_all add: node_def e1_def)
    have wd: "wf_data data" and x2: "ext e1 e2"
      using pack_data_template_sb[OF wf] by (simp_all add: data_def e2_def)
    have sb2: "sb_env e2"
      using ext_sb_env x1 x2 sb by blast
    have x3: "ext e2 (snd r3)" and p3: "0 \<le> fst r3"
      using prefix_packs[OF sb2] by (simp_all add: r3_def)
    have sb3: "sb_env (snd r3)"
      using ext_sb_env x3 sb2 by blast
    have x4: "ext (snd r3) e4" and p4: "0 \<le> fst r4"
      using tag_packs[OF sb3] by (simp_all add: r4_def e4_def)
    have x04: "ext env0 e4"
      using x1 x2 x3 x4 ext_trans by blast
    have sb4: "sb_env e4"
      using ext_sb_env x04 sb by blast
    have wp4: "wf_pres (pres e4)"
      using ext_wf_pres x04 wp by blast
    have n4: "0 \<le> n4"
      using p3 p4 by (simp add: n4_def)
    have eq: "t_yaml_pack_data env0 data0 =
       (if node \<noteq> None \<and> flow_mode (the node) \<and> yaml_env_data_can_use_flow_mode e4 data
        then GOTO_STATE n4 e4 PACK_STATE_CLEAN (\<lambda>res env.
               ADD res (yaml_pack_flow_data env data False) (\<lambda>res env.
                 inline res (env\<lparr>state := PACK_STATE_AFTER_DATA\<rparr>)))
        else (case dvalue data of
                YAML_DATA_SCALAR scalar \<Rightarrow>
                  RETHROW_ADD n4 (yaml_pack_scalar e4 scalar (tag data)) inline
              | YAML_DATA_SEQ ds ps \<Rightarrow> RETHROW_ADD n4 (t_yaml_pack_seq e4 ds ps) inline
              | YAML_DATA_OBJ fs \<Rightarrow> RETHROW_ADD n4 (yaml_pack_obj e4 fs) inline))"
      unfolding n4_def e4_def r4_def r3_def inline_def data_def e2_def e1_def node_def
      by (subst t_yaml_pack_data.simps) (simp only: Let_def ADD_def)
    have tail: "packs_to env0 (inline res e) \<and> after_data (snd (inline res e))"
      if "ext e4 e" "after_data e" "0 \<le> res" for res e
    proof -
      have "sb_env e" "ext env0 e"
        using that(1) sb4 x04 ext_sb_env ext_trans by blast+
      then show ?thesis
        using inline_tail[of e node res env0] wn that by (simp add: inline_def)
    qed
    show "packs_to env0 (t_yaml_pack_data env0 data0)
          \<and> after_data (snd (t_yaml_pack_data env0 data0))"
    proof (cases "node \<noteq> None \<and> flow_mode (the node) \<and> yaml_env_data_can_use_flow_mode e4 data")
      case True
      let ?e5 = "e4\<lparr>priv := priv e4 @ goto_bytes (state e4) PACK_STATE_CLEAN (indent_lvl e4),
                      state := PACK_STATE_CLEAN\<rparr>"
      have sb5: "sb_env ?e5" and x5: "ext e4 ?e5"
        using sb4 by simp_all
      note f = flow_after[OF sb5 wd, of False]
      have x6: "ext e4 ((snd (yaml_pack_flow_data ?e5 data False))\<lparr>state := PACK_STATE_AFTER_DATA\<rparr>)"
        using ext_trans[OF x5 f(2)] by simp
      have eqT: "t_yaml_pack_data env0 data0 = GOTO_STATE n4 e4 PACK_STATE_CLEAN (\<lambda>res env.
               ADD res (yaml_pack_flow_data env data False) (\<lambda>res env.
                 inline res (env\<lparr>state := PACK_STATE_AFTER_DATA\<rparr>)))"
        unfolding eq using True by (rule if_P)
      from tail[OF x6 f(3)] n4 f(1)
      show ?thesis
        by (simp add: eqT goto_ext[OF sb4] ADD_def)
    next
      case False
      have eqF: "t_yaml_pack_data env0 data0 = (case dvalue data of
                YAML_DATA_SCALAR scalar \<Rightarrow>
                  RETHROW_ADD n4 (yaml_pack_scalar e4 scalar (tag data)) inline
              | YAML_DATA_SEQ ds ps \<Rightarrow> RETHROW_ADD n4 (t_yaml_pack_seq e4 ds ps) inline
              | YAML_DATA_OBJ fs \<Rightarrow> RETHROW_ADD n4 (yaml_pack_obj e4 fs) inline)"
        unfolding eq using False by (rule if_not_P)
      show ?thesis
      proof (cases "dvalue data")
        case (YAML_DATA_SCALAR scalar)
        then have "wf_scalar scalar"
          using wd by (cases data) simp
        note s = scalar_after[OF sb4 this, of "tag data"]
        from tail[OF s(2,3)] n4 s(1) YAML_DATA_SCALAR
        show ?thesis
          by (simp add: eqF RETHROW_ADD_def)
      next
        case (YAML_DATA_SEQ ds ps)
        then have w: "list_all wf_data ds" "list_all wf_node ps"
          using wd by (cases data; simp)+
        have "packs_to e4 (t_yaml_pack_seq e4 ds ps) \<and> after_data (snd (t_yaml_pack_seq e4 ds ps))"
          using "1.IH"(1)[OF node_def[symmetric, THEN sym] e1_def[symmetric, THEN sym]
                  _ _ refl, where xae=e4 and ?x21.0=ds and ?x22.0=ps]
            False YAML_DATA_SEQ sb4 wp4 w
          by (simp add: data_def e2_def node_def e1_def)
        then have s: "0 \<le> fst (t_yaml_pack_seq e4 ds ps)" "ext e4 (snd (t_yaml_pack_seq e4 ds ps))"
          "after_data (snd (t_yaml_pack_seq e4 ds ps))"
          by (simp_all add: packs_to_ext)
        from tail[OF s(2,3)] n4 s(1) YAML_DATA_SEQ
        show ?thesis
          by (simp add: eqF RETHROW_ADD_def)
      next
        case (YAML_DATA_OBJ fs)
        then have w: "list_all (\<lambda>kd. wf_data (kdata kd) \<and> wf_node (key_presentation kd)) fs"
          using wd by (cases data) simp
        have "packs_to e4 (yaml_pack_obj e4 fs) \<and> after_data (snd (yaml_pack_obj e4 fs))"
          using "1.IH"(2)[OF node_def[symmetric, THEN sym] e1_def[symmetric, THEN sym]
                  _ _ refl, where xae=e4 and ?x3.0=fs]
            False YAML_DATA_OBJ sb4 wp4 w
          by (simp add: data_def e2_def node_def e1_def)
        then have s: "0 \<le> fst (yaml_pack_obj e4 fs)" "ext e4 (snd (yaml_pack_obj e4 fs))"
          "after_data (snd (yaml_pack_obj e4 fs))"
          by (simp_all add: packs_to_ext)
        from tail[OF s(2,3)] n4 s(1) YAML_DATA_OBJ
        show ?thesis
          by (simp add: eqF RETHROW_ADD_def)
      qed
    qed
  qed
next
  case (2 env ds ps)
  show ?case
  proof (intro impI)
    assume sb: "sb_env env" and wp: "wf_pres (pres env)" and wd: "list_all wf_data ds"
      and wn: "list_all wf_node ps"
    show "packs_to env (t_yaml_pack_seq env ds ps) \<and> after_data (snd (t_yaml_pack_seq env ds ps))"
    proof (cases "length ds = 0")
      case True
      then show ?thesis
        using empty_container_sb[OF sb, of "''[]''"] by (simp add: t_yaml_pack_seq.simps)
    next
      case False
      then obtain res' env' where
        "t_yaml_pack_seq_loop 0 env ds ps 0 Pair = (res', env')"
        "packs_to env (res', env')" "after_data env'"
        using "2.IH" sb wp wd wn by auto
      then show ?thesis
        using False by (simp add: t_yaml_pack_seq.simps)
    qed
  qed
next
  case (3 res env ps pos k)
  show ?case
    by (auto simp: packs_to_ext)
next
  case (4 res env0 data ds ps pos k)
  show ?case
  proof (intro impI)
    assume sb: "sb_env env0" and wp: "wf_pres (pres env0)"
      and wds: "list_all wf_data (data # ds)" and wns: "list_all wf_node ps" and res: "0 \<le> res"
    define path_len where "path_len = fst (pack_seq_get_node env0 ps pos)"
    define node where "node = fst (snd (pack_seq_get_node env0 ps pos))"
    define eA where "eA = snd (snd (pack_seq_get_node env0 ps pos))"
    define r1 where "r1 = yaml_pack_pres_node_prefix eA node"
    define e2 where "e2 = (snd r1)\<lparr>priv := priv (snd r1)
        @ goto_bytes (state (snd r1)) PACK_STATE_ON_DASH (indent_lvl (snd r1)),
        state := PACK_STATE_ON_DASH\<rparr>"
    define e3 where "e3 = e2\<lparr>priv := priv e2 @ ''-''\<rparr>"
    define r4 where "r4 = yaml_pack_pres_node_inline
        (e3\<lparr>indent_lvl := indent_lvl e3 + YAML_STD_INDENT\<rparr>) node"
    define r5 where "r5 = t_yaml_pack_data (snd r4) data"
    define e6 where "e6 = yaml_pack_env_pop_path
        ((snd r5)\<lparr>indent_lvl := indent_lvl (snd r5) - YAML_STD_INDENT\<rparr>) path_len"
    define res6 where "res6 = res + fst r1
        + int (length (goto_bytes (state (snd r1)) PACK_STATE_ON_DASH (indent_lvl (snd r1))))
        + int (length ''-'') + fst r4 + fst r5"
    have wn: "wf_node node" and xA: "ext env0 eA"
      using pack_seq_get_node_sb[OF wp wns] by (simp_all add: node_def eA_def)
    have sbA: "sb_env eA"
      using ext_sb_env xA sb by blast
    have p1: "0 \<le> fst r1" and x1: "ext eA (snd r1)"
      using prefix_packs[OF sbA] by (simp_all add: r1_def)
    have sb1: "sb_env (snd r1)"
      using ext_sb_env x1 sbA by blast
    have x2: "ext (snd r1) e2" and sb2: "sb_env e2"
      using sb1 by (simp_all add: e2_def)
    have x3: "ext e2 e3" and sb3: "sb_env e3"
      using sb2 by (simp_all add: e3_def)
    have x03: "ext env0 e3"
      using xA x1 x2 x3 ext_trans by blast
    note sb3' = sb_env_indent[OF sb3]
    have p4: "0 \<le> fst r4"
      and x4: "ext (e3\<lparr>indent_lvl := indent_lvl e3 + YAML_STD_INDENT\<rparr>) (snd r4)"
      using inline_packs[OF sb3' wn] by (simp_all add: r4_def)
    have sb4: "sb_env (snd r4)"
      using ext_sb_env x4 sb3' by blast
    have wp4: "wf_pres (pres (snd r4))"
      using wf_pres_indent_ext[OF x4] ext_wf_pres[OF x03 wp] by simp
    have wd: "wf_data data" and wds': "list_all wf_data ds"
      using wds by simp_all
    have ih1: "packs_to (snd r4) r5 \<and> after_data (snd r5)"
      using "4.IH"(1)[OF refl refl refl, where xab="snd r4"] sb4 wp4 wd
      by (simp add: r5_def)
    then have p5: "0 \<le> fst r5" and x5: "ext (snd r4) (snd r5)" and a5: "after_data (snd r5)"
      by (simp_all add: packs_to_ext)
    have "ext (e3\<lparr>indent_lvl := indent_lvl e3 + YAML_STD_INDENT\<rparr>) (snd r5)"
      using x4 x5 ext_trans by blast
    then have "ext e3 ((snd r5)\<lparr>indent_lvl := indent_lvl (snd r5) - YAML_STD_INDENT\<rparr>)"
      by (rule ext_indent)
    then have x6: "ext env0 e6"
      using x03 ext_trans by (simp add: e6_def)
    have sb6: "sb_env e6"
      using ext_sb_env x6 sb by blast
    have wp6: "wf_pres (pres e6)"
      using ext_wf_pres x6 wp by blast
    have a6: "after_data e6"
      using a5 by (simp add: e6_def after_data_indent_pop)
    have r6: "0 \<le> res6"
      using res p1 p4 p5 by (simp add: res6_def)
    have g: "GOTO_STATE n (snd r1) PACK_STATE_ON_DASH K
        = K (n + int (length (goto_bytes (state (snd r1)) PACK_STATE_ON_DASH
               (indent_lvl (snd r1))))) e2" for n K
      using goto_ext[OF sb1] by (simp add: e2_def)
    have p: "PUTS n e2 s K = K (n + int (length s))
        (e2\<lparr>priv := priv e2 @ s\<rparr>)" for n K s
      using puts_ext[OF sb2] by simp
    have s0: "t_yaml_pack_seq_loop res env0 (data # ds) ps pos k =
       ADD res r1 (\<lambda>res env.
        GOTO_STATE res env PACK_STATE_ON_DASH (\<lambda>res env.
          PUTS res env ''-'' (\<lambda>res env.
            ADD res (yaml_pack_pres_node_inline
                       (env\<lparr>indent_lvl := indent_lvl env + YAML_STD_INDENT\<rparr>) node) (\<lambda>res env.
              RETHROW_ADD res (t_yaml_pack_data env data) (\<lambda>res env.
                t_yaml_pack_seq_loop res
                  (yaml_pack_env_pop_path
                     (env\<lparr>indent_lvl := indent_lvl env - YAML_STD_INDENT\<rparr>) path_len)
                  ds ps (pos + 1) k)))))"
      unfolding r1_def eA_def node_def path_len_def
      by (simp only: t_yaml_pack_seq_loop.simps Let_def)
    have eq: "t_yaml_pack_seq_loop res env0 (data # ds) ps pos k
        = t_yaml_pack_seq_loop res6 e6 ds ps (pos + 1) k"
      unfolding s0 ADD_def g p e3_def[symmetric] r4_def[symmetric] r5_def[symmetric]
        RETHROW_ADD_def
      using p5 by (simp add: res6_def e6_def)
    obtain res' env' where l:
      "t_yaml_pack_seq_loop res6 e6 ds ps (pos + 1) k = k res' env'"
      "packs_to e6 (res', env')" "ds \<noteq> [] \<longrightarrow> after_data env'" "ds = [] \<longrightarrow> env' = e6"
      using "4.IH"(2)[OF refl refl refl, where xac=res6 and xad="snd r5"] sb6 wp6 wds' wns r6
      by (auto simp: e6_def path_len_def)
    have "packs_to env0 (res', env')"
      using l(2) x6 ext_trans by (auto simp: packs_to_ext)
    moreover have "after_data env'"
      using l(3,4) a6 by blast
    ultimately show "\<exists>res' env'. t_yaml_pack_seq_loop res env0 (data # ds) ps pos k = k res' env'
        \<and> packs_to env0 (res', env')
        \<and> (data # ds \<noteq> [] \<longrightarrow> after_data env') \<and> (data # ds = [] \<longrightarrow> env' = env0)"
      using eq l(1) by auto
  qed
next
  case (5 env0 kd)
  show ?case
  proof (intro impI)
    assume sb: "sb_env env0" and wp: "wf_pres (pres env0)"
      and wd: "wf_data (kdata kd)" and wk: "wf_node (key_presentation kd)"
    define path_len where "path_len = fst (pack_key_get_node env0 kd)"
    define node where "node = fst (snd (pack_key_get_node env0 kd))"
    define eA where "eA = snd (snd (pack_key_get_node env0 kd))"
    define r1 where "r1 = yaml_pack_pres_node_prefix eA node"
    define e2 where "e2 = (snd r1)\<lparr>priv := priv (snd r1)
        @ goto_bytes (state (snd r1)) PACK_STATE_ON_KEY (indent_lvl (snd r1)),
        state := PACK_STATE_ON_KEY\<rparr>"
    define e3 where "e3 = e2\<lparr>priv := priv e2 @ key kd\<rparr>"
    define e3b where "e3b = e3\<lparr>priv := priv e3 @ '':''\<rparr>"
    define r4 where "r4 = yaml_pack_pres_node_inline
        (e3b\<lparr>indent_lvl := indent_lvl e3b + YAML_STD_INDENT\<rparr>) node"
    define r5 where "r5 = t_yaml_pack_data (snd r4) (kdata kd)"
    define e6 where "e6 = yaml_pack_env_pop_path
        ((snd r5)\<lparr>indent_lvl := indent_lvl (snd r5) - YAML_STD_INDENT\<rparr>) path_len"
    define res6 where "res6 = 0 + fst r1
        + int (length (goto_bytes (state (snd r1)) PACK_STATE_ON_KEY (indent_lvl (snd r1))))
        + int (length (key kd)) + int (length '':'') + fst r4 + fst r5"
    have wn: "wf_node node" and xA: "ext env0 eA"
      using pack_key_get_node_sb[OF wp wk] by (simp_all add: node_def eA_def)
    have sbA: "sb_env eA"
      using ext_sb_env xA sb by blast
    have p1: "0 \<le> fst r1" and x1: "ext eA (snd r1)"
      using prefix_packs[OF sbA] by (simp_all add: r1_def)
    have sb1: "sb_env (snd r1)"
      using ext_sb_env x1 sbA by blast
    have x2: "ext (snd r1) e2" and sb2: "sb_env e2"
      using sb1 by (simp_all add: e2_def)
    have x3: "ext e2 e3" and sb3: "sb_env e3"
      using sb2 by (simp_all add: e3_def)
    have x3b: "ext e3 e3b" and sb3b: "sb_env e3b"
      using sb3 by (simp_all add: e3b_def)
    have x03: "ext env0 e3b"
      using xA x1 x2 x3 x3b ext_trans by blast
    note sb3' = sb_env_indent[OF sb3b]
    have p4: "0 \<le> fst r4"
      and x4: "ext (e3b\<lparr>indent_lvl := indent_lvl e3b + YAML_STD_INDENT\<rparr>) (snd r4)"
      using inline_packs[OF sb3' wn] by (simp_all add: r4_def)
    have sb4: "sb_env (snd r4)"
      using ext_sb_env x4 sb3' by blast
    have wp4: "wf_pres (pres (snd r4))"
      using wf_pres_indent_ext[OF x4] ext_wf_pres[OF x03 wp] by simp
    have ih1: "packs_to (snd r4) r5 \<and> after_data (snd r5)"
      using "5.IH"[OF refl refl refl, where xab="snd r4"] sb4 wp4 wd
      by (simp add: r5_def)
    then have p5: "0 \<le> fst r5" and x5: "ext (snd r4) (snd r5)" and a5: "after_data (snd r5)"
      by (simp_all add: packs_to_ext)
    have "ext (e3b\<lparr>indent_lvl := indent_lvl e3b + YAML_STD_INDENT\<rparr>) (snd r5)"
      using x4 x5 ext_trans by blast
    then have "ext e3b ((snd r5)\<lparr>indent_lvl := indent_lvl (snd r5) - YAML_STD_INDENT\<rparr>)"
      by (rule ext_indent)
    then have x6: "ext env0 e6"
      using x03 ext_trans by (simp add: e6_def)
    have a6: "after_data e6"
      using a5 by (simp add: e6_def after_data_indent_pop)
    have r6: "0 \<le> res6"
      using p1 p4 p5 by (simp add: res6_def)
    have g: "GOTO_STATE n (snd r1) PACK_STATE_ON_KEY K
        = K (n + int (length (goto_bytes (state (snd r1)) PACK_STATE_ON_KEY
               (indent_lvl (snd r1))))) e2" for n K
      using goto_ext[OF sb1] by (simp add: e2_def)
    have p: "PUTS n e2 s K = K (n + int (length s))
        (e2\<lparr>priv := priv e2 @ s\<rparr>)" for n K s
      using puts_ext[OF sb2] by simp
    have pb: "PUTS n e3 s K = K (n + int (length s))
        (e3\<lparr>priv := priv e3 @ s\<rparr>)" for n K s
      using puts_ext[OF sb3] by simp
    have s0: "t_yaml_pack_key_data env0 kd =
       ADD 0 r1 (\<lambda>res env.
        GOTO_STATE res env PACK_STATE_ON_KEY (\<lambda>res env.
          PUTS res env (key kd) (\<lambda>res env.
            PUTS res env '':'' (\<lambda>res env.
              ADD res (yaml_pack_pres_node_inline
                         (env\<lparr>indent_lvl := indent_lvl env + YAML_STD_INDENT\<rparr>) node) (\<lambda>res env.
                RETHROW_ADD res (t_yaml_pack_data env (kdata kd)) (\<lambda>res env.
                  (res, yaml_pack_env_pop_path
                          (env\<lparr>indent_lvl := indent_lvl env - YAML_STD_INDENT\<rparr>) path_len)))))))"
      unfolding r1_def eA_def node_def path_len_def
      by (simp only: t_yaml_pack_key_data.simps Let_def)
    have eq: "t_yaml_pack_key_data env0 kd = (res6, e6)"
      unfolding s0 ADD_def g p e3_def[symmetric] pb e3b_def[symmetric] r4_def[symmetric]
        r5_def[symmetric] RETHROW_ADD_def
      using p5 by (simp add: res6_def e6_def)
    show "packs_to env0 (t_yaml_pack_key_data env0 kd)
          \<and> after_data (snd (t_yaml_pack_key_data env0 kd))"
      using r6 x6 a6 by (simp add: eq packs_to_ext)
  qed
next
  case (6 env fs)
  show ?case
  proof (intro impI)
    assume sb: "sb_env env" and wp: "wf_pres (pres env)"
      and wf: "list_all (\<lambda>kd. wf_data (kdata kd) \<and> wf_node (key_presentation kd)) fs"
    show "packs_to env (yaml_pack_obj env fs) \<and> after_data (snd (yaml_pack_obj env fs))"
    proof (cases "length fs = 0")
      case True
      then show ?thesis
        using empty_container_sb[OF sb, of "''{}''"] by (simp add: yaml_pack_obj.simps)
    next
      case False
      then obtain res' env' where
        "yaml_pack_obj_loop 0 env fs Pair = (res', env')"
        "packs_to env (res', env')" "after_data env'"
        using "6.IH" sb wp wf by auto
      then show ?thesis
        using False by (simp add: yaml_pack_obj.simps)
    qed
  qed
next
  case (7 res env k)
  show ?case
    by (auto simp: packs_to_ext)
next
  case (8 res env pair fs k)
  show ?case
  proof (intro impI)
    assume sb: "sb_env env" and wp: "wf_pres (pres env)"
      and wf: "list_all (\<lambda>kd. wf_data (kdata kd) \<and> wf_node (key_presentation kd)) (pair # fs)"
      and res: "0 \<le> res"
    define r where "r = t_yaml_pack_key_data env pair"
    have ih1: "packs_to env r \<and> after_data (snd r)"
      using "8.IH"(1) sb wp wf by (simp add: r_def)
    then have p: "0 \<le> fst r" and x: "ext env (snd r)" and a: "after_data (snd r)"
      by (simp_all add: packs_to_ext)
    have sb': "sb_env (snd r)" and wp': "wf_pres (pres (snd r))"
      using ext_sb_env[OF x sb] ext_wf_pres[OF x wp] by simp_all
    have eq: "yaml_pack_obj_loop res env (pair # fs) k
        = yaml_pack_obj_loop (res + fst r) (snd r) fs k"
      using p by (simp add: RETHROW_ADD_def r_def)
    obtain res' env' where l:
      "yaml_pack_obj_loop (res + fst r) (snd r) fs k = k res' env'"
      "packs_to (snd r) (res', env')" "fs \<noteq> [] \<longrightarrow> after_data env'" "fs = [] \<longrightarrow> env' = snd r"
      using "8.IH"(2)[of "snd r" "res + fst r"] sb' wp' wf res p
      by auto
    have "packs_to env (res', env')"
      using l(2) x ext_trans by (auto simp: packs_to_ext)
    moreover have "after_data env'"
      using l(3,4) a by blast
    ultimately show "\<exists>res' env'. yaml_pack_obj_loop res env (pair # fs) k = k res' env'
        \<and> packs_to env (res', env')
        \<and> (pair # fs \<noteq> [] \<longrightarrow> after_data env') \<and> (pair # fs = [] \<longrightarrow> env' = env)"
      using eq l(1) by auto
  qed
qed

subsection \<open>The entry points on a buffer\<close>

lemma t_yaml_pack_data_plain:
  "pres env = None \<Longrightarrow>
   t_yaml_pack_data env (YAML_DATA v None None)
   = (case v of
        YAML_DATA_SCALAR scalar \<Rightarrow> RETHROW_ADD 0 (yaml_pack_scalar env scalar None) Pair
      | YAML_DATA_SEQ ds ps \<Rightarrow> RETHROW_ADD 0 (t_yaml_pack_seq env ds ps) Pair
      | YAML_DATA_OBJ fs \<Rightarrow> RETHROW_ADD 0 (yaml_pack_obj env fs) Pair)"
  by (simp add: t_yaml_pack_data.simps pack_data_get_node_def pack_data_template_def
        yaml_pack_pres_node_prefix_def yaml_pack_tag_def ADD_def Let_def
        cong: yaml_value.case_cong)

text \<open>The document \<^verbatim>\<open>a: true\<close>, packed from the start of a line.\<close>

lemma pack_example_obj:
  assumes "pres env = None" "write_cb env = sb_write" "indent_lvl env = 0"
    "state env = PACK_STATE_ON_NEWLINE"
  shows "t_yaml_pack_data env
     (YAML_DATA (YAML_DATA_OBJ [YAML_KEY_DATA ''a''
         (YAML_DATA (YAML_DATA_SCALAR (YAML_SCALAR_BOOL True)) None None) None]) None None)
   = (7, env\<lparr>priv := priv env @ ''a: true'', state := PACK_STATE_AFTER_DATA\<rparr>)"
  using assms
  by (simp add: t_yaml_pack_data_plain t_yaml_pack_key_data.simps yaml_pack_obj.simps
      pack_key_get_node_def yaml_pack_pres_node_prefix_def
      yaml_pack_pres_node_inline_def ADD_def Let_def yaml_pack_env_pop_path_def
      RETHROW_ADD_def GOTO_STATE_sb PUTS_sb yaml_pack_scalar_def
      goto_bytes_def YAML_STD_INDENT_def yaml_pack_env.equality)

lemma iop_ypack_write_file_sb:
  "\<forall>c s. fs_write fs c s = Some (c @ s) \<Longrightarrow> iop_ypack_write_file fs = sb_write"
  by (intro ext) (simp add: iop_ypack_write_file_def sb_write_def)

text \<open>What a successful \<^verbatim>\<open>t_yaml_pack_file\<close> went through.\<close>

lemma t_yaml_pack_file_ok:
  assumes "t_yaml_pack_file fs env filename data out_err = (0, env', err', ofile)"
  shows "\<exists>c. (let r = t_yaml_pack (env\<lparr>outdirpath := c\<rparr>) data (iop_ypack_write_file fs) []
                     (Some out_err)
              in 0 \<le> fst r \<and> env' = fst (snd r)
                 \<and> ofile = Some (if state env' \<noteq> PACK_STATE_ON_NEWLINE
                      then (case fs_write fs (priv env') [NL] of None \<Rightarrow> priv env'
                            | Some f \<Rightarrow> f)
                      else priv env'))"
proof -
  let ?f = "if length (outdirpath env) > 0 then outdirpath env @ ''/'' @ filename else filename"
  obtain c where "fs_canonify fs (fs_dirname fs ?f) = Some c"
    using assms
    by (cases "fs_canonify fs (fs_dirname fs ?f)")
       (simp_all add: t_yaml_pack_file_def t_yaml_pack_env_set_outdir_def Let_def
         split: if_splits)
  then show ?thesis
    using assms
    by (intro exI[of _ c])
       (simp add: t_yaml_pack_file_def t_yaml_pack_env_set_outdir_def Let_def
         split: if_splits option.splits)
qed

lemma ends_one_nl_snoc: "w \<noteq> [] \<Longrightarrow> last w \<noteq> NL \<Longrightarrow> ends_one_nl (w @ [NL])"
  unfolding ends_one_nl_def
  by (rule exI[of _ "butlast w"], rule exI[of _ "last w"]) simp

lemma t_yaml_pack_sb_after:
  assumes "0 \<le> indent_lvl env" "wf_pres (pres env)" "wf_data data"
  shows "0 \<le> fst (t_yaml_pack env data sb_write sb out_err)"
    "after_data (fst (snd (t_yaml_pack env data sb_write sb out_err)))"
    "outdirpath (fst (snd (t_yaml_pack env data sb_write sb out_err))) = outdirpath env"
proof -
  let ?e = "env\<lparr>write_cb := sb_write, priv := sb\<rparr>"
  have "sb_env ?e" "wf_pres (pres ?e)"
    using assms by (simp_all add: sb_env_def)
  from t_yaml_pack_block_sb(1)[rule_format, OF this assms(3)]
  show "0 \<le> fst (t_yaml_pack env data sb_write sb out_err)"
    "after_data (fst (snd (t_yaml_pack env data sb_write sb out_err)))"
    "outdirpath (fst (snd (t_yaml_pack env data sb_write sb out_err))) = outdirpath env"
    by (simp_all add: t_yaml_pack_def Let_def packs_to_ext ext_def)
qed

subsection \<open>Merging an override\<close>

lemma po_add_Some:
  "po_add (Some p) suffix data =
     Some (p\<lparr>po_nodes := po_nodes p @ [(po_path p @ suffix, map_option t_yaml_data_to_iop data)]\<rparr>)"
  by (simp add: po_add_def yaml_pres_override_add_node_def)

lemma po_push_Some: "po_push (Some p) suffix = Some (p\<lparr>po_path := po_path p @ suffix\<rparr>)"
  by (simp add: po_push_def)

lemma po_clip_Some: "po_clip (Some p) n = Some (p\<lparr>po_path := take n (po_path p)\<rparr>)"
  by (simp add: po_clip_def)

lemma po_prev_len_Some: "po_prev_len (Some p) = length (po_path p)"
  by (simp add: po_prev_len_def)

lemma merge_seq_nodes:
  "foldl (\<lambda>opres i. po_add opres (''['' @ string_of_nat (len + i) @ '']'') None) (Some p) [0 ..< n]
   = Some (p\<lparr>po_nodes := po_nodes p
              @ map (\<lambda>i. (po_path p @ ''['' @ string_of_nat (len + i) @ '']'', None)) [0 ..< n]\<rparr>)"
  by (induction n) (simp_all add: po_add_Some)

lemma yaml_env_merge_seq_Some:
  "yaml_env_merge_seq ods ops (Some p) ds ps =
     (Some (p\<lparr>po_nodes := po_nodes p
              @ map (\<lambda>i. (po_path p @ ''['' @ string_of_nat (length ds + i) @ '']'', None))
                    [0 ..< length ods]\<rparr>),
      ds @ ods, ps @ ops)"
  by (simp only: yaml_env_merge_seq_def merge_seq_nodes)

lemma merge_seq_nodes_None:
  "foldl (\<lambda>opres i. po_add opres (f i) None) None xs = None"
  by (induction xs) (simp_all add: po_add_def)

lemma yaml_env_merge_seq_None:
  "yaml_env_merge_seq ods ops None ds ps = (None, ds @ ods, ps @ ops)"
  by (simp only: yaml_env_merge_seq_def merge_seq_nodes_None)

lemma yaml_data_get_data_type_eq:
  "yaml_data_get_data_type a = yaml_data_get_data_type b \<longleftrightarrow>
     (case (dvalue a, dvalue b) of
        (YAML_DATA_SCALAR s, YAML_DATA_SCALAR s') \<Rightarrow> True
      | (YAML_DATA_SEQ ds ps, YAML_DATA_SEQ ds' ps') \<Rightarrow> True
      | (YAML_DATA_OBJ fs, YAML_DATA_OBJ fs') \<Rightarrow> True
      | _ \<Rightarrow> False)"
  by (simp add: yaml_data_get_data_type_def split: yaml_value.splits)

lemma t_yaml_env_merge_data_mismatch:
  assumes "yaml_data_get_data_type tgt \<noteq> yaml_data_get_data_type ovr"
  shows "t_yaml_env_merge_data ovr opres tgt =
           Inl (YAML_ERR_INVALID_OVERRIDE,
                ''overridden data is '' @ yaml_data_get_data_type tgt @ '' and not ''
                @ yaml_data_get_data_type ovr)"
proof (cases ovr)
  case (YAML_DATA ov otg opr)
  with assms show ?thesis
    by (auto simp: yaml_data_get_data_type_eq split: yaml_value.splits)
qed

lemma t_yaml_env_merge_data_scalar:
  assumes "dvalue tgt = YAML_DATA_SCALAR s" and "dvalue ovr = YAML_DATA_SCALAR so"
  shows "t_yaml_env_merge_data ovr (Some p) tgt =
           Inr (Some (p\<lparr>po_nodes := po_nodes p @ [(po_path p @ ''!'', Some (t_yaml_data_to_iop tgt))]\<rparr>), ovr)"
proof (cases ovr)
  case (YAML_DATA ov otg opr)
  with assms show ?thesis
    by (simp add: t_yaml_merge_scalar_def po_add_Some po_push_Some po_clip_Some po_prev_len_Some)
qed

lemma t_yaml_env_merge_data_seq:
  assumes "dvalue tgt = YAML_DATA_SEQ ds ps" and "dvalue ovr = YAML_DATA_SEQ ods ops"
  shows "t_yaml_env_merge_data ovr (Some p) tgt =
           Inr (Some (p\<lparr>po_nodes := po_nodes p
                      @ map (\<lambda>i. (po_path p @ ''['' @ string_of_nat (length ds + i) @ '']'', None))
                            [0 ..< length ods]\<rparr>),
                YAML_DATA (YAML_DATA_SEQ (ds @ ods) (ps @ ops)) (tag tgt) (presentation tgt))"
proof (cases ovr)
  case (YAML_DATA ov otg opr)
  with assms show ?thesis
    by (simp add: yaml_env_merge_seq_Some)
qed

lemma t_yaml_env_merge_data_obj:
  assumes "dvalue tgt = YAML_DATA_OBJ fs" and "dvalue ovr = YAML_DATA_OBJ ofs"
  shows "t_yaml_env_merge_data ovr opres tgt =
           (case t_yaml_env_merge_obj ofs opres fs of
              Inl e \<Rightarrow> Inl e
            | Inr r \<Rightarrow> Inr (fst r, YAML_DATA (YAML_DATA_OBJ (snd r)) (tag tgt) (presentation tgt)))"
proof (cases ovr)
  case (YAML_DATA ov otg opr)
  with assms show ?thesis
    by simp
qed

lemma t_yaml_env_merge_key_data_absent:
  assumes "key pair \<notin> key ` set fs"
  shows "t_yaml_env_merge_key_data pair opres seen fs =
           Inr (po_add opres (''.'' @ key pair) None, seen @ fs @ [pair])"
  using assms
proof (induction fs arbitrary: seen)
  case Nil
  then show ?case by (cases pair) simp
next
  case (Cons f fs)
  then show ?case by (cases pair) auto
qed

lemma t_yaml_env_merge_key_data_present:
  assumes "key kd = key pair" and "key pair \<notin> key ` set fs1"
  shows "t_yaml_env_merge_key_data pair opres seen (fs1 @ kd # fs2) =
           (case t_yaml_env_merge_data (kdata pair) (po_push opres (''.'' @ key kd)) (kdata kd) of
              Inl e \<Rightarrow> Inl e
            | Inr r \<Rightarrow>
                Inr (po_clip (fst r) (po_prev_len opres),
                     seen @ fs1 @ YAML_KEY_DATA (key kd) (snd r) (key_presentation kd) # fs2))"
  using assms
proof (induction fs1 arbitrary: seen)
  case Nil
  then show ?case by (cases pair) (simp add: Let_def split: sum.splits)
next
  case (Cons f fs1)
  then show ?case by (cases pair) (auto split: sum.splits)
qed

text \<open>A merge that succeeds gives the path of the override back as it was, and keeps
  the nodes that were recorded before it.\<close>

lemma take_prefix: "take (length a) b = a \<longleftrightarrow> (\<exists>ns. b = a @ ns)"
  by (metis append_eq_conv_conj)

lemma po_ext_refl: "po_ext opres opres"
  by (simp add: po_ext_def split: option.splits)

lemma take_prefix_trans:
  "take (length a) b = a \<Longrightarrow> take (length b) c = b \<Longrightarrow> take (length a) c = a"
  by (metis append.assoc take_prefix)

lemma po_ext_trans: "po_ext a b \<Longrightarrow> po_ext b c \<Longrightarrow> po_ext a c"
  by (cases a; cases b; cases c) (auto simp: po_ext_def intro: take_prefix_trans)

lemma po_ext_add: "po_ext opres (po_add opres suffix data)"
  by (simp add: po_ext_def po_add_def yaml_pres_override_add_node_def split: option.splits)

lemma po_ext_clip:
  "po_ext (po_push opres suffix) r \<Longrightarrow> po_ext opres (po_clip r (po_prev_len opres))"
  by (auto simp: po_ext_def po_push_def po_clip_def po_prev_len_def split: option.splits)

lemma po_ext_merge_seq: "po_ext opres (fst (yaml_env_merge_seq ods ops opres ds ps))"
proof (cases opres)
  case None
  then show ?thesis by (simp add: yaml_env_merge_seq_None po_ext_def)
next
  case (Some p)
  then show ?thesis by (simp add: yaml_env_merge_seq_Some po_ext_def)
qed

lemma t_yaml_env_merge_path:
  "t_yaml_env_merge_data ovr opres tgt = Inr r \<longrightarrow> po_ext opres (fst r)"
  "t_yaml_env_merge_obj ofs opres fs = Inr r' \<longrightarrow> po_ext opres (fst r')"
  "t_yaml_env_merge_key_data pair opres seen fs = Inr r' \<longrightarrow> po_ext opres (fst r')"
proof (induction ovr opres tgt and ofs opres fs and pair opres seen fs arbitrary: r and r' and r'
       rule: t_yaml_env_merge_data_t_yaml_env_merge_obj_t_yaml_env_merge_key_data.induct)
  case (1 ov otg opr opres data)
  show ?case
  proof (cases "dvalue data")
    case (YAML_DATA_SCALAR s)
    then show ?thesis
      using po_ext_clip [OF po_ext_add, of opres "''!''" "[]" "Some data"]
      by (auto simp: t_yaml_merge_scalar_def Let_def split: yaml_value.splits)
  next
    case (YAML_DATA_SEQ ds ps)
    then show ?thesis
      by (auto simp: po_ext_merge_seq Let_def split: yaml_value.splits)
  next
    case (YAML_DATA_OBJ fs)
    then show ?thesis using 1
      by (auto split: yaml_value.splits sum.splits)
  qed
next
  case (2 opres fs)
  then show ?case by (auto simp: po_ext_refl)
next
  case (3 pair rest opres fs)
  show ?case
  proof (cases "lstr_startswith (key pair) ''$''")
    case True
    then show ?thesis using 3(3) by simp
  next
    case False
    show ?thesis
    proof (cases "t_yaml_env_merge_key_data pair opres [] fs")
      case (Inl e)
      then show ?thesis using False by simp
    next
      case (Inr r1)
      have "po_ext opres (fst r1)" using 3(1) [OF False] Inr by simp
      moreover have "t_yaml_env_merge_obj rest (fst r1) (snd r1) = Inr r' \<longrightarrow> po_ext (fst r1) (fst r')"
        using 3(2) [OF False Inr] .
      ultimately show ?thesis using False Inr by (auto intro: po_ext_trans)
    qed
  qed
next
  case (4 ok od opr opres seen)
  then show ?case by (auto simp: po_ext_add)
next
  case (5 ok od opr opres seen data_pair rest)
  show ?case
  proof (cases "key data_pair = ok")
    case True
    show ?thesis
    proof (cases "t_yaml_env_merge_data od (po_push opres (''.'' @ key data_pair)) (kdata data_pair)")
      case (Inl e)
      then show ?thesis using True by (simp add: Let_def)
    next
      case (Inr r1)
      have "po_ext (po_push opres (''.'' @ key data_pair)) (fst r1)"
        using 5(1) [OF True refl] Inr by simp
      then show ?thesis using True Inr by (auto simp: Let_def intro: po_ext_clip)
    qed
  next
    case False
    then show ?thesis using 5(2) by simp
  qed
qed

lemma t_yaml_env_merge_key_data_keys:
  "t_yaml_env_merge_key_data pair opres seen fs = Inr r \<Longrightarrow>
     map key (snd r) =
       map key seen @ map key fs @ (if key pair \<in> key ` set fs then [] else [key pair])"
proof (induction fs arbitrary: seen)
  case Nil
  then show ?case by (cases pair) auto
next
  case (Cons f fs)
  then show ?case
    by (cases pair) (auto simp: Let_def split: if_splits sum.splits)
qed

lemma t_yaml_env_merge_obj_keys:
  "list_all (\<lambda>pair. \<not> lstr_startswith (key pair) ''$'') ofs \<Longrightarrow> distinct (map key ofs)
   \<Longrightarrow> t_yaml_env_merge_obj ofs opres fs = Inr r
   \<Longrightarrow> map key (snd r) = map key fs @ filter (\<lambda>k. k \<notin> key ` set fs) (map key ofs)"
proof (induction ofs arbitrary: opres fs)
  case Nil
  then show ?case by auto
next
  case (Cons pair rest)
  from Cons.prems obtain r1 where
    r1: "t_yaml_env_merge_key_data pair opres [] fs = Inr r1"
    and r: "t_yaml_env_merge_obj rest (fst r1) (snd r1) = Inr r"
    by (auto split: sum.splits)
  have k1: "map key (snd r1) = map key fs @ (if key pair \<in> key ` set fs then [] else [key pair])"
    using t_yaml_env_merge_key_data_keys [OF r1] by simp
  have "map key (snd r) = map key (snd r1) @ filter (\<lambda>k. k \<notin> key ` set (snd r1)) (map key rest)"
    using Cons.IH [OF _ _ r] Cons.prems by simp
  moreover have "key ` set (snd r1) = set (map key (snd r1))"
    by simp
  moreover have "filter (\<lambda>k. k \<notin> set (map key (snd r1))) (map key rest)
                 = filter (\<lambda>k. k \<notin> key ` set fs) (map key rest)"
    using Cons.prems(2) unfolding k1 by (auto intro!: filter_cong)
  ultimately show ?case
    unfolding k1 by (simp del: set_map)
qed

section \<open>Properties of the parser\<close>

subsection \<open>Results and errors\<close>

lemma RETHROW_simps [simp]:
  "RETHROW (Failed env) k = Failed env"
  "RETHROW (Parsed env v) k = k env v"
  "RETHROW OutOfFuel k = OutOfFuel"
  "RETHROW NotModelled k = NotModelled"
  by (simp_all add: RETHROW_def)

lemma RETHROW_Parsed:
  "RETHROW r k = Parsed env v \<longleftrightarrow> (\<exists>env1 v1. r = Parsed env1 v1 \<and> k env1 v1 = Parsed env v)"
  by (cases r) simp_all

lemma res_inv_simps [simp]:
  "res_inv P (Parsed env v) = P v"
  "res_inv P (Failed env) = (parse_err env \<noteq> [])"
  "res_inv P OutOfFuel"
  "res_inv P NotModelled"
  by (simp_all add: res_inv_def)

lemma res_inv_RETHROW:
  assumes "res_inv P r" and "\<And>env v. r = Parsed env v \<Longrightarrow> P v \<Longrightarrow> res_inv Q (k env v)"
  shows "res_inv Q (RETHROW r k)"
  using assms by (cases r) simp_all

lemma res_inv_mono: "res_inv P r \<Longrightarrow> (\<And>v. P v \<Longrightarrow> Q v) \<Longrightarrow> res_inv Q r"
  by (cases r) simp_all

lemma res_val_simps [simp]:
  "res_val P (Parsed env v) = P v"
  "res_val P (Failed env)"
  "res_val P OutOfFuel"
  "res_val P NotModelled"
  by (simp_all add: res_val_def)

lemma res_val_RETHROW:
  assumes "\<And>env v. r = Parsed env v \<Longrightarrow> res_val Q (k env v)"
  shows "res_val Q (RETHROW r k)"
  using assms by (cases r) simp_all

lemma res_val_Parsed: "res_val P r \<Longrightarrow> r = Parsed env v \<Longrightarrow> P v"
  by simp

lemma pretty_print_err_not_empty: "yaml_parse_pretty_print_err inp span msg out \<noteq> []"
  by (simp add: yaml_parse_pretty_print_err_def Let_def)

lemma res_inv_set_err [simp]:
  "res_inv P (yaml_env_set_err env type msg)"
  "res_inv P (yaml_env_set_err_at env span type msg)"
  by (simp_all add: yaml_env_set_err_def yaml_env_set_err_at_def yaml_env_err_def
      yaml_env_err_at_def Let_def pretty_print_err_not_empty)

lemma set_err_not_Parsed [simp]:
  "yaml_env_set_err env type msg \<noteq> Parsed env' v"
  "yaml_env_set_err_at env span type msg \<noteq> Parsed env' v"
  "yaml_env_set_err env type msg \<noteq> OutOfFuel"
  "yaml_env_set_err_at env span type msg \<noteq> OutOfFuel"
  "yaml_env_set_err env type msg \<noteq> NotModelled"
  "yaml_env_set_err_at env span type msg \<noteq> NotModelled"
  by (simp_all add: yaml_env_set_err_def yaml_env_set_err_at_def)

lemma res_val_set_err [simp]:
  "res_val P (yaml_env_set_err env type msg)"
  "res_val P (yaml_env_set_err_at env span type msg)"
  by (simp_all add: yaml_env_set_err_def yaml_env_set_err_at_def)

lemma RETHROW_set_err [simp]:
  "RETHROW (yaml_env_set_err env type msg) k = yaml_env_set_err env type msg"
  "RETHROW (yaml_env_set_err_at env span type msg) k = yaml_env_set_err_at env span type msg"
  by (simp_all add: yaml_env_set_err_def yaml_env_set_err_at_def)

lemma res_inv_ltrim_loop: "res_inv P (yaml_env_ltrim_loop ps in_comment env) = res_inv (\<lambda>u. P ()) (yaml_env_ltrim_loop ps in_comment env)"
  by (cases "yaml_env_ltrim_loop ps in_comment env") simp_all

lemma yaml_env_ltrim_loop_inv: "res_inv (\<lambda>u. True) (yaml_env_ltrim_loop ps in_comment env)"
  by (induction ps in_comment env rule: yaml_env_ltrim_loop.induct) simp_all

lemma yaml_env_ltrim_inv [simp]: "res_inv (\<lambda>u. True) (yaml_env_ltrim env)"
  by (simp add: yaml_env_ltrim_def yaml_env_ltrim_loop_inv)

lemma yaml_env_ltrim_loop_fuel [simp]: "yaml_env_ltrim_loop ps in_comment env \<noteq> OutOfFuel"
  by (induction ps in_comment env rule: yaml_env_ltrim_loop.induct) simp_all

lemma yaml_env_ltrim_fuel [simp]: "yaml_env_ltrim env \<noteq> OutOfFuel"
  by (simp add: yaml_env_ltrim_def)

lemma yaml_env_ltrim_loop_modelled [simp]:
  "yaml_env_ltrim_loop ps in_comment env \<noteq> NotModelled"
  by (induction ps in_comment env rule: yaml_env_ltrim_loop.induct) simp_all

lemma yaml_env_ltrim_modelled [simp]: "yaml_env_ltrim env \<noteq> NotModelled"
  by (simp add: yaml_env_ltrim_def)

lemma yaml_env_parse_key_inv [simp]: "res_inv (\<lambda>k. True) (yaml_env_parse_key env)"
  by (auto simp: yaml_env_parse_key_def Let_def intro!: res_inv_RETHROW yaml_env_ltrim_inv)

lemma ast_inv_scalar [simp]: "ast_inv (yaml_scalar_data sc)"
  by (simp add: ast_inv_def yaml_scalar_data_def)

lemma t_yaml_env_parse_quoted_string_inv:
  "res_inv (\<lambda>out. ast_inv (fst out)) (t_yaml_env_parse_quoted_string lib env pos)"
  by (simp add: t_yaml_env_parse_quoted_string_def Let_def split: parse_str_res.splits)

lemma t_yaml_env_parse_scalar_inv [simp]:
  "res_inv (\<lambda>out. ast_inv (fst out)) (t_yaml_env_parse_scalar lib env in_flow)"
proof (cases "ps_peekc env = Some (CHR 0x22)")
  case True
  show ?thesis
    unfolding t_yaml_env_parse_scalar_def Let_def
    using True
    by (auto intro!: res_inv_RETHROW t_yaml_env_parse_quoted_string_inv
        split: yaml_value.splits yaml_scalar.splits)
next
  case False
  then show ?thesis
    by (simp add: t_yaml_env_parse_scalar_def Let_def split: option.splits)
qed

subsection \<open>The invariants of the tree through the parser\<close>

lemma ast_inv_seq [simp]:
  "ast_inv (YAML_DATA (YAML_DATA_SEQ ds ps) tg pr)
   \<longleftrightarrow> (ps = [] \<or> length ps = length ds) \<and> list_all ast_inv ds"
  by (auto simp: ast_inv_def list_all_iff)

lemma ast_inv_obj [simp]:
  "ast_inv (YAML_DATA (YAML_DATA_OBJ fs) tg pr)
   \<longleftrightarrow> distinct (map key fs) \<and> list_all (\<lambda>kd. ast_inv (kdata kd)) fs"
  by (auto simp: ast_inv_def list_all_iff)

lemma ast_inv_tag: "ast_inv (YAML_DATA (dvalue d) tg pr) = ast_inv d"
  by (cases d) (simp add: ast_inv_def)

lemma ast_inv_implicit_obj [simp]:
  "ast_inv (t_yaml_env_build_implicit_obj d) = ast_inv (fk_data d)"
  by (simp add: t_yaml_env_build_implicit_obj_def)

lemma parse_flow_seq_loop_inv:
  assumes kd: "\<And>env. res_inv (\<lambda>d. ast_inv (fk_data d)) (kd env)"
  shows "list_all ast_inv elems
         \<Longrightarrow> res_inv (\<lambda>out. ast_inv (fst out)) (parse_flow_seq_loop kd m env pos elems)"
proof (induction m arbitrary: env elems)
  case 0
  show ?case by simp
next
  case (Suc m)
  show ?case
    unfolding parse_flow_seq_loop.simps Let_def
    using Suc.prems
    by (auto intro!: res_inv_RETHROW[OF yaml_env_ltrim_inv] res_inv_RETHROW[OF kd] Suc.IH)
qed

lemma parse_flow_obj_loop_inv:
  assumes kd: "\<And>env. res_inv (\<lambda>d. ast_inv (fk_data d)) (kd env)"
  shows "distinct (map key pairs) \<Longrightarrow> list_all (\<lambda>kd. ast_inv (kdata kd)) pairs
         \<Longrightarrow> res_inv (\<lambda>out. ast_inv (fst out)) (parse_flow_obj_loop kd m env pos pairs)"
proof (induction m arbitrary: env pairs)
  case 0
  show ?case by simp
next
  case (Suc m)
  show ?case
    unfolding parse_flow_obj_loop.simps Let_def
    using Suc.prems
    by (auto intro!: res_inv_RETHROW[OF yaml_env_ltrim_inv] res_inv_RETHROW[OF kd] Suc.IH)
qed

lemma t_yaml_env_parse_flow_key_val_inv:
  assumes kd: "\<And>env. res_inv (\<lambda>d. ast_inv (fk_data d)) (kd env)"
  shows "res_inv (\<lambda>d. ast_inv (fk_data d)) (t_yaml_env_parse_flow_key_val kd env)"
  unfolding t_yaml_env_parse_flow_key_val_def Let_def
  by (auto intro!: res_inv_RETHROW[OF yaml_env_ltrim_inv] res_inv_RETHROW[OF kd]
      res_inv_RETHROW[OF yaml_env_parse_key_inv])

lemma t_yaml_env_parse_flow_key_data_inv:
  "res_inv (\<lambda>d. ast_inv (fk_data d)) (t_yaml_env_parse_flow_key_data n lib env)"
proof (induction n arbitrary: env)
  case 0
  show ?case by simp
next
  case (Suc n)
  note seq = parse_flow_seq_loop_inv[of "t_yaml_env_parse_flow_key_data n lib", OF Suc.IH]
  note obj = parse_flow_obj_loop_inv[of "t_yaml_env_parse_flow_key_data n lib", OF Suc.IH]
  note kv = t_yaml_env_parse_flow_key_val_inv[of "t_yaml_env_parse_flow_key_data n lib", OF Suc.IH]
  show ?case
    unfolding t_yaml_env_parse_flow_key_data.simps Let_def
    by (auto intro!: res_inv_RETHROW[OF yaml_env_ltrim_inv] kv
        res_inv_RETHROW[OF seq] res_inv_RETHROW[OF obj]
        res_inv_RETHROW[OF t_yaml_env_parse_scalar_inv]
        simp: t_yaml_env_parse_flow_seq_def t_yaml_env_parse_flow_obj_def)
qed

lemma parse_seq_loop_inv:
  assumes pd: "\<And>env mi. res_inv (\<lambda>out. ast_inv (fst out)) (pd env mi)"
  shows "list_all ast_inv elems \<Longrightarrow> length slots = length elems
         \<Longrightarrow> res_inv (\<lambda>out. ast_inv (fst out))
               (parse_seq_loop pd m env min_indent pos elems slots)"
proof (induction m arbitrary: env elems slots min_indent)
  case 0
  show ?case by simp
next
  case (Suc m)
  show ?case
    unfolding parse_seq_loop.simps Let_def
    using Suc.prems
    by (auto intro!: res_inv_RETHROW[OF yaml_env_ltrim_inv] res_inv_RETHROW[OF pd] Suc.IH)
qed

lemma parse_obj_loop_inv:
  assumes pd: "\<And>env mi. res_inv (\<lambda>out. ast_inv (fst out)) (pd env mi)"
  shows "distinct (map key pairs) \<Longrightarrow> list_all (\<lambda>kd. ast_inv (kdata kd)) pairs
         \<Longrightarrow> res_inv (\<lambda>out. ast_inv (fst out))
               (parse_obj_loop pd m env min_indent only_variables pos pairs pos_end)"
proof (induction m arbitrary: env pairs pos_end min_indent only_variables)
  case 0
  show ?case by simp
next
  case (Suc m)
  show ?case
    unfolding parse_obj_loop.simps Let_def
    using Suc.prems
    by (auto intro!: res_inv_RETHROW[OF yaml_env_ltrim_inv] res_inv_RETHROW[OF pd] Suc.IH
        res_inv_RETHROW[OF yaml_env_parse_key_inv])
qed

lemma t_yaml_env_parse_tag_inv:
  assumes pd: "\<And>env mi. res_inv (\<lambda>out. ast_inv (fst out)) (pd env mi)"
  shows "res_inv (\<lambda>out. ast_inv (fst out)) (t_yaml_env_parse_tag pd env min_indent)"
  unfolding t_yaml_env_parse_tag_def Let_def
  by (auto intro!: res_inv_RETHROW[OF pd] simp: ast_inv_tag)

lemma t_yaml_env_do_include_inv:
  "res_inv (\<lambda>inc. \<exists>str. dvalue (fst (fst inc)) = YAML_DATA_SCALAR (YAML_SCALAR_STRING str)
                       \<and> tag (fst (fst inc)) = None)
     (t_yaml_env_do_include lib env raw out)"
  unfolding t_yaml_env_do_include_def Let_def
  by (auto intro!: res_inv_RETHROW[OF yaml_env_ltrim_inv]
      simp: yaml_data_set_string_def
      split: yaml_value.splits yaml_scalar.splits sum.splits)

lemma t_yaml_env_handle_variables_inv:
  assumes pd: "\<And>env mi. res_inv (\<lambda>out. ast_inv (fst out)) (pd env mi)"
  shows "res_inv (\<lambda>vars. True) (t_yaml_env_handle_variables pd m env min_indent vars)"
proof -
  have rv: "res_inv (\<lambda>vars. True) (t_yaml_env_replace_variables e ks d vars)" for e ks d
    by (simp add: t_yaml_env_replace_variables_def split: yaml_value.splits list.splits)
  show ?thesis
    unfolding t_yaml_env_handle_variables_def t_yaml_env_parse_obj_def Let_def
    by (auto intro!: res_inv_RETHROW[OF yaml_env_ltrim_inv] rv
        res_inv_RETHROW[OF parse_obj_loop_inv[OF pd]])
qed

lemma t_yaml_env_merge_data_scalar_obj:
  "dvalue tgt = YAML_DATA_SCALAR sc \<Longrightarrow> dvalue ovr = YAML_DATA_OBJ ofs
   \<Longrightarrow> \<exists>e. t_yaml_env_merge_data ovr opres tgt = Inl e
           \<and> yaml_data_get_data_type tgt \<noteq> yaml_data_get_data_type ovr"
  by (cases ovr) (simp add: yaml_data_get_data_type_def)

text \<open>
  The object that \<^verbatim>\<open>t_yaml_env_parse_obj\<close> returns holds the pairs parsed before, then
  those of the keys read since, in the order of the document; its keys are distinct and,
  outside of the variable settings, none starts with \<^verbatim>\<open>$\<close>.
\<close>

lemma obj_extends_snoc:
  "obj_extends (pairs @ [pair]) only_variables d
   \<Longrightarrow> only_variables \<or> \<not> lstr_startswith (key pair) ''$''
   \<Longrightarrow> obj_extends pairs only_variables d"
proof (cases "dvalue d")
  case (YAML_DATA_OBJ fs)
  assume a: "obj_extends (pairs @ [pair]) only_variables d"
    and b: "only_variables \<or> \<not> lstr_startswith (key pair) ''$''"
  from a YAML_DATA_OBJ have t: "take (Suc (length pairs)) fs = pairs @ [pair]"
    and d: "distinct (map key fs)"
    and n: "only_variables \<or> no_variable_key (drop (Suc (length pairs)) fs)"
    by (simp_all add: obj_extends_def)
  from t have t1: "take (length pairs) fs = pairs"
    by (metis append_eq_conv_conj butlast_snoc butlast_take diff_Suc_1 length_append_singleton
        length_take min.absorb2 nat_le_linear take_all)
  from t have l: "length pairs < length fs"
    by (metis Suc_le_lessD length_append_singleton length_take min.cobounded1)
  from t l have "fs ! length pairs = pair"
    by (metis lessI nth_append_length nth_take)
  then have "drop (length pairs) fs = pair # drop (Suc (length pairs)) fs"
    using l Cons_nth_drop_Suc[of "length pairs" fs] by simp
  then show ?thesis
    using t1 d n b YAML_DATA_OBJ by (auto simp: obj_extends_def no_variable_key_def)
qed (simp_all add: obj_extends_def)

lemma parse_obj_loop_fields:
  "distinct (map key pairs)
   \<Longrightarrow> res_val (\<lambda>out. obj_extends pairs only_variables (fst out))
         (parse_obj_loop pd m env min_indent only_variables pos pairs pos_end)"
proof (induction m arbitrary: env pairs pos_end min_indent only_variables)
  case 0
  show ?case by simp
next
  case (Suc m)
  have fin: "obj_extends pairs ov (YAML_DATA (YAML_DATA_OBJ pairs) tg pr)" for tg pr ov
    using Suc.prems by (simp add: obj_extends_def no_variable_key_def)
  have step: "res_val (\<lambda>out. obj_extends pairs ov (fst out))
         (parse_obj_loop pd m e mi ov pos (pairs @ [YAML_KEY_DATA k d None]) pe)"
    if k: "k \<notin> key ` set pairs" "ov \<or> \<not> lstr_startswith k ''$''"
    for e mi k d pe ov
  proof -
    have "distinct (map key (pairs @ [YAML_KEY_DATA k d None]))"
      using Suc.prems k by auto
    from Suc.IH[OF this, of ov e mi pe] show ?thesis
      using k(2) obj_extends_snoc[of pairs "YAML_KEY_DATA k d None" ov]
      by (auto simp: res_val_def split: parse_res.splits)
  qed
  have fin1: "obj_extends pairs ov
                (YAML_DATA (YAML_DATA_OBJ (pairs @ [YAML_KEY_DATA k d None])) tg pr)"
    if k: "k \<notin> key ` set pairs" "ov \<or> \<not> lstr_startswith k ''$''"
    for k d tg pr ov
    using Suc.prems k by (auto simp: obj_extends_def no_variable_key_def)
  show ?case
    unfolding parse_obj_loop.simps Let_def
    by (auto intro!: res_val_RETHROW step fin fin1)
qed

lemma parse_obj_loop_obj:
  assumes "parse_obj_loop pd m env min_indent only_variables pos [] pos_end = Parsed env' out"
  shows "\<exists>fs. dvalue (fst out) = YAML_DATA_OBJ fs"
  using res_val_Parsed[OF parse_obj_loop_fields assms]
  by (auto simp: obj_extends_def split: yaml_value.splits)

lemma t_yaml_env_handle_override_inv:
  assumes pd: "\<And>env mi. res_inv (\<lambda>out. ast_inv (fst out)) (pd env mi)"
    and sc: "dvalue (fst out) = YAML_DATA_SCALAR sc"
  shows "res_inv (\<lambda>r. r = out) (t_yaml_env_handle_override pd m env min_indent out)"
proof -
  have mg: "res_inv (\<lambda>r. r = out)
          (case t_yaml_env_merge_data (fst override) None (fst out) of
             Inl e \<Rightarrow>
               if yaml_data_get_data_type (fst out) \<noteq> yaml_data_get_data_type (fst override)
               then yaml_env_set_err_at e' (snd override) (fst e) (snd e)
               else NotModelled
           | Inr r \<Rightarrow> Parsed e' (snd r, snd out))"
    if h: "parse_obj_loop pd m e0 mi False pos [] pe = Parsed e' override"
    for e0 mi pos pe e' override
  proof -
    obtain fs where "dvalue (fst override) = YAML_DATA_OBJ fs"
      using parse_obj_loop_obj[OF h] by blast
    from t_yaml_env_merge_data_scalar_obj[OF sc this, of None]
    show ?thesis
      by auto
  qed
  have po: "res_inv (\<lambda>out. True) (parse_obj_loop pd m e0 mi False pos [] pe)" for e0 mi pos pe
    by (rule res_inv_mono[OF parse_obj_loop_inv[OF pd]]) simp_all
  show ?thesis
    unfolding t_yaml_env_handle_override_def t_yaml_env_parse_obj_def Let_def
    by (auto intro!: res_inv_RETHROW[OF yaml_env_ltrim_inv] res_inv_RETHROW[OF po] mg)
qed

lemma t_yaml_env_handle_include_inv:
  assumes pd: "\<And>env mi. res_inv (\<lambda>out. ast_inv (fst out)) (pd env mi)"
  shows "ast_inv (fst out)
   \<Longrightarrow> res_inv (\<lambda>out. ast_inv (fst out)) (t_yaml_env_handle_include pd m lib env min_indent out)"
proof (cases "tag (fst out) \<noteq> Some ''include'' \<and> tag (fst out) \<noteq> Some ''includeraw''")
  case True
  assume "ast_inv (fst out)"
  then show ?thesis
    using True by (simp add: t_yaml_env_handle_include_def)
next
  case False
  have sc: "ast_inv d" if "dvalue d = YAML_DATA_SCALAR s" for d s
    using that by (cases d) (simp add: ast_inv_def)
  have ov: "res_inv (\<lambda>out. ast_inv (fst out))
              (t_yaml_env_handle_override pd m e2 min_indent inc)"
    if "dvalue (fst inc) = YAML_DATA_SCALAR (YAML_SCALAR_STRING str)" for e2 inc str
    using res_inv_mono[OF t_yaml_env_handle_override_inv[OF pd that]] sc[OF that]
    by simp
  show ?thesis
    unfolding t_yaml_env_handle_include_def Let_def
    using False
    by (auto intro!: res_inv_RETHROW[OF t_yaml_env_do_include_inv]
        res_inv_RETHROW[OF t_yaml_env_handle_variables_inv[OF pd]]
        res_inv_RETHROW[OF ov])
qed

lemma t_yaml_env_parse_data_inv:
  "res_inv (\<lambda>out. ast_inv (fst out)) (t_yaml_env_parse_data n lib env min_indent)"
proof (induction n arbitrary: env min_indent)
  case 0
  show ?case by simp
next
  case (Suc n)
  note kd = t_yaml_env_parse_flow_key_data_inv[of n lib]
  note fseq = parse_flow_seq_loop_inv[of "t_yaml_env_parse_flow_key_data n lib", OF kd]
  note fobj = parse_flow_obj_loop_inv[of "t_yaml_env_parse_flow_key_data n lib", OF kd]
  note seq = parse_seq_loop_inv[of "t_yaml_env_parse_data n lib", OF Suc.IH]
  note obj = parse_obj_loop_inv[of "t_yaml_env_parse_data n lib", OF Suc.IH]
  note tg = t_yaml_env_parse_tag_inv[of "t_yaml_env_parse_data n lib", OF Suc.IH]
  show ?case
    unfolding t_yaml_env_parse_data.simps Let_def
    by (auto intro!: res_inv_RETHROW[OF yaml_env_ltrim_inv] res_inv_RETHROW[OF tg]
        t_yaml_env_handle_include_inv[of "t_yaml_env_parse_data n lib", OF Suc.IH] fseq fobj seq obj
        simp: t_yaml_env_parse_flow_seq_def t_yaml_env_parse_flow_obj_def
          t_yaml_env_parse_seq_def t_yaml_env_parse_obj_def)
qed

subsection \<open>The entry point and the sequences\<close>

lemma t_yaml_parse_ok:
  assumes "t_yaml_parse fuel lib env out_err = Some (0, env', out, err')"
  shows "\<exists>env1 d span. t_yaml_env_parse_data fuel lib env 0 = Parsed env1 (d, span) \<and> out = Some d
                        \<and> err' = out_err"
  using assms
  by (auto simp: t_yaml_parse_def Let_def
      split: parse_res.splits if_splits prod.splits)

lemma yaml_parse_string_ast_inv:
  assumes "yaml_parse_string fuel lib yaml = Some (0, env', Some d, err')"
  shows "ast_inv d"
proof -
  from assms obtain env1 span where
    "t_yaml_env_parse_data fuel lib (yaml_parse_attach_ps (t_yaml_parse_new False) yaml) 0
       = Parsed env1 (d, span)"
    using t_yaml_parse_ok unfolding yaml_parse_string_def by blast
  then show ?thesis
    using t_yaml_env_parse_data_inv[of fuel lib
        "yaml_parse_attach_ps (t_yaml_parse_new False) yaml" 0]
    by simp
qed

text \<open>
  A block sequence has one slot for each element, and at least one element; a flow
  sequence has no slot.
\<close>

lemma parse_seq_loop_slots:
  "length slots = length elems
   \<Longrightarrow> res_val (\<lambda>out. case dvalue (fst out) of
                         YAML_DATA_SEQ ds ps \<Rightarrow> length ps = length ds \<and> ds \<noteq> []
                       | _ \<Rightarrow> False)
         (parse_seq_loop pd m env min_indent pos elems slots)"
proof (induction m arbitrary: env elems slots min_indent)
  case 0
  show ?case by simp
next
  case (Suc m)
  show ?case
    unfolding parse_seq_loop.simps Let_def
    using Suc.prems
    by (auto intro!: res_val_RETHROW Suc.IH)
qed

lemma parse_flow_seq_loop_slots:
  "res_val (\<lambda>out. case dvalue (fst out) of YAML_DATA_SEQ ds ps \<Rightarrow> ps = [] | _ \<Rightarrow> False)
     (parse_flow_seq_loop kd m env pos elems)"
proof (induction m arbitrary: env elems)
  case 0
  show ?case by simp
next
  case (Suc m)
  show ?case
    unfolding parse_flow_seq_loop.simps Let_def
    by (auto intro!: res_val_RETHROW Suc.IH)
qed





section \<open>Properties of the packer\<close>

subsection \<open>Empty containers\<close>

text \<open>
  Claim C10. For every empty sequence and every empty mapping, the packer emits the flow
  forms \<^verbatim>\<open>[]\<close> and \<^verbatim>\<open>{}\<close>, even when packing in block mode and even when the node
  carries no flow-mode presentation hint.

  \<^verbatim>\<open>t_yaml_pack_seq\<close> and \<^verbatim>\<open>yaml_pack_obj\<close> are the block-mode packers; neither reads a
  presentation node. Writing to a buffer at any indent level and from any state, on an
  empty container they write the bytes of the transition to \<^verbatim>\<open>CLEAN\<close> and then \<^verbatim>\<open>[]\<close> or
  \<^verbatim>\<open>{}\<close>, and leave the state \<^verbatim>\<open>AFTER_DATA\<close>. Through the entry point \<^verbatim>\<open>t_yaml_pack_sb\<close>, a
  fresh environment and a data without tag and without presentation, the buffer is
  exactly \<^verbatim>\<open>[]\<close> or \<^verbatim>\<open>{}\<close>.
\<close>

theorem empty_containers_flow_form:
  "t_yaml_pack_seq (env\<lparr>write_cb := sb_write, indent_lvl := int n\<rparr>) [] ps
     = (int (length (goto_bytes (state env) PACK_STATE_CLEAN (int n) @ ''[]'')),
        env\<lparr>write_cb := sb_write, indent_lvl := int n,
            priv := priv env @ goto_bytes (state env) PACK_STATE_CLEAN (int n) @ ''[]'',
            state := PACK_STATE_AFTER_DATA\<rparr>)
   \<and> yaml_pack_obj (env\<lparr>write_cb := sb_write, indent_lvl := int n\<rparr>) []
     = (int (length (goto_bytes (state env) PACK_STATE_CLEAN (int n) @ ''{}'')),
        env\<lparr>write_cb := sb_write, indent_lvl := int n,
            priv := priv env @ goto_bytes (state env) PACK_STATE_CLEAN (int n) @ ''{}'',
            state := PACK_STATE_AFTER_DATA\<rparr>)
   \<and> (let r = t_yaml_pack_sb t_yaml_pack_env_new
                 (YAML_DATA (YAML_DATA_SEQ [] ps) None None) [] None
      in fst r = 2 \<and> priv (fst (snd r)) = ''[]'')
   \<and> (let r = t_yaml_pack_sb t_yaml_pack_env_new
                 (YAML_DATA (YAML_DATA_OBJ []) None None) [] None
      in fst r = 2 \<and> priv (fst (snd r)) = ''{}'')"
proof -
  let ?e = "env\<lparr>write_cb := sb_write, indent_lvl := int n\<rparr>"
  have seq: "t_yaml_pack_seq ?e [] ps
     = (int (length (goto_bytes (state env) PACK_STATE_CLEAN (int n) @ ''[]'')),
        env\<lparr>write_cb := sb_write, indent_lvl := int n,
            priv := priv env @ goto_bytes (state env) PACK_STATE_CLEAN (int n) @ ''[]'',
            state := PACK_STATE_AFTER_DATA\<rparr>)"
    by (simp add: t_yaml_pack_seq.simps GOTO_STATE_sb PUTS_sb)
  have obj: "yaml_pack_obj ?e []
     = (int (length (goto_bytes (state env) PACK_STATE_CLEAN (int n) @ ''{}'')),
        env\<lparr>write_cb := sb_write, indent_lvl := int n,
            priv := priv env @ goto_bytes (state env) PACK_STATE_CLEAN (int n) @ ''{}'',
            state := PACK_STATE_AFTER_DATA\<rparr>)"
    by (simp add: yaml_pack_obj.simps GOTO_STATE_sb PUTS_sb)
  let ?new = "t_yaml_pack_env_new\<lparr>write_cb := sb_write, priv := []\<rparr>"
  have p: "pres ?new = None"
    by (simp add: t_yaml_pack_env_new_def)
  have gb: "goto_bytes PACK_STATE_ON_NEWLINE PACK_STATE_CLEAN 0 = []"
    by (simp add: goto_bytes_def)
  have tseq: "t_yaml_pack_seq ?new [] ps
     = (2, ?new\<lparr>priv := ''[]'', state := PACK_STATE_AFTER_DATA\<rparr>)"
    by (simp add: t_yaml_pack_seq.simps GOTO_STATE_sb PUTS_sb t_yaml_pack_env_new_def gb)
  have tobj: "yaml_pack_obj ?new []
     = (2, ?new\<lparr>priv := ''{}'', state := PACK_STATE_AFTER_DATA\<rparr>)"
    by (simp add: yaml_pack_obj.simps GOTO_STATE_sb PUTS_sb t_yaml_pack_env_new_def gb)
  show ?thesis
    using seq obj
    by (simp add: t_yaml_pack_sb_def t_yaml_pack_def t_yaml_pack_data_plain[OF p]
        RETHROW_ADD_def tseq tobj)
qed

text \<open>After a key, at indent level 2: a space, then the two bytes.\<close>

theorem empty_containers_flow_form_witness:
  "priv (snd (t_yaml_pack_seq
       (t_yaml_pack_env_new\<lparr>state := PACK_STATE_ON_KEY, priv := ''a:'', write_cb := sb_write,
          indent_lvl := int 2\<rparr>) [] [])) = ''a: []''
   \<and> priv (snd (yaml_pack_obj
       (t_yaml_pack_env_new\<lparr>state := PACK_STATE_ON_KEY, priv := ''a:'', write_cb := sb_write,
          indent_lvl := int 2\<rparr>) [])) = ''a: {}''"
  using empty_containers_flow_form
    [where env = "t_yaml_pack_env_new\<lparr>state := PACK_STATE_ON_KEY, priv := ''a:''\<rparr>"
       and n = 2 and ps = "[]"]
  by (simp add: goto_bytes_def)

subsection \<open>The trailing newline\<close>

text \<open>
  Claim C9. Packing to a file always terminates the output with exactly one trailing
  newline (one is appended whenever the stream does not already end on a newline),
  whereas packing to an in-memory buffer via the top-level entry point appends no
  trailing newline.

  The file system is one whose writes append and succeed; the environment has a sound
  indent level, and the data and the presentation are well formed (no newline inside a
  comment, the text of a double is one token). When \<^verbatim>\<open>t_yaml_pack_file\<close> returns \<open>0\<close>:
  \<^verbatim>\<open>t_yaml_pack_sb\<close> on the same data, with the output directory the file packer has set,
  ends in the same environment \<open>env'\<close>, and its buffer \<open>sb\<close> is the stream with nothing
  appended; when the packer stands on a new line the file is \<open>sb\<close>; otherwise \<open>sb\<close> does
  not end with a newline and the file is \<open>sb\<close> followed by one newline. In both cases
  the file ends with one newline that follows another byte.
\<close>

theorem t_yaml_pack_file_trailing_newline:
  assumes fs: "\<forall>c s. fs_write fs c s = Some (c @ s)"
    and lvl: "0 \<le> indent_lvl env" and wp: "wf_pres (pres env)" and wd: "wf_data data"
    and ok: "t_yaml_pack_file fs env filename data out_err = (0, env', err', ofile)"
  shows "(let r = t_yaml_pack_sb (env\<lparr>outdirpath := outdirpath env'\<rparr>) data [] None;
              sb = priv (fst (snd r))
          in fst (snd r) = env'
             \<and> (if state env' = PACK_STATE_ON_NEWLINE then ofile = Some sb
                 else ofile = Some (sb @ [NL]) \<and> sb \<noteq> [] \<and> last sb \<noteq> NL))
         \<and> (\<exists>file. ofile = Some file \<and> ends_one_nl file)"
proof -
  obtain c where c: "0 \<le> fst (t_yaml_pack (env\<lparr>outdirpath := c\<rparr>) data sb_write [] (Some out_err))"
    "env' = fst (snd (t_yaml_pack (env\<lparr>outdirpath := c\<rparr>) data sb_write [] (Some out_err)))"
    "ofile = Some (if state env' \<noteq> PACK_STATE_ON_NEWLINE then priv env' @ [NL] else priv env')"
    using t_yaml_pack_file_ok[OF ok] fs by (auto simp: iop_ypack_write_file_sb[OF fs] Let_def)
  have h: "0 \<le> indent_lvl (env\<lparr>outdirpath := c\<rparr>)" "wf_pres (pres (env\<lparr>outdirpath := c\<rparr>))"
    using lvl wp by simp_all
  note a = t_yaml_pack_sb_after[OF h wd, of "[]"]
  have od: "outdirpath env' = c"
    using a(3)[of "Some out_err"] c(2) by simp
  have e: "fst (snd (t_yaml_pack (env\<lparr>outdirpath := c\<rparr>) data sb_write [] None)) = env'"
    by (simp add: c(2) t_yaml_pack_def Let_def)
  have ad: "after_data env'"
    using a(2)[of "Some out_err"] c(2) by simp
  show ?thesis
  proof (cases "state env' = PACK_STATE_ON_NEWLINE")
    case True
    then show ?thesis
      using ad c(3) e by (simp add: after_data_def t_yaml_pack_sb_def od Let_def)
  next
    case False
    then have "priv env' \<noteq> []" "last (priv env') \<noteq> NL"
      using ad by (auto simp: after_data_def)
    then show ?thesis
      using False c(3) e ends_one_nl_snoc by (simp add: t_yaml_pack_sb_def od Let_def)
  qed
qed

text \<open>The document \<^verbatim>\<open>a: true\<close> packed to the file \<^verbatim>\<open>out.yml\<close>.\<close>

theorem t_yaml_pack_file_trailing_newline_witness:
  "(\<forall>c s. fs_write \<lparr>fs_mkdir_p = \<lambda>d. True, fs_dirname = \<lambda>p. ''.'', fs_canonify = Some,
                       fs_open = \<lambda>p. True, fs_write = \<lambda>c s. Some (c @ s),
                       fs_close = \<lambda>f. True,
             fs_strerror = \<lambda>f. []\<rparr> c s = Some (c @ s))
   \<and> 0 \<le> indent_lvl t_yaml_pack_env_new
   \<and> wf_pres (pres t_yaml_pack_env_new)
   \<and> wf_data (YAML_DATA (YAML_DATA_OBJ [YAML_KEY_DATA ''a''
         (YAML_DATA (YAML_DATA_SCALAR (YAML_SCALAR_BOOL True)) None None) None]) None None)
   \<and> fst (t_yaml_pack_file
            \<lparr>fs_mkdir_p = \<lambda>d. True, fs_dirname = \<lambda>p. ''.'', fs_canonify = Some,
             fs_open = \<lambda>p. True, fs_write = \<lambda>c s. Some (c @ s), fs_close = \<lambda>f. True,
             fs_strerror = \<lambda>f. []\<rparr>
            t_yaml_pack_env_new ''out.yml''
            (YAML_DATA (YAML_DATA_OBJ [YAML_KEY_DATA ''a''
               (YAML_DATA (YAML_DATA_SCALAR (YAML_SCALAR_BOOL True)) None None) None]) None None)
            []) = 0
   \<and> snd (snd (snd (t_yaml_pack_file
            \<lparr>fs_mkdir_p = \<lambda>d. True, fs_dirname = \<lambda>p. ''.'', fs_canonify = Some,
             fs_open = \<lambda>p. True, fs_write = \<lambda>c s. Some (c @ s), fs_close = \<lambda>f. True,
             fs_strerror = \<lambda>f. []\<rparr>
            t_yaml_pack_env_new ''out.yml''
            (YAML_DATA (YAML_DATA_OBJ [YAML_KEY_DATA ''a''
               (YAML_DATA (YAML_DATA_SCALAR (YAML_SCALAR_BOOL True)) None None) None]) None None)
            []))) = Some (''a: true'' @ [NL])
   \<and> ends_one_nl (''a: true'' @ [NL])
   \<and> priv (fst (snd (t_yaml_pack_sb (t_yaml_pack_env_new\<lparr>outdirpath := ''.''\<rparr>)
            (YAML_DATA (YAML_DATA_OBJ [YAML_KEY_DATA ''a''
               (YAML_DATA (YAML_DATA_SCALAR (YAML_SCALAR_BOOL True)) None None) None]) None None)
            [] None))) = ''a: true''"
proof -
  let ?fs = "\<lparr>fs_mkdir_p = \<lambda>d. True, fs_dirname = \<lambda>p. ''.'', fs_canonify = Some,
             fs_open = \<lambda>p. True, fs_write = \<lambda>c s. Some (c @ s), fs_close = \<lambda>f. True,
             fs_strerror = \<lambda>f. []\<rparr>"
  let ?d = "YAML_DATA (YAML_DATA_OBJ [YAML_KEY_DATA ''a''
               (YAML_DATA (YAML_DATA_SCALAR (YAML_SCALAR_BOOL True)) None None) None]) None None"
  let ?r = "t_yaml_pack_file ?fs t_yaml_pack_env_new ''out.yml'' ?d []"
  have h1: "\<forall>c s. fs_write ?fs c s = Some (c @ s)"
    by simp
  have h2: "0 \<le> indent_lvl t_yaml_pack_env_new"
    by (simp add: t_yaml_pack_env_new_def)
  have h3: "wf_pres (pres t_yaml_pack_env_new)"
    by (simp add: t_yaml_pack_env_new_def wf_pres_def)
  have h4: "wf_data ?d"
    by (simp add: wf_node_def)
  let ?e = "t_yaml_pack_env_new\<lparr>outdirpath := ''.'', write_cb := sb_write, priv := []\<rparr>"
  have "pres ?e = None" "write_cb ?e = sb_write" "indent_lvl ?e = 0"
    "state ?e = PACK_STATE_ON_NEWLINE"
    by (simp_all add: t_yaml_pack_env_new_def)
  note pk = pack_example_obj[OF this]
  have sd: "t_yaml_pack_env_set_outdir ?fs t_yaml_pack_env_new ''.'' []
      = (0, t_yaml_pack_env_new\<lparr>outdirpath := ''.''\<rparr>, [])"
    by (simp add: t_yaml_pack_env_set_outdir_def)
  have od: "outdirpath t_yaml_pack_env_new = []"
    by (simp add: t_yaml_pack_env_new_def)
  have r: "?r = (0, t_yaml_pack_env_new\<lparr>outdirpath := ''.'', write_cb := sb_write,
                    priv := ''a: true'', state := PACK_STATE_AFTER_DATA\<rparr>, [],
                 Some (''a: true'' @ [NL]))"
    by (simp add: t_yaml_pack_file_def od sd t_yaml_pack_def iop_ypack_write_file_sb[OF h1] pk)
  have b: "priv (fst (snd (t_yaml_pack_sb (t_yaml_pack_env_new\<lparr>outdirpath := ''.''\<rparr>) ?d
            [] None))) = ''a: true''"
    by (simp add: t_yaml_pack_sb_def t_yaml_pack_def pk)
  have n: "ends_one_nl (''a: true'' @ [NL])"
    using t_yaml_pack_file_trailing_newline[OF h1 h2 h3 h4 r] by simp
  show ?thesis
    using h1 h2 h3 h4 n b unfolding r by simp
qed

subsection \<open>Quoting of strings\<close>

text \<open>
  Claim C6. For every scalar string emitted by the packer, it is quoted if and only if
  the string is empty, starts with one of \<^verbatim>\<open>! & * - " { [ # .\<close>, contains \<^verbatim>\<open>:\<close> or \<^verbatim>\<open>#\<close> or
  a non-printable byte, starts or ends with a space, or equals \<^verbatim>\<open>~\<close> or \<^verbatim>\<open>null\<close>;
  otherwise it is emitted bare.

  The string made of the single byte \<^verbatim>\<open>0x7f\<close> (DEL), which is not printable, must be
  quoted by the rule; \<^verbatim>\<open>yaml_string_must_be_quoted\<close> answers no, since the table
  \<^verbatim>\<open>yaml_raw_string_contains\<close>, documented as the printable ASCII characters minus \<^verbatim>\<open>:\<close>
  and \<^verbatim>\<open>#\<close>, has the bit of \<^verbatim>\<open>0x7f\<close> set, and \<^verbatim>\<open>yaml_pack_string\<close> writes the byte bare.
\<close>

theorem yaml_string_must_be_quoted_del:
  "spec_must_be_quoted [CHR 0x7F]
   \<and> \<not> yaml_string_must_be_quoted [CHR 0x7F]
   \<and> yaml_pack_string (t_yaml_pack_env_new\<lparr>write_cb := sb_write\<rparr>) [CHR 0x7F]
     = (1, t_yaml_pack_env_new\<lparr>write_cb := sb_write, priv := [CHR 0x7F]\<rparr>)"
proof -
  have q: "\<not> yaml_string_must_be_quoted [CHR 0x7F]"
    by (simp add: yaml_string_must_be_quoted_iff)
  have "spec_must_be_quoted [CHR 0x7F]"
    by (simp add: spec_must_be_quoted_def spec_printable_def)
  moreover have "yaml_pack_string (t_yaml_pack_env_new\<lparr>write_cb := sb_write\<rparr>) [CHR 0x7F]
     = (1, t_yaml_pack_env_new\<lparr>write_cb := sb_write, priv := [CHR 0x7F]\<rparr>)"
    using q by (simp add: yaml_pack_string_def PUTS_sb t_yaml_pack_env_new_def)
  ultimately show ?thesis
    using q by simp
qed

subsection \<open>The typing of scalars\<close>

lemma yaml_parse_special_scalar_spec:
  "yaml_parse_special_scalar line = spec_special_scalar line"
  by (auto simp: yaml_parse_special_scalar_def spec_special_scalar_def lstr_ascii_iequal_def
      ascii_tolower_def)

text \<open>
  Claim C4. For every trimmed raw scalar token, classification follows this exact order:
  exact match \<^verbatim>\<open>~\<close> or case-insensitive \<^verbatim>\<open>null/true/false/.inf/-.inf/.nan\<close>; then signed
  integer only when the parsed value is negative (a parseable non-negative token starting
  with \<^verbatim>\<open>-\<close>, such as \<^verbatim>\<open>-0\<close>, is classified unsigned); then unsigned integer; then double;
  otherwise string.

  \<^verbatim>\<open>yaml_parse_numeric_scalar\<close> looks at the first byte of the token and tries one of the
  two integer parsers, where the order of the specification tries both. The two agree
  for a library whose signed parser gives no negative value for a token without a
  leading \<^verbatim>\<open>-\<close> and whose unsigned parser refuses a leading \<^verbatim>\<open>-\<close>: for every stream that
  does not start with a quote and whose raw scalar is the token \<open>line\<close>, not empty,
  \<^verbatim>\<open>t_yaml_env_parse_scalar\<close> succeeds with the scalar of the specification's order.
\<close>

theorem yaml_scalar_classification_order:
  assumes neg: "\<forall>s i. s \<noteq> [] \<and> hd s \<noteq> CHR ''-'' \<and> lstr_to_int64 lib s = Some i \<longrightarrow> 0 \<le> sint i"
    and uns: "\<forall>s. s \<noteq> [] \<and> hd s = CHR ''-'' \<longrightarrow> lstr_to_uint64 lib s = None"
    and raw: "ps_peekc env \<noteq> Some (CHR 0x22)"
    and line: "fst (yaml_env_get_scalar_ps env in_flow) = line" "line \<noteq> []"
  shows "\<exists>env' span. t_yaml_env_parse_scalar lib env in_flow
           = Parsed env' (yaml_scalar_data (spec_scalar_classify lib line), span)"
proof (cases "spec_special_scalar line")
  case (Some sc)
  then show ?thesis
    using raw line
    by (simp add: t_yaml_env_parse_scalar_def Let_def yaml_parse_special_scalar_spec
        spec_scalar_classify_def)
next
  case None
  have num: "(case yaml_parse_numeric_scalar lib line of Some sc \<Rightarrow> sc
              | None \<Rightarrow> YAML_SCALAR_STRING line) = spec_scalar_classify lib line"
  proof (cases "hd line = CHR ''-''")
    case True
    then have "lstr_to_uint64 lib line = None"
      using uns line(2) by blast
    then show ?thesis
      using True None
      by (simp add: yaml_parse_numeric_scalar_def spec_scalar_classify_def Let_def
          split: option.splits)
  next
    case False
    then have "\<And>i. lstr_to_int64 lib line = Some i \<Longrightarrow> \<not> sint i < 0"
      using neg line(2) by (meson not_less)
    then show ?thesis
      using False None
      by (simp add: yaml_parse_numeric_scalar_def spec_scalar_classify_def Let_def
          split: option.splits)
  qed
  show ?thesis
    using raw line None num
    by (auto simp: t_yaml_env_parse_scalar_def Let_def yaml_parse_special_scalar_spec
        split: option.splits)
qed

lemma digit_value_range: "digit_value c = Some i \<Longrightarrow> 0 \<le> sint i"
  by (auto simp: digit_value_def split: if_splits)

lemma yaml_lib_example_int64:
  "s \<noteq> [] \<and> hd s \<noteq> CHR ''-'' \<and> lstr_to_int64 yaml_lib_example s = Some i \<longrightarrow> 0 \<le> sint i"
  by (auto simp: yaml_lib_example_def digit_value_range split: list.splits if_splits)

lemma yaml_lib_example_uint64:
  "s \<noteq> [] \<and> hd s = CHR ''-'' \<longrightarrow> lstr_to_uint64 yaml_lib_example s = None"
  by (auto simp: yaml_lib_example_def digit_value_def split: list.splits)

text \<open>The token \<^verbatim>\<open>-0\<close> is an unsigned integer.\<close>

theorem yaml_scalar_classification_order_witness:
  "(\<exists>env' span.
      t_yaml_env_parse_scalar yaml_lib_example
        (yaml_parse_attach_ps (t_yaml_parse_new False) ''-0'') False
      = Parsed env' (yaml_scalar_data (YAML_SCALAR_UINT 0), span))
   \<and> spec_scalar_classify yaml_lib_example ''-0'' = YAML_SCALAR_UINT 0"
proof -
  let ?env = "yaml_parse_attach_ps (t_yaml_parse_new False) ''-0''"
  have rest: "ps_rest ?env = ''-0''"
    by (simp add: ps_rest_def yaml_parse_attach_ps_def t_yaml_parse_new_def)
  have raw: "ps_peekc ?env \<noteq> Some (CHR 0x22)"
    by (simp add: ps_peekc_def rest)
  have line: "fst (yaml_env_get_scalar_ps ?env False) = ''-0''"
    by (simp add: yaml_env_get_scalar_ps_def rest ps_rtrim_def c_isspace_def
        ctype_desc_contains_def ctype_scalarend_def)
  have c: "spec_scalar_classify yaml_lib_example ''-0'' = YAML_SCALAR_UINT 0"
    by (simp add: spec_scalar_classify_def spec_special_scalar_def ascii_tolower_def
        yaml_lib_example_def digit_value_def)
  show ?thesis
    using yaml_scalar_classification_order[of yaml_lib_example ?env False "''-0''"]
      yaml_lib_example_int64 yaml_lib_example_uint64 raw line c
    by simp
qed

subsection \<open>Claim C5: merging an override into included data\<close>

text \<open>
  Claim C5. For every override \<open>ovr\<close> merged into the data \<open>tgt\<close> of an included file:
  when the kinds of the two differ, the merge fails with the error ``cannot change types
  of data in override''; a scalar is overwritten by the override, and the original scalar
  is recorded at the current path followed by \<^verbatim>\<open>!\<close>; the elements (and presentation slots)
  of a sequence override are appended, and each appended position is recorded at the path
  followed by its index in brackets, with no original data; the pairs of an object
  override are merged in order, a key that the data has recurses into the first field
  with that key, at the path followed by a dot and the key, and a key that the data has
  not is appended and recorded with no original data; after a merge that succeeds the
  path is the one before it and the nodes recorded before are kept. The nodes are
  recorded when there is an override presentation (the parser was asked for presentation
  data), and the data is merged in the same way when there is none.

  The override is the object that \<^verbatim>\<open>t_yaml_env_handle_override\<close> gets from
  \<^verbatim>\<open>t_yaml_env_parse_obj\<close> outside of the variable settings: its keys are distinct and
  none of them starts with \<^verbatim>\<open>$\<close> (last part of the statement), which is what the
  statements on the pairs of an object assume.
\<close>

theorem t_yaml_env_merge_data_spec:
  "(yaml_data_get_data_type tgtA \<noteq> yaml_data_get_data_type ovrA \<longrightarrow>
      t_yaml_env_merge_data ovrA opresA tgtA =
        Inl (YAML_ERR_INVALID_OVERRIDE,
             ''overridden data is '' @ yaml_data_get_data_type tgtA @ '' and not ''
             @ yaml_data_get_data_type ovrA)
      \<and> yaml_error_prefix YAML_ERR_INVALID_OVERRIDE
          = ''cannot change types of data in override, '')
   \<and> (dvalue tgtB = YAML_DATA_SCALAR sB \<and> dvalue ovrB = YAML_DATA_SCALAR soB \<longrightarrow>
        t_yaml_env_merge_data ovrB (Some pB) tgtB =
          Inr (Some (pB\<lparr>po_nodes := po_nodes pB
                       @ [(po_path pB @ ''!'', Some (t_yaml_data_to_iop tgtB))]\<rparr>), ovrB)
        \<and> t_yaml_env_merge_data ovrB None tgtB = Inr (None, ovrB))
   \<and> (dvalue tgtC = YAML_DATA_SEQ ds ps \<and> dvalue ovrC = YAML_DATA_SEQ ods ops \<longrightarrow>
        t_yaml_env_merge_data ovrC (Some pC) tgtC =
          Inr (Some (pC\<lparr>po_nodes := po_nodes pC
                       @ map (\<lambda>i. (po_path pC @ ''['' @ string_of_nat (length ds + i) @ '']'',
                                   None)) [0 ..< length ods]\<rparr>),
               YAML_DATA (YAML_DATA_SEQ (ds @ ods) (ps @ ops)) (tag tgtC) (presentation tgtC))
        \<and> t_yaml_env_merge_data ovrC None tgtC =
            Inr (None,
                 YAML_DATA (YAML_DATA_SEQ (ds @ ods) (ps @ ops)) (tag tgtC) (presentation tgtC)))
   \<and> (dvalue tgtD = YAML_DATA_OBJ fsD \<and> dvalue ovrD = YAML_DATA_OBJ ofsD \<longrightarrow>
        t_yaml_env_merge_data ovrD opresD tgtD =
          (case t_yaml_env_merge_obj ofsD opresD fsD of
             Inl e \<Rightarrow> Inl e
           | Inr r \<Rightarrow> Inr (fst r, YAML_DATA (YAML_DATA_OBJ (snd r)) (tag tgtD)
                                    (presentation tgtD))))
   \<and> t_yaml_env_merge_obj [] opresE fsE = Inr (opresE, fsE)
   \<and> (\<not> lstr_startswith (key pairF) ''$'' \<longrightarrow>
        t_yaml_env_merge_obj (pairF # restF) opresF fsF =
          (case t_yaml_env_merge_key_data pairF opresF [] fsF of
             Inl e \<Rightarrow> Inl e
           | Inr r \<Rightarrow> t_yaml_env_merge_obj restF (fst r) (snd r)))
   \<and> (key pairG \<notin> key ` set fsG \<longrightarrow>
        t_yaml_env_merge_key_data pairG (Some pG) [] fsG =
          Inr (Some (pG\<lparr>po_nodes := po_nodes pG @ [(po_path pG @ ''.'' @ key pairG, None)]\<rparr>),
               fsG @ [pairG])
        \<and> t_yaml_env_merge_key_data pairG None [] fsG = Inr (None, fsG @ [pairG]))
   \<and> (key kdH = key pairH \<and> key pairH \<notin> key ` set fsH \<longrightarrow>
        t_yaml_env_merge_key_data pairH opresH [] (fsH @ kdH # fsH') =
          (case t_yaml_env_merge_data (kdata pairH) (po_push opresH (''.'' @ key kdH)) (kdata kdH) of
             Inl e \<Rightarrow> Inl e
           | Inr r \<Rightarrow>
               Inr (po_clip (fst r) (po_prev_len opresH),
                    fsH @ YAML_KEY_DATA (key kdH) (snd r) (key_presentation kdH) # fsH'))
        \<and> (case t_yaml_env_merge_data (kdata pairH) (po_push opresH (''.'' @ key kdH)) (kdata kdH) of
             Inl e \<Rightarrow> True
           | Inr r \<Rightarrow> po_ext opresH (po_clip (fst r) (po_prev_len opresH))))
   \<and> (list_all (\<lambda>pair. \<not> lstr_startswith (key pair) ''$'') ofsI \<and> distinct (map key ofsI)
        \<and> t_yaml_env_merge_obj ofsI opresI fsI = Inr rI \<longrightarrow>
        map key (snd rI) = map key fsI @ filter (\<lambda>k. k \<notin> key ` set fsI) (map key ofsI)
        \<and> po_ext opresI (fst rI))
   \<and> (t_yaml_env_parse_obj pd m env min_indent False = Parsed env' out \<longrightarrow>
        (case dvalue (fst out) of
           YAML_DATA_OBJ ofs \<Rightarrow>
             distinct (map key ofs)
             \<and> list_all (\<lambda>pair. \<not> lstr_startswith (key pair) ''$'') ofs
         | _ \<Rightarrow> False))"
proof (intro conjI impI)
  assume "yaml_data_get_data_type tgtA \<noteq> yaml_data_get_data_type ovrA"
  then show "t_yaml_env_merge_data ovrA opresA tgtA =
        Inl (YAML_ERR_INVALID_OVERRIDE,
             ''overridden data is '' @ yaml_data_get_data_type tgtA @ '' and not ''
             @ yaml_data_get_data_type ovrA)"
    by (rule t_yaml_env_merge_data_mismatch)
  show "yaml_error_prefix YAML_ERR_INVALID_OVERRIDE = ''cannot change types of data in override, ''"
    by simp
next
  assume a: "dvalue tgtB = YAML_DATA_SCALAR sB \<and> dvalue ovrB = YAML_DATA_SCALAR soB"
  then show "t_yaml_env_merge_data ovrB (Some pB) tgtB =
          Inr (Some (pB\<lparr>po_nodes := po_nodes pB
                       @ [(po_path pB @ ''!'', Some (t_yaml_data_to_iop tgtB))]\<rparr>), ovrB)"
    by (simp add: t_yaml_env_merge_data_scalar)
  from a show "t_yaml_env_merge_data ovrB None tgtB = Inr (None, ovrB)"
    by (cases ovrB)
       (simp add: t_yaml_merge_scalar_def po_add_def po_push_def po_clip_def)
next
  assume a: "dvalue tgtC = YAML_DATA_SEQ ds ps \<and> dvalue ovrC = YAML_DATA_SEQ ods ops"
  then show "t_yaml_env_merge_data ovrC (Some pC) tgtC =
          Inr (Some (pC\<lparr>po_nodes := po_nodes pC
                       @ map (\<lambda>i. (po_path pC @ ''['' @ string_of_nat (length ds + i) @ '']'',
                                   None)) [0 ..< length ods]\<rparr>),
               YAML_DATA (YAML_DATA_SEQ (ds @ ods) (ps @ ops)) (tag tgtC) (presentation tgtC))"
    using t_yaml_env_merge_data_seq [of tgtC ds ps ovrC ods ops pC] by simp
  from a show "t_yaml_env_merge_data ovrC None tgtC =
            Inr (None,
                 YAML_DATA (YAML_DATA_SEQ (ds @ ods) (ps @ ops)) (tag tgtC) (presentation tgtC))"
    by (cases ovrC) (simp add: yaml_env_merge_seq_None)
next
  assume "dvalue tgtD = YAML_DATA_OBJ fsD \<and> dvalue ovrD = YAML_DATA_OBJ ofsD"
  then show "t_yaml_env_merge_data ovrD opresD tgtD =
          (case t_yaml_env_merge_obj ofsD opresD fsD of
             Inl e \<Rightarrow> Inl e
           | Inr r \<Rightarrow> Inr (fst r, YAML_DATA (YAML_DATA_OBJ (snd r)) (tag tgtD)
                                    (presentation tgtD)))"
    by (simp add: t_yaml_env_merge_data_obj)
next
  show "t_yaml_env_merge_obj [] opresE fsE = Inr (opresE, fsE)"
    by simp
next
  assume "\<not> lstr_startswith (key pairF) ''$''"
  then show "t_yaml_env_merge_obj (pairF # restF) opresF fsF =
          (case t_yaml_env_merge_key_data pairF opresF [] fsF of
             Inl e \<Rightarrow> Inl e
           | Inr r \<Rightarrow> t_yaml_env_merge_obj restF (fst r) (snd r))"
    by simp
next
  assume a: "key pairG \<notin> key ` set fsG"
  then show "t_yaml_env_merge_key_data pairG (Some pG) [] fsG =
          Inr (Some (pG\<lparr>po_nodes := po_nodes pG @ [(po_path pG @ ''.'' @ key pairG, None)]\<rparr>),
               fsG @ [pairG])"
    using t_yaml_env_merge_key_data_absent [of pairG fsG "Some pG" "[]"]
    by (simp add: po_add_Some)
  from a show "t_yaml_env_merge_key_data pairG None [] fsG = Inr (None, fsG @ [pairG])"
    using t_yaml_env_merge_key_data_absent [of pairG fsG None "[]"]
    by (simp add: po_add_def)
next
  assume a: "key kdH = key pairH \<and> key pairH \<notin> key ` set fsH"
  then show "t_yaml_env_merge_key_data pairH opresH [] (fsH @ kdH # fsH') =
          (case t_yaml_env_merge_data (kdata pairH) (po_push opresH (''.'' @ key kdH)) (kdata kdH) of
             Inl e \<Rightarrow> Inl e
           | Inr r \<Rightarrow>
               Inr (po_clip (fst r) (po_prev_len opresH),
                    fsH @ YAML_KEY_DATA (key kdH) (snd r) (key_presentation kdH) # fsH'))"
    using t_yaml_env_merge_key_data_present [of kdH pairH fsH opresH "[]" fsH']
    by (auto split: sum.splits)
  show "case t_yaml_env_merge_data (kdata pairH) (po_push opresH (''.'' @ key kdH)) (kdata kdH) of
             Inl e \<Rightarrow> True
           | Inr r \<Rightarrow> po_ext opresH (po_clip (fst r) (po_prev_len opresH))"
  proof (cases "t_yaml_env_merge_data (kdata pairH) (po_push opresH (''.'' @ key kdH)) (kdata kdH)")
    case (Inl e)
    then show ?thesis by simp
  next
    case (Inr r)
    then have "po_ext (po_push opresH (''.'' @ key kdH)) (fst r)"
      using t_yaml_env_merge_path(1) by blast
    then show ?thesis
      using Inr by (simp add: po_ext_clip)
  qed
next
  assume a: "list_all (\<lambda>pair. \<not> lstr_startswith (key pair) ''$'') ofsI \<and> distinct (map key ofsI)
        \<and> t_yaml_env_merge_obj ofsI opresI fsI = Inr rI"
  then show "map key (snd rI) = map key fsI @ filter (\<lambda>k. k \<notin> key ` set fsI) (map key ofsI)"
    using t_yaml_env_merge_obj_keys by blast
  from a show "po_ext opresI (fst rI)"
    using t_yaml_env_merge_path(2) by blast
next
  assume "t_yaml_env_parse_obj pd m env min_indent False = Parsed env' out"
  then have "obj_extends [] False (fst out)"
    using res_val_Parsed[OF parse_obj_loop_fields, of "[]" pd m env min_indent False]
    by (simp add: t_yaml_env_parse_obj_def)
  then show "case dvalue (fst out) of
           YAML_DATA_OBJ ofs \<Rightarrow>
             distinct (map key ofs)
             \<and> list_all (\<lambda>pair. \<not> lstr_startswith (key pair) ''$'') ofs
         | _ \<Rightarrow> False"
    by (simp add: obj_extends_def no_variable_key_def split: yaml_value.splits)
qed

text \<open>
  The override \<^verbatim>\<open>{a: 2, b: 3}\<close> merged into \<^verbatim>\<open>{a: 1}\<close>, a scalar merged at the path
  \<^verbatim>\<open>.a\<close>, a sequence of one element merged into another, and a sequence merged into a
  scalar.
\<close>

theorem t_yaml_env_merge_data_spec_witness:
  "yaml_data_get_data_type (yaml_scalar_data (YAML_SCALAR_UINT 1))
     \<noteq> yaml_data_get_data_type (YAML_DATA (YAML_DATA_SEQ [] []) None None)
   \<and> t_yaml_env_merge_data (YAML_DATA (YAML_DATA_SEQ [] []) None None)
         (Some \<lparr>po_nodes = [], po_path = []\<rparr>) (yaml_scalar_data (YAML_SCALAR_UINT 1))
       = Inl (YAML_ERR_INVALID_OVERRIDE, ''overridden data is a scalar and not a sequence'')
   \<and> t_yaml_env_merge_data (yaml_scalar_data (YAML_SCALAR_UINT 2))
         (Some \<lparr>po_nodes = [], po_path = ''.a''\<rparr>) (yaml_scalar_data (YAML_SCALAR_UINT 1))
       = Inr (Some \<lparr>po_nodes = [(''.a!'', Some (yaml_scalar_data (YAML_SCALAR_UINT 1)))],
                    po_path = ''.a''\<rparr>,
              yaml_scalar_data (YAML_SCALAR_UINT 2))
   \<and> t_yaml_env_merge_data
         (YAML_DATA (YAML_DATA_SEQ [yaml_scalar_data (YAML_SCALAR_UINT 2)] []) None None)
         (Some \<lparr>po_nodes = [], po_path = []\<rparr>)
         (YAML_DATA (YAML_DATA_SEQ [yaml_scalar_data (YAML_SCALAR_UINT 1)] [None]) None None)
       = Inr (Some \<lparr>po_nodes = [(''[1]'', None)], po_path = []\<rparr>,
              YAML_DATA (YAML_DATA_SEQ [yaml_scalar_data (YAML_SCALAR_UINT 1),
                                       yaml_scalar_data (YAML_SCALAR_UINT 2)] [None]) None None)
   \<and> t_yaml_env_merge_data
         (YAML_DATA (YAML_DATA_OBJ
            [YAML_KEY_DATA ''a'' (yaml_scalar_data (YAML_SCALAR_UINT 2)) None,
             YAML_KEY_DATA ''b'' (yaml_scalar_data (YAML_SCALAR_UINT 3)) None]) None None)
         (Some \<lparr>po_nodes = [], po_path = []\<rparr>)
         (YAML_DATA (YAML_DATA_OBJ
            [YAML_KEY_DATA ''a'' (yaml_scalar_data (YAML_SCALAR_UINT 1)) None]) None None)
       = Inr (Some \<lparr>po_nodes = [(''.a!'', Some (yaml_scalar_data (YAML_SCALAR_UINT 1))),
                                 (''.b'', None)],
                    po_path = []\<rparr>,
              YAML_DATA (YAML_DATA_OBJ
                [YAML_KEY_DATA ''a'' (yaml_scalar_data (YAML_SCALAR_UINT 2)) None,
                 YAML_KEY_DATA ''b'' (yaml_scalar_data (YAML_SCALAR_UINT 3)) None]) None None)
   \<and> ''b'' \<notin> key ` set [YAML_KEY_DATA ''a'' (yaml_scalar_data (YAML_SCALAR_UINT 1)) None]
   \<and> t_yaml_env_merge_key_data
         (YAML_KEY_DATA ''b'' (yaml_scalar_data (YAML_SCALAR_UINT 3)) None)
         (Some \<lparr>po_nodes = [], po_path = []\<rparr>) []
         [YAML_KEY_DATA ''a'' (yaml_scalar_data (YAML_SCALAR_UINT 1)) None]
       = Inr (Some \<lparr>po_nodes = [(''.b'', None)], po_path = []\<rparr>,
              [YAML_KEY_DATA ''a'' (yaml_scalar_data (YAML_SCALAR_UINT 1)) None,
               YAML_KEY_DATA ''b'' (yaml_scalar_data (YAML_SCALAR_UINT 3)) None])
   \<and> t_yaml_env_merge_key_data
         (YAML_KEY_DATA ''a'' (yaml_scalar_data (YAML_SCALAR_UINT 2)) None)
         (Some \<lparr>po_nodes = [], po_path = []\<rparr>) []
         [YAML_KEY_DATA ''a'' (yaml_scalar_data (YAML_SCALAR_UINT 1)) None]
       = Inr (Some \<lparr>po_nodes = [(''.a!'', Some (yaml_scalar_data (YAML_SCALAR_UINT 1)))],
                    po_path = []\<rparr>,
              [YAML_KEY_DATA ''a'' (yaml_scalar_data (YAML_SCALAR_UINT 2)) None])
   \<and> t_yaml_env_parse_obj (t_yaml_env_parse_data 2 yaml_lib_example) 2
         (yaml_parse_attach_ps (t_yaml_parse_new False) ''a: 1'') 1 False
       = Parsed \<lparr>ps_input = ''a: 1'', ps_s = 4, line_number = 1, pos_newline = 0,
                  parse_err = [], allow_unbound_variables = False, variables = []\<rparr>
           (YAML_DATA (YAML_DATA_OBJ
              [YAML_KEY_DATA ''a'' (yaml_scalar_data (YAML_SCALAR_UINT 1)) None]) None None,
            \<lparr>span_start = \<lparr>line_nb = 1, col_nb = 1, pos_s = 0\<rparr>,
             span_end = \<lparr>line_nb = 1, col_nb = 5, pos_s = 4\<rparr>\<rparr>)
   \<and> \<not> lstr_startswith ''a'' ''$''"
proof -
  let ?s1 = "yaml_scalar_data (YAML_SCALAR_UINT 1)"
  let ?s2 = "yaml_scalar_data (YAML_SCALAR_UINT 2)"
  let ?s3 = "yaml_scalar_data (YAML_SCALAR_UINT 3)"
  let ?p0 = "\<lparr>po_nodes = [], po_path = []\<rparr>"
  let ?tgt = "YAML_DATA (YAML_DATA_OBJ [YAML_KEY_DATA ''a'' ?s1 None]) None None"
  let ?ovr = "YAML_DATA (YAML_DATA_OBJ [YAML_KEY_DATA ''a'' ?s2 None,
                                        YAML_KEY_DATA ''b'' ?s3 None]) None None"
  have po: "t_yaml_env_parse_obj (t_yaml_env_parse_data 2 yaml_lib_example) 2
         (yaml_parse_attach_ps (t_yaml_parse_new False) ''a: 1'') 1 False
       = Parsed \<lparr>ps_input = ''a: 1'', ps_s = 4, line_number = 1, pos_newline = 0,
                  parse_err = [], allow_unbound_variables = False, variables = []\<rparr>
           (YAML_DATA (YAML_DATA_OBJ [YAML_KEY_DATA ''a'' ?s1 None]) None None,
            \<lparr>span_start = \<lparr>line_nb = 1, col_nb = 1, pos_s = 0\<rparr>,
             span_end = \<lparr>line_nb = 1, col_nb = 5, pos_s = 4\<rparr>\<rparr>)"
    by code_simp
  have ob: "t_yaml_env_merge_data ?ovr (Some ?p0) ?tgt
       = Inr (Some \<lparr>po_nodes = [(''.a!'', Some ?s1), (''.b'', None)], po_path = []\<rparr>, ?ovr)"
    by code_simp
  have kp: "t_yaml_env_merge_key_data (YAML_KEY_DATA ''a'' ?s2 None) (Some ?p0) []
              [YAML_KEY_DATA ''a'' ?s1 None]
       = Inr (Some \<lparr>po_nodes = [(''.a!'', Some ?s1)], po_path = []\<rparr>,
              [YAML_KEY_DATA ''a'' ?s2 None])"
    by code_simp
  have dv: "dvalue ?s1 = YAML_DATA_SCALAR (YAML_SCALAR_UINT 1)"
           "dvalue ?s2 = YAML_DATA_SCALAR (YAML_SCALAR_UINT 2)"
           "tag ?s1 = None" "presentation ?s1 = None"
           "t_yaml_data_to_iop ?s1 = ?s1"
    by (simp_all add: yaml_scalar_data_def t_yaml_data_to_iop_def)
  have ty: "yaml_data_get_data_type ?s1 = ''a scalar''"
    "yaml_data_get_data_type (YAML_DATA (YAML_DATA_SEQ [] []) None None) = ''a sequence''"
    by (simp_all add: yaml_data_get_data_type_def yaml_scalar_data_def)
  have s1: "string_of_nat (Suc 0) = ''1''"
    by code_simp
  have st: "\<not> lstr_startswith ''a'' ''$''"
    by (simp add: lstr_startswith_def)
  show ?thesis
    using t_yaml_env_merge_data_spec
      [where tgtA = ?s1 and ovrA = "YAML_DATA (YAML_DATA_SEQ [] []) None None"
         and opresA = "Some ?p0"
         and tgtB = ?s1 and ovrB = ?s2 and sB = "YAML_SCALAR_UINT 1" and soB = "YAML_SCALAR_UINT 2"
         and pB = "\<lparr>po_nodes = [], po_path = ''.a''\<rparr>"
         and tgtC = "YAML_DATA (YAML_DATA_SEQ [?s1] [None]) None None"
         and ovrC = "YAML_DATA (YAML_DATA_SEQ [?s2] []) None None"
         and ds = "[?s1]" and ps = "[None]" and ods = "[?s2]" and ops = "[]" and pC = ?p0
         and pairG = "YAML_KEY_DATA ''b'' ?s3 None" and pG = ?p0
         and fsG = "[YAML_KEY_DATA ''a'' ?s1 None]"]
      po ob kp dv ty st s1
    by simp
qed


subsection \<open>Claim C3: the presentation slots of a sequence\<close>

text \<open>
  Claim C3 says that every sequence produced by a successful parse, in block form, in
  flow form or by the merge of an override, has as many presentation slots as elements.
  The flow sequence \<^verbatim>\<open>[~]\<close> is parsed into a sequence of one element and no slot:
  \<^verbatim>\<open>t_yaml_env_parse_flow_seq\<close> never fills \<^verbatim>\<open>pres_nodes\<close>.
\<close>

theorem flow_seq_has_no_slot:
  "yaml_parse_string 3 yaml_lib_example ''[~]''
     = Some (0, \<lparr>ps_input = ''[~]'', ps_s = 0, line_number = 1, pos_newline = 0,
                  parse_err = [], allow_unbound_variables = False, variables = []\<rparr>,
             Some (YAML_DATA (YAML_DATA_SEQ [yaml_scalar_data YAML_SCALAR_NULL] []) None None),
             [])
   \<and> length ([] :: yaml_presentation_node option list)
       \<noteq> length [yaml_scalar_data YAML_SCALAR_NULL]"
proof -
  have "yaml_parse_string 3 yaml_lib_example ''[~]''
     = Some (0, \<lparr>ps_input = ''[~]'', ps_s = 0, line_number = 1, pos_newline = 0,
                  parse_err = [], allow_unbound_variables = False, variables = []\<rparr>,
             Some (YAML_DATA (YAML_DATA_SEQ [yaml_scalar_data YAML_SCALAR_NULL] []) None None),
             [])"
    by code_simp
  then show ?thesis
    by simp
qed

text \<open>
  Claim C3, amended. A sequence parsed in block form has one presentation slot for each of
  its elements; a sequence parsed in flow form has no slot, whatever its elements; the
  merge of an override sequence appends its elements to the elements and its slots to the
  slots, so that the merged sequence has as many slots as elements when both sequences
  have. In the tree of a document that includes no parsed file, where no merge succeeds,
  every sequence has then as many slots as elements, or no slot at all.
\<close>

theorem seq_presentation_slots:
  "(t_yaml_env_parse_seq pd m env min_indent = Parsed env' out \<longrightarrow>
      (case dvalue (fst out) of
         YAML_DATA_SEQ ds ps \<Rightarrow> length ps = length ds \<and> ds \<noteq> []
       | _ \<Rightarrow> False))
   \<and> (t_yaml_env_parse_flow_seq kd mf envf = Parsed envf' outf \<longrightarrow>
        (case dvalue (fst outf) of YAML_DATA_SEQ ds ps \<Rightarrow> ps = [] | _ \<Rightarrow> False))
   \<and> snd (yaml_env_merge_seq ods ops opres dsm psm) = (dsm @ ods, psm @ ops)
   \<and> (dvalue tgt = YAML_DATA_SEQ dsm psm \<and> dvalue ovr = YAML_DATA_SEQ ods ops \<longrightarrow>
        (\<exists>opres'. t_yaml_env_merge_data ovr opres tgt =
           Inr (opres', YAML_DATA (YAML_DATA_SEQ (dsm @ ods) (psm @ ops)) (tag tgt)
                          (presentation tgt)))
        \<and> (length psm = length dsm \<and> length ops = length ods \<longrightarrow>
             length (psm @ ops) = length (dsm @ ods)))
   \<and> (yaml_parse_string fuel lib yaml = Some (0, envp, Some d, errp) \<longrightarrow> seq_slots_ok d)"
proof (intro conjI impI)
  assume "t_yaml_env_parse_seq pd m env min_indent = Parsed env' out"
  then show "case dvalue (fst out) of
         YAML_DATA_SEQ ds ps \<Rightarrow> length ps = length ds \<and> ds \<noteq> []
       | _ \<Rightarrow> False"
    using res_val_Parsed[OF parse_seq_loop_slots, of "[]" "[]" pd m env min_indent]
    by (simp add: t_yaml_env_parse_seq_def)
next
  assume "t_yaml_env_parse_flow_seq kd mf envf = Parsed envf' outf"
  then show "case dvalue (fst outf) of YAML_DATA_SEQ ds ps \<Rightarrow> ps = [] | _ \<Rightarrow> False"
    using res_val_Parsed[OF parse_flow_seq_loop_slots, of kd mf]
    by (simp add: t_yaml_env_parse_flow_seq_def)
next
  show "snd (yaml_env_merge_seq ods ops opres dsm psm) = (dsm @ ods, psm @ ops)"
    by (simp add: yaml_env_merge_seq_def)
next
  assume a: "dvalue tgt = YAML_DATA_SEQ dsm psm \<and> dvalue ovr = YAML_DATA_SEQ ods ops"
  show "\<exists>opres'. t_yaml_env_merge_data ovr opres tgt =
           Inr (opres', YAML_DATA (YAML_DATA_SEQ (dsm @ ods) (psm @ ops)) (tag tgt)
                          (presentation tgt))"
    using a by (cases ovr) (simp add: yaml_env_merge_seq_def)
next
  assume "length psm = length dsm \<and> length ops = length ods"
  then show "length (psm @ ops) = length (dsm @ ods)"
    by simp
next
  assume "yaml_parse_string fuel lib yaml = Some (0, envp, Some d, errp)"
  then show "seq_slots_ok d"
    using yaml_parse_string_ast_inv by (auto simp: ast_inv_def)
qed

text \<open>
  The block sequence \<^verbatim>\<open>- ~\<close>, the flow sequence \<^verbatim>\<open>[~]\<close>, the merge of a sequence of one
  element and one slot into another, and the document \<^verbatim>\<open>- [~]\<close>.
\<close>

theorem seq_presentation_slots_witness:
  "t_yaml_env_parse_seq (t_yaml_env_parse_data 2 yaml_lib_example) 2
       (yaml_parse_attach_ps (t_yaml_parse_new False) ''- ~'') 1
     = Parsed \<lparr>ps_input = ''- ~'', ps_s = 3, line_number = 1, pos_newline = 0,
                parse_err = [], allow_unbound_variables = False, variables = []\<rparr>
         (YAML_DATA (YAML_DATA_SEQ [yaml_scalar_data YAML_SCALAR_NULL] [None]) None None,
          \<lparr>span_start = \<lparr>line_nb = 1, col_nb = 1, pos_s = 0\<rparr>,
           span_end = \<lparr>line_nb = 1, col_nb = 4, pos_s = 3\<rparr>\<rparr>)
   \<and> length [None :: yaml_presentation_node option] = length [yaml_scalar_data YAML_SCALAR_NULL]
   \<and> t_yaml_env_parse_flow_seq (t_yaml_env_parse_flow_key_data 2 yaml_lib_example) 2
       (yaml_parse_attach_ps (t_yaml_parse_new False) ''[~]'')
     = Parsed \<lparr>ps_input = ''[~]'', ps_s = 3, line_number = 1, pos_newline = 0,
                parse_err = [], allow_unbound_variables = False, variables = []\<rparr>
         (YAML_DATA (YAML_DATA_SEQ [yaml_scalar_data YAML_SCALAR_NULL] []) None None,
          \<lparr>span_start = \<lparr>line_nb = 1, col_nb = 1, pos_s = 0\<rparr>,
           span_end = \<lparr>line_nb = 1, col_nb = 4, pos_s = 3\<rparr>\<rparr>)
   \<and> t_yaml_env_merge_data
         (YAML_DATA (YAML_DATA_SEQ [yaml_scalar_data (YAML_SCALAR_UINT 2)] [None]) None None)
         None
         (YAML_DATA (YAML_DATA_SEQ [yaml_scalar_data (YAML_SCALAR_UINT 1)] [None]) None None)
       = Inr (None,
              YAML_DATA (YAML_DATA_SEQ [yaml_scalar_data (YAML_SCALAR_UINT 1),
                                       yaml_scalar_data (YAML_SCALAR_UINT 2)] [None, None])
                None None)
   \<and> yaml_parse_string 4 yaml_lib_example ''- [~]''
     = Some (0, \<lparr>ps_input = ''- [~]'', ps_s = 0, line_number = 1, pos_newline = 0,
                  parse_err = [], allow_unbound_variables = False, variables = []\<rparr>,
             Some (YAML_DATA (YAML_DATA_SEQ
                     [YAML_DATA (YAML_DATA_SEQ [yaml_scalar_data YAML_SCALAR_NULL] []) None None]
                     [None]) None None),
             [])
   \<and> seq_slots_ok (YAML_DATA (YAML_DATA_SEQ
                     [YAML_DATA (YAML_DATA_SEQ [yaml_scalar_data YAML_SCALAR_NULL] []) None None]
                     [None]) None None)"
proof -
  let ?n = "yaml_scalar_data YAML_SCALAR_NULL"
  let ?s1 = "yaml_scalar_data (YAML_SCALAR_UINT 1)"
  let ?s2 = "yaml_scalar_data (YAML_SCALAR_UINT 2)"
  have b: "t_yaml_env_parse_seq (t_yaml_env_parse_data 2 yaml_lib_example) 2
       (yaml_parse_attach_ps (t_yaml_parse_new False) ''- ~'') 1
     = Parsed \<lparr>ps_input = ''- ~'', ps_s = 3, line_number = 1, pos_newline = 0,
                parse_err = [], allow_unbound_variables = False, variables = []\<rparr>
         (YAML_DATA (YAML_DATA_SEQ [?n] [None]) None None,
          \<lparr>span_start = \<lparr>line_nb = 1, col_nb = 1, pos_s = 0\<rparr>,
           span_end = \<lparr>line_nb = 1, col_nb = 4, pos_s = 3\<rparr>\<rparr>)"
    by code_simp
  have f: "t_yaml_env_parse_flow_seq (t_yaml_env_parse_flow_key_data 2 yaml_lib_example) 2
       (yaml_parse_attach_ps (t_yaml_parse_new False) ''[~]'')
     = Parsed \<lparr>ps_input = ''[~]'', ps_s = 3, line_number = 1, pos_newline = 0,
                parse_err = [], allow_unbound_variables = False, variables = []\<rparr>
         (YAML_DATA (YAML_DATA_SEQ [?n] []) None None,
          \<lparr>span_start = \<lparr>line_nb = 1, col_nb = 1, pos_s = 0\<rparr>,
           span_end = \<lparr>line_nb = 1, col_nb = 4, pos_s = 3\<rparr>\<rparr>)"
    by code_simp
  have m: "t_yaml_env_merge_data (YAML_DATA (YAML_DATA_SEQ [?s2] [None]) None None) None
             (YAML_DATA (YAML_DATA_SEQ [?s1] [None]) None None)
       = Inr (None, YAML_DATA (YAML_DATA_SEQ [?s1, ?s2] [None, None]) None None)"
    by code_simp
  have p: "yaml_parse_string 4 yaml_lib_example ''- [~]''
     = Some (0, \<lparr>ps_input = ''- [~]'', ps_s = 0, line_number = 1, pos_newline = 0,
                  parse_err = [], allow_unbound_variables = False, variables = []\<rparr>,
             Some (YAML_DATA (YAML_DATA_SEQ
                     [YAML_DATA (YAML_DATA_SEQ [?n] []) None None] [None]) None None),
             [])"
    by code_simp
  show ?thesis
    using seq_presentation_slots
      [where pd = "t_yaml_env_parse_data 2 yaml_lib_example" and m = 2 and min_indent = 1
         and env = "yaml_parse_attach_ps (t_yaml_parse_new False) ''- ~''"
         and kd = "t_yaml_env_parse_flow_key_data 2 yaml_lib_example" and mf = 2
         and envf = "yaml_parse_attach_ps (t_yaml_parse_new False) ''[~]''"
         and fuel = 4 and lib = yaml_lib_example and yaml = "''- [~]''"
         and tgt = "YAML_DATA (YAML_DATA_SEQ [?s1] [None]) None None"
         and ovr = "YAML_DATA (YAML_DATA_SEQ [?s2] [None]) None None"
         and dsm = "[?s1]" and psm = "[None]" and ods = "[?s2]" and ops = "[None]"
         and opres = None
         and env' = "\<lparr>ps_input = ''- ~'', ps_s = 3, line_number = 1, pos_newline = 0,
                parse_err = [], allow_unbound_variables = False, variables = []\<rparr>"
         and out = "(YAML_DATA (YAML_DATA_SEQ [?n] [None]) None None,
          \<lparr>span_start = \<lparr>line_nb = 1, col_nb = 1, pos_s = 0\<rparr>,
           span_end = \<lparr>line_nb = 1, col_nb = 4, pos_s = 3\<rparr>\<rparr>)"
         and envf' = "\<lparr>ps_input = ''[~]'', ps_s = 3, line_number = 1, pos_newline = 0,
                parse_err = [], allow_unbound_variables = False, variables = []\<rparr>"
         and outf = "(YAML_DATA (YAML_DATA_SEQ [?n] []) None None,
          \<lparr>span_start = \<lparr>line_nb = 1, col_nb = 1, pos_s = 0\<rparr>,
           span_end = \<lparr>line_nb = 1, col_nb = 4, pos_s = 3\<rparr>\<rparr>)"
         and envp = "\<lparr>ps_input = ''- [~]'', ps_s = 0, line_number = 1, pos_newline = 0,
                  parse_err = [], allow_unbound_variables = False, variables = []\<rparr>"
         and d = "YAML_DATA (YAML_DATA_SEQ
                     [YAML_DATA (YAML_DATA_SEQ [?n] []) None None] [None]) None None"
         and errp = "[]"]
      b f m p
    by simp
qed

subsection \<open>Claim C2: the results of the entry points\<close>




end
